(* ===== verification/Go_Prelude.thy ===== *)
theory Go_Prelude
  imports Main "HOL-Library.Word" "HOL-Library.Char_ord" "HOL-Library.List_Lexorder"
    "HOL-Library.Sublist" "HOL-Library.Multiset" "HOL-Library.Code_Target_Nat"
begin

text \<open>
  The shared vocabulary of the development: Go errors as values (with the wrapping tree that
  \<open>errors.Is\<close>, \<open>errors.As\<close> and \<open>errors.Join\<close> walk), fallible results as sums, contexts with
  their cancellation cause, bytes, and the generic lemmas the components share. Go strings are
  byte sequences and HOL's \<^typ>\<open>string\<close> is a list of 8-bit characters, so a Go string is a
  \<^typ>\<open>string\<close> and \<open>len\<close> is \<^const>\<open>length\<close>.
\<close>

section \<open>Collections\<close>

named_theorems err_simps \<open>walks over the wrapping tree of an error\<close>
named_theorems res_simps \<open>sequencing of fallible computations\<close>

section \<open>Lists\<close>

lemma sum_list_mset_cong:
  "mset xs = mset ys \<Longrightarrow> sum_list (map f xs) = (sum_list (map f ys) :: nat)"
  by (metis mset_map sum_mset_sum_list)

lemma sum_list_update_int:
  "i < length xs \<Longrightarrow> sum_list (xs[i := v]) = sum_list xs + v - (xs ! i :: int)"
  by (induction xs arbitrary: i) (auto split: nat.split)

section \<open>Errors\<close>

text \<open>
  The arguments of a formatted message are kept unprinted: which verb prints them how plays no
  role in the code's control flow.
\<close>

datatype err_arg = AStr string | AInt int | AStrs "string list"

text \<open>
  \<open>Errorf f as es\<close> is \<open>fmt.Errorf\<close> with format \<open>f\<close>, plain arguments \<open>as\<close> and the errors
  \<open>es\<close> wrapped by its \<open>%w\<close> verbs; \<open>errors.New s\<close> is \<open>Errorf s [] []\<close>. \<open>Joined\<close> is the
  non-nil result of \<open>errors.Join\<close>. \<open>PeerCloseError\<close> is the starter's redacted close error and
  \<open>CloseError\<close> the native library's, with its reason. The others are the sentinels of the
  standard library and of the native library that the code compares with.
\<close>

datatype go_error =
    Errorf string "err_arg list" "go_error list"
  | Joined "go_error list"
  | PeerCloseError int
  | CloseError int string
  | NetErrClosed
  | Canceled
  | DeadlineExceeded
  | ErrMessageTooBig
  | ErrEOF
  | ErrUnexpectedEOF
  | OtherError string

type_synonym 'a res = "go_error + 'a"

definition errors_new :: "string \<Rightarrow> go_error" where
  "errors_new msg = Errorf msg [] []"

definition wrap :: "string \<Rightarrow> go_error \<Rightarrow> go_error" where
  "wrap fmt e = Errorf fmt [] [e]"

text \<open>\<open>errors.Join\<close> drops nil errors and is nil when nothing is left.\<close>

definition errors_join :: "go_error option list \<Rightarrow> go_error option" where
  "errors_join es = (let kept = List.map_filter id es in if kept = [] then None else Some (Joined kept))"

text \<open>
  \<open>errors.Is\<close> and \<open>errors.As\<close> visit the error and then its wrapped errors, depth first and from
  left to right. \<open>err_find p\<close> is that walk for a predicate-like extractor \<open>p\<close>.
\<close>

fun err_find :: "(go_error \<Rightarrow> 'a option) \<Rightarrow> go_error \<Rightarrow> 'a option"
  and err_find_list :: "(go_error \<Rightarrow> 'a option) \<Rightarrow> go_error list \<Rightarrow> 'a option" where
  "err_find p e =
     (case p e of
        Some x \<Rightarrow> Some x
      | None \<Rightarrow> (case e of Errorf _ _ es \<Rightarrow> err_find_list p es
                         | Joined es \<Rightarrow> err_find_list p es
                         | _ \<Rightarrow> None))"
| "err_find_list p [] = None"
| "err_find_list p (e # es) =
     (case err_find p e of Some x \<Rightarrow> Some x | None \<Rightarrow> err_find_list p es)"

definition errors_is :: "go_error \<Rightarrow> go_error \<Rightarrow> bool" where
  "errors_is e target = (err_find (\<lambda>x. if x = target then Some () else None) e \<noteq> None)"

text \<open>\<open>errors.As\<close> into the starter's \<open>*PeerCloseError\<close> and into the native \<open>CloseError\<close>.\<close>

fun peer_close_of :: "go_error \<Rightarrow> int option" where
  "peer_close_of (PeerCloseError s) = Some s"
| "peer_close_of _ = None"

fun close_error_of :: "go_error \<Rightarrow> (int \<times> string) option" where
  "close_error_of (CloseError c r) = Some (c, r)"
| "close_error_of _ = None"

definition as_peer_close :: "go_error \<Rightarrow> int option" where
  "as_peer_close = err_find peer_close_of"

definition as_close_error :: "go_error \<Rightarrow> (int \<times> string) option" where
  "as_close_error = err_find close_error_of"

declare err_find.simps [simp del]
declare err_find_list.simps [simp]

lemma err_find_Errorf [err_simps]:
  "err_find p (Errorf f as es) =
     (case p (Errorf f as es) of Some x \<Rightarrow> Some x | None \<Rightarrow> err_find_list p es)"
  by (subst err_find.simps) (simp split: option.split)

lemma err_find_Joined [err_simps]:
  "err_find p (Joined es) =
     (case p (Joined es) of Some x \<Rightarrow> Some x | None \<Rightarrow> err_find_list p es)"
  by (subst err_find.simps) (simp split: option.split)

lemma err_find_leaf [err_simps]:
  "err_find p (PeerCloseError s) = p (PeerCloseError s)"
  "err_find p (CloseError c r) = p (CloseError c r)"
  "err_find p NetErrClosed = p NetErrClosed"
  "err_find p Canceled = p Canceled"
  "err_find p DeadlineExceeded = p DeadlineExceeded"
  "err_find p ErrMessageTooBig = p ErrMessageTooBig"
  "err_find p ErrEOF = p ErrEOF"
  "err_find p ErrUnexpectedEOF = p ErrUnexpectedEOF"
  "err_find p (OtherError m) = p (OtherError m)"
  by (subst err_find.simps, simp split: option.split)+

lemma err_case_nil [simp]:
  "(case r of None \<Rightarrow> err_find_list p [] | Some x \<Rightarrow> Some x) = r"
  by (simp split: option.split)

lemma err_find_list_single [err_simps]: "err_find_list p [e] = err_find p e"
  by simp

lemma as_close_error_simps [err_simps]:
  "as_close_error (CloseError c r) = Some (c, r)"
  "as_close_error (Errorf f as es) = err_find_list close_error_of es"
  "as_close_error (Joined es) = err_find_list close_error_of es"
  "as_close_error (PeerCloseError s) = None"
  "as_close_error NetErrClosed = None"
  "as_close_error Canceled = None"
  "as_close_error DeadlineExceeded = None"
  "as_close_error ErrMessageTooBig = None"
  "as_close_error ErrEOF = None"
  "as_close_error ErrUnexpectedEOF = None"
  "as_close_error (OtherError m) = None"
  by (simp_all add: as_close_error_def err_simps)

lemma as_peer_close_simps [err_simps]:
  "as_peer_close (PeerCloseError s) = Some s"
  "as_peer_close (Errorf f as es) = err_find_list peer_close_of es"
  "as_peer_close (Joined es) = err_find_list peer_close_of es"
  "as_peer_close (CloseError c r) = None"
  "as_peer_close NetErrClosed = None"
  "as_peer_close Canceled = None"
  "as_peer_close DeadlineExceeded = None"
  by (simp_all add: as_peer_close_def err_simps)

lemma as_close_error_wrap [err_simps]: "as_close_error (wrap f e) = as_close_error e"
  by (simp add: wrap_def as_close_error_def err_simps)

lemma as_peer_close_wrap [err_simps]: "as_peer_close (wrap f e) = as_peer_close e"
  by (simp add: wrap_def as_peer_close_def err_simps)

lemma errors_is_refl [err_simps]: "errors_is e e"
  by (simp add: errors_is_def err_find.simps)

lemma errors_is_wrap: "errors_is e t \<Longrightarrow> errors_is (wrap f e) t"
  by (auto simp: errors_is_def wrap_def err_find_Errorf err_find_list_single split: option.splits)

lemma errors_is_wrap_closed [err_simps]:
  "errors_is (wrap f e) NetErrClosed = errors_is e NetErrClosed"
  by (simp add: errors_is_def wrap_def err_find_Errorf err_find_list_single)

text \<open>Redaction: the error with every native close reason blanked.\<close>

fun redact :: "go_error \<Rightarrow> go_error" where
  "redact (CloseError c r) = CloseError c []"
| "redact (Errorf f as es) = Errorf f as (map redact es)"
| "redact (Joined es) = Joined (map redact es)"
| "redact e = e"

text \<open>An error value in which no native close error, hence no close reason, is left.\<close>

fun reason_free :: "go_error \<Rightarrow> bool" where
  "reason_free (CloseError c r) = False"
| "reason_free (Errorf f as es) = list_all reason_free es"
| "reason_free (Joined es) = list_all reason_free es"
| "reason_free e = True"

lemma err_find_close_None:
  "p = close_error_of \<Longrightarrow> err_find p e = None \<longleftrightarrow> reason_free e"
  "p = close_error_of \<Longrightarrow> err_find_list p es = None \<longleftrightarrow> list_all reason_free es"
proof (induction p e and p es rule: err_find_err_find_list.induct)
  case (1 p e)
  then show ?case by (cases e) (simp_all add: err_simps)
qed (auto split: option.split)

lemma as_close_error_None_iff: "as_close_error e = None \<longleftrightarrow> reason_free e"
  by (simp add: as_close_error_def err_find_close_None)

section \<open>Contexts\<close>

text \<open>
  A context is what the code can see of it: whether it has ended, with the pair of its \<open>Err\<close> and
  its \<open>Cause\<close>, and a timeline that says what the next observations will find. Time passes by
  \<open>ctx_tick\<close>, one entry at a time; an ended context stays ended. A nil \<open>context.Context\<close>
  argument is \<open>None\<close> of \<open>ctx option\<close>.
\<close>

type_synonym ctx_end = "(go_error \<times> go_error) option"

record ctx =
  ctx_ended :: ctx_end
  ctx_later :: "ctx_end list"

definition background :: ctx where
  "background = \<lparr>ctx_ended = None, ctx_later = []\<rparr>"

definition ctx_Err :: "ctx \<Rightarrow> go_error option" where
  "ctx_Err c = map_option fst (ctx_ended c)"

definition ctx_Cause :: "ctx \<Rightarrow> go_error option" where
  "ctx_Cause c = map_option snd (ctx_ended c)"

definition ctx_tick :: "ctx \<Rightarrow> ctx" where
  "ctx_tick c =
     (case ctx_ended c of
        Some e \<Rightarrow> c
      | None \<Rightarrow> (case ctx_later c of
                   [] \<Rightarrow> c
                 | e # es \<Rightarrow> c\<lparr>ctx_ended := e, ctx_later := es\<rparr>))"

text \<open>The order in which a context may evolve.\<close>

definition ctx_le :: "ctx \<Rightarrow> ctx \<Rightarrow> bool" where
  "ctx_le c d = (ctx_ended c = None \<or> ctx_ended d = ctx_ended c)"

lemma ctx_le_refl [simp]: "ctx_le c c"
  by (simp add: ctx_le_def)

lemma ctx_le_trans: "ctx_le c d \<Longrightarrow> ctx_le d e \<Longrightarrow> ctx_le c e"
  by (auto simp: ctx_le_def)

lemma ctx_le_tick [simp]: "ctx_le c (ctx_tick c)"
  by (simp add: ctx_le_def ctx_tick_def split: option.split)

lemma ctx_tick_background [simp]: "ctx_tick background = background"
  by (simp add: ctx_tick_def background_def)

lemma ctx_background [simp]:
  "ctx_Cause background = None"
  "ctx_Err background = None"
  by (simp_all add: ctx_Cause_def ctx_Err_def background_def)

lemma ctx_Cause_le: "ctx_le c d \<Longrightarrow> ctx_Cause c = Some e \<Longrightarrow> ctx_Cause d = Some e"
  by (auto simp: ctx_le_def ctx_Cause_def)

section \<open>Bytes\<close>

text \<open>A Go \<open>[]byte\<close>; strings and byte slices convert without change of the bytes.\<close>

type_synonym bytes = "8 word list"

definition bytes_of :: "string \<Rightarrow> bytes" where
  "bytes_of s = map (\<lambda>c. word_of_nat (of_char c)) s"

definition string_of :: "bytes \<Rightarrow> string" where
  "string_of p = map (\<lambda>w. char_of (unat w)) p"

lemma string_of_bytes_of [simp]: "string_of (bytes_of s) = s"
proof -
  have "char_of (unat (word_of_nat (of_char c) :: 8 word)) = c" for c
    by (simp add: unat_of_nat)
  then show ?thesis by (simp add: string_of_def bytes_of_def o_def)
qed

lemma bytes_of_string_of [simp]: "bytes_of (string_of p) = p"
proof -
  have "word_of_nat (of_char (char_of (unat w))) = w" for w :: "8 word"
    using unsigned_less [of w, where ?'a = nat] by simp
  then show ?thesis by (simp add: string_of_def bytes_of_def o_def)
qed

lemma length_bytes_of [simp]: "length (bytes_of s) = length s"
  by (simp add: bytes_of_def)

lemma length_string_of [simp]: "length (string_of p) = length p"
  by (simp add: string_of_def)

section \<open>Results\<close>

text \<open>Sequencing of fallible code: the first error is returned.\<close>

definition res_bind :: "'a res \<Rightarrow> ('a \<Rightarrow> 'b res) \<Rightarrow> 'b res" where
  "res_bind r f = (case r of Inl e \<Rightarrow> Inl e | Inr x \<Rightarrow> f x)"

text \<open>A Go check that returns only an error: nil lets the code go on.\<close>

definition unless :: "go_error option \<Rightarrow> 'a res \<Rightarrow> 'a res" where
  "unless err r = (case err of Some e \<Rightarrow> Inl e | None \<Rightarrow> r)"

lemma res_bind_simps [simp]:
  "res_bind (Inl e) f = Inl e"
  "res_bind (Inr x) f = f x"
  by (simp_all add: res_bind_def)

lemma unless_simps [simp]:
  "unless None r = r"
  "unless (Some e) r = Inl e"
  by (simp_all add: unless_def)

lemma res_bind_Inr [res_simps]:
  "res_bind r f = Inr y \<longleftrightarrow> (\<exists>x. r = Inr x \<and> f x = Inr y)"
  by (cases r) auto

lemma unless_Inr [res_simps]: "unless err r = Inr y \<longleftrightarrow> err = None \<and> r = Inr y"
  by (cases err) auto

lemma if_Inl_Inr [res_simps]:
  "(if b then Inl e else r) = Inr y \<longleftrightarrow> \<not> b \<and> r = Inr y"
  by simp

lemma if_Some_None [res_simps]:
  "(if b then Some e else r) = None \<longleftrightarrow> \<not> b \<and> r = None"
  by simp

end
