(* ===== verification/Go_Text.thy ===== *)
theory Go_Text
  imports Go_Prelude
begin

text \<open>
  The functions of Go's \<open>strings\<close>, \<open>strconv\<close> and \<open>net/textproto\<close> packages that the starter
  calls, on byte strings. White space is Unicode white space in its UTF-8 encoding, as
  \<open>strings.TrimSpace\<close> has it, and \<open>strings.EqualFold\<close> against an ASCII constant uses Unicode
  simple folding, under which two non-ASCII letters are equal to an ASCII one.
\<close>

section \<open>Prefixes, suffixes and search\<close>

definition has_prefix :: "string \<Rightarrow> string \<Rightarrow> bool" where
  "has_prefix s p = (take (length p) s = p)"

definition has_suffix :: "string \<Rightarrow> string \<Rightarrow> bool" where
  "has_suffix s p = (length p \<le> length s \<and> drop (length s - length p) s = p)"

definition trim_prefix :: "string \<Rightarrow> string \<Rightarrow> string" where
  "trim_prefix s p = (if has_prefix s p then drop (length p) s else s)"

definition trim_suffix :: "string \<Rightarrow> string \<Rightarrow> string" where
  "trim_suffix s p = (if has_suffix s p then take (length s - length p) s else s)"

text \<open>\<open>strings.ContainsAny\<close> for a set of ASCII characters.\<close>

definition contains_any :: "string \<Rightarrow> string \<Rightarrow> bool" where
  "contains_any s chars = list_ex (\<lambda>c. c \<in> set chars) s"

fun contains :: "string \<Rightarrow> string \<Rightarrow> bool" where
  "contains [] sub = (sub = [])"
| "contains (c # s) sub = (has_prefix (c # s) sub \<or> contains s sub)"

text \<open>\<open>strings.Cut s sep\<close> for a one-byte separator: \<open>Some (before, after)\<close> when found.\<close>

fun cut_at :: "char \<Rightarrow> string \<Rightarrow> (string \<times> string) option" where
  "cut_at sep [] = None"
| "cut_at sep (c # s) =
     (if c = sep then Some ([], s)
      else (case cut_at sep s of None \<Rightarrow> None | Some (b, a) \<Rightarrow> Some (c # b, a)))"

text \<open>\<open>strings.Split\<close> for a one-byte separator.\<close>

fun split_on :: "char \<Rightarrow> string \<Rightarrow> string list" where
  "split_on sep [] = [[]]"
| "split_on sep (c # s) =
     (if c = sep then [] # split_on sep s
      else (case split_on sep s of [] \<Rightarrow> [[c]] | p # ps \<Rightarrow> (c # p) # ps))"

fun join_with :: "string \<Rightarrow> string list \<Rightarrow> string" where
  "join_with sep [] = []"
| "join_with sep [p] = p"
| "join_with sep (p # q # ps) = p @ sep @ join_with sep (q # ps)"

section \<open>White space\<close>

text \<open>
  The code points of \<open>unicode.IsSpace\<close> in UTF-8: tab, newline, vertical tab, form feed, carriage
  return, space, U+0085, U+00A0, U+1680, U+2000 to U+200A, U+2028, U+2029, U+202F, U+205F and
  U+3000.
\<close>

definition ascii_space :: "char \<Rightarrow> bool" where
  "ascii_space c = (c \<in> {CHR 0x09, CHR 0x0A, CHR 0x0B, CHR 0x0C, CHR 0x0D, CHR '' ''})"

fun space_prefix :: "string \<Rightarrow> nat" where
  "space_prefix (a # b # c # s) =
     (if ascii_space a then 1
      else if a = CHR 0xC2 \<and> b \<in> {CHR 0x85, CHR 0xA0} then 2
      else if (a, b, c) = (CHR 0xE1, CHR 0x9A, CHR 0x80) then 3
      else if a = CHR 0xE2 \<and> b = CHR 0x80 \<and>
              c \<in> {CHR 0x80, CHR 0x81, CHR 0x82, CHR 0x83, CHR 0x84, CHR 0x85, CHR 0x86,
                   CHR 0x87, CHR 0x88, CHR 0x89, CHR 0x8A, CHR 0xA8, CHR 0xA9, CHR 0xAF} then 3
      else if (a, b, c) = (CHR 0xE2, CHR 0x81, CHR 0x9F) then 3
      else if (a, b, c) = (CHR 0xE3, CHR 0x80, CHR 0x80) then 3
      else 0)"
| "space_prefix [a, b] =
     (if ascii_space a then 1
      else if a = CHR 0xC2 \<and> b \<in> {CHR 0x85, CHR 0xA0} then 2 else 0)"
| "space_prefix [a] = (if ascii_space a then 1 else 0)"
| "space_prefix [] = 0"

lemma space_prefix_bound: "space_prefix s \<le> length s"
  by (induction s rule: space_prefix.induct) auto

lemma space_prefix_shortens [simp]: "0 < space_prefix s \<Longrightarrow> length s - space_prefix s < length s"
  by (cases s) auto

function trim_left_space :: "string \<Rightarrow> string" where
  "trim_left_space s =
     (if space_prefix s = 0 then s else trim_left_space (drop (space_prefix s) s))"
  by pat_completeness auto
termination
  by (relation "measure length") auto

declare trim_left_space.simps [simp del]

text \<open>
  The last rune is white space exactly when one of the last one, two or three bytes encode a
  white-space code point.
\<close>

definition space_suffix :: "string \<Rightarrow> nat" where
  "space_suffix s =
     (let n = length s in
      if 1 \<le> n \<and> space_prefix (drop (n - 1) s) = 1 then 1
      else if 2 \<le> n \<and> space_prefix (drop (n - 2) s) = 2 then 2
      else if 3 \<le> n \<and> space_prefix (drop (n - 3) s) = 3 then 3
      else 0)"

lemma space_suffix_bound: "space_suffix s \<le> length s"
  by (simp add: space_suffix_def Let_def)

lemma space_suffix_shortens [simp]: "0 < space_suffix s \<Longrightarrow> length s - space_suffix s < length s"
  by (cases s) (auto simp: space_suffix_def)

function trim_right_space :: "string \<Rightarrow> string" where
  "trim_right_space s =
     (if space_suffix s = 0 then s else trim_right_space (take (length s - space_suffix s) s))"
  by pat_completeness auto
termination
  by (relation "measure length") auto

declare trim_right_space.simps [simp del]

definition trim_space :: "string \<Rightarrow> string" where
  "trim_space s = trim_right_space (trim_left_space s)"

text \<open>\<open>strings.Fields\<close> and \<open>strings.FieldsSeq\<close>: the maximal runs of non-space text.\<close>

function fields_aux :: "string \<Rightarrow> string \<Rightarrow> string list" where
  "fields_aux [] acc = (if acc = [] then [] else [rev acc])"
| "fields_aux (c # s) acc =
     (let n = space_prefix (c # s) in
      if n = 0 then fields_aux s (c # acc)
      else if acc = [] then fields_aux (drop n (c # s)) []
      else rev acc # fields_aux (drop n (c # s)) [])"
  by pat_completeness auto
termination
  by (relation "measure (\<lambda>(s, acc). length s)") (auto simp: Let_def)

definition str_fields :: "string \<Rightarrow> string list" where
  "str_fields s = fields_aux s []"

text \<open>\<open>strings.Trim s cutset\<close> for an ASCII cutset.\<close>

definition trim_cut :: "string \<Rightarrow> string \<Rightarrow> string" where
  "trim_cut cutset s =
     rev (dropWhile (\<lambda>c. c \<in> set cutset) (rev (dropWhile (\<lambda>c. c \<in> set cutset) s)))"

section \<open>Letter case\<close>

definition is_upper :: "char \<Rightarrow> bool" where
  "is_upper c = (CHR ''A'' \<le> c \<and> c \<le> CHR ''Z'')"

definition is_lower :: "char \<Rightarrow> bool" where
  "is_lower c = (CHR ''a'' \<le> c \<and> c \<le> CHR ''z'')"

definition is_digit :: "char \<Rightarrow> bool" where
  "is_digit c = (CHR ''0'' \<le> c \<and> c \<le> CHR ''9'')"

definition to_lower :: "char \<Rightarrow> char" where
  "to_lower c = (if is_upper c then char_of (of_char c + 32 :: nat) else c)"

definition to_upper :: "char \<Rightarrow> char" where
  "to_upper c = (if is_lower c then char_of (of_char c - 32 :: nat) else c)"

text \<open>
  \<open>strings.EqualFold s t\<close> for an ASCII string \<open>t\<close>. Besides the two cases of a letter, U+017F
  (\<open>C5 BF\<close>) folds to \<open>s\<close> and U+212A (\<open>E2 84 AA\<close>) folds to \<open>k\<close>.
\<close>

fun equal_fold_ascii :: "string \<Rightarrow> string \<Rightarrow> bool" where
  "equal_fold_ascii [] t = (t = [])"
| "equal_fold_ascii (c # s) [] = False"
| "equal_fold_ascii (c # s) (d # t) =
     (if to_lower c = to_lower d then equal_fold_ascii s t
      else if c = CHR 0xC5 \<and> to_lower d = CHR ''s'' then
        (case s of e # s' \<Rightarrow> e = CHR 0xBF \<and> equal_fold_ascii s' t | [] \<Rightarrow> False)
      else if c = CHR 0xE2 \<and> to_lower d = CHR ''k'' then
        (case s of e # f # s' \<Rightarrow> e = CHR 0x84 \<and> f = CHR 0xAA \<and> equal_fold_ascii s' t | _ \<Rightarrow> False)
      else False)"

section \<open>HTTP tokens and header names\<close>

text \<open>\<open>tokenPattern\<close> of \<open>config.go\<close> lists the RFC 7230 token characters.\<close>

definition token_char :: "char \<Rightarrow> bool" where
  "token_char c = (is_upper c \<or> is_lower c \<or> is_digit c \<or>
     c \<in> {CHR ''!'', CHR ''#'', CHR ''$'', CHR ''%'', CHR ''&'', CHR 0x27, CHR ''*'', CHR ''+'',
          CHR ''-'', CHR ''.'', CHR ''^'', CHR ''_'', CHR 0x60, CHR ''|'', CHR ''~''})"

fun canonicalize :: "bool \<Rightarrow> string \<Rightarrow> string" where
  "canonicalize upper [] = []"
| "canonicalize upper (c # s) =
     (let d = (if upper then to_upper c else to_lower c) in d # canonicalize (d = CHR ''-'') s)"

text \<open>
  \<open>http.CanonicalHeaderKey\<close>: a name with a byte outside the token characters is returned as it
  is.
\<close>

definition canonical_header_key :: "string \<Rightarrow> string" where
  "canonical_header_key s = (if list_all token_char s then canonicalize True s else s)"

section \<open>Numbers\<close>

definition digit_val :: "char \<Rightarrow> nat" where
  "digit_val c = of_char c - 48"

fun decimal :: "nat \<Rightarrow> string \<Rightarrow> nat" where
  "decimal acc [] = acc"
| "decimal acc (c # s) = decimal (10 * acc + digit_val c) s"

text \<open>\<open>strconv.ParseUint s 10 16\<close>.\<close>

definition parse_uint16 :: "string \<Rightarrow> nat option" where
  "parse_uint16 s =
     (if s = [] \<or> \<not> list_all is_digit s \<or> decimal 0 s \<ge> 2 ^ 16 then None
      else Some (decimal 0 s))"

section \<open>Lemmas\<close>

lemma has_prefix_iff: "has_prefix s p \<longleftrightarrow> prefix p s"
proof
  assume "has_prefix s p"
  then have "s = p @ drop (length p) s"
    by (metis has_prefix_def append_take_drop_id)
  then show "prefix p s" by (metis prefixI)
qed (auto simp: has_prefix_def prefix_def)

lemma contains_any_iff: "contains_any s cs \<longleftrightarrow> (\<exists>c \<in> set s. c \<in> set cs)"
  by (simp add: contains_any_def list_ex_iff)

lemma cut_at_found: "sep \<notin> set b \<Longrightarrow> cut_at sep (b @ sep # a) = Some (b, a)"
  by (induction b) auto

lemma cut_at_SomeD: "cut_at sep s = Some (b, a) \<Longrightarrow> s = b @ sep # a \<and> sep \<notin> set b"
  by (induction s arbitrary: b) (auto split: if_splits option.splits)

lemma cut_at_Some: "cut_at sep s = Some (b, a) \<longleftrightarrow> s = b @ sep # a \<and> sep \<notin> set b"
  by (blast dest: cut_at_SomeD intro: cut_at_found)

lemma cut_at_None: "cut_at sep s = None \<longleftrightarrow> sep \<notin> set s"
  by (induction s) (auto split: option.splits)

lemma split_on_nonempty [simp]: "split_on sep s \<noteq> []"
  by (induction s) (auto split: list.splits)

lemma join_split_on: "join_with [sep] (split_on sep s) = s"
proof (induction s)
  case (Cons c s)
  show ?case
  proof (cases "split_on sep s")
    case (Cons p ps)
    with Cons.IH show ?thesis by (cases ps) auto
  qed simp
qed simp

lemma trim_left_space_id: "trim_left_space s = s \<longleftrightarrow> space_prefix s = 0"
proof -
  have shorter: "length (trim_left_space s) \<le> length s" for s
  proof (induction s rule: trim_left_space.induct)
    case (1 s)
    then show ?case by (subst trim_left_space.simps) (auto intro: order_trans)
  qed
  show ?thesis
  proof
    assume fixed: "trim_left_space s = s"
    show "space_prefix s = 0"
    proof (rule ccontr)
      assume "space_prefix s \<noteq> 0"
      moreover from this have "length (drop (space_prefix s) s) < length s"
        by simp
      ultimately show False
        using fixed shorter [of "drop (space_prefix s) s"]
        by (metis trim_left_space.simps not_le)
    qed
  qed (simp add: trim_left_space.simps)
qed

lemma ascii_space_imp_prefix: "ascii_space c \<Longrightarrow> space_prefix (c # s) = 1"
  by (cases s rule: list.exhaust, simp, cases "tl s" rule: list.exhaust)
    (auto simp: neq_Nil_conv)

lemma trim_left_space_suffix: "suffix (trim_left_space s) s"
proof (induction s rule: trim_left_space.induct)
  case (1 s)
  then show ?case
    by (subst trim_left_space.simps)
      (auto intro: suffix_order.trans suffix_drop)
qed

lemma trim_right_space_prefix: "prefix (trim_right_space s) s"
proof (induction s rule: trim_right_space.induct)
  case (1 s)
  then show ?case
    by (subst trim_right_space.simps)
      (auto intro: prefix_order.trans take_is_prefix)
qed

lemma trim_space_id_left: "trim_space s = s \<Longrightarrow> space_prefix s = 0"
proof -
  assume fixed: "trim_space s = s"
  have "length s \<le> length (trim_left_space s)"
    using fixed trim_right_space_prefix [of "trim_left_space s"]
    by (metis trim_space_def prefix_length_le)
  with trim_left_space_suffix [of s] have "trim_left_space s = s"
    by (metis suffix_length_le suffix_order.antisym suffix_length_less nat_less_le not_le
        strict_suffix_def)
  then show ?thesis by (simp add: trim_left_space_id)
qed

end
