(* ===== verification/Connection.thy ===== *)
theory Connection
  imports Go_Text
begin

text \<open>
  Model of \<open>connection.go\<close>. The connection wraps a native connection of type \<open>'n\<close>; the native
  operations it calls are the fields of a record, an argument of every definition here, which
  the model of the native library instantiates. A native call takes the state of the native connection and
  returns the new one, and, where the call takes a context, the context as it is when the call
  returns. \<open>*Connection\<close> is an option: \<open>None\<close> is the nil pointer.
\<close>

section \<open>The native operations\<close>

record 'n native_ops =
  op_Read :: "ctx \<Rightarrow> 'n \<Rightarrow> (int \<times> bytes) res \<times> 'n \<times> ctx"
  op_Write :: "ctx \<Rightarrow> int \<Rightarrow> bytes \<Rightarrow> 'n \<Rightarrow> go_error option \<times> 'n \<times> ctx"
  op_Ping :: "ctx \<Rightarrow> 'n \<Rightarrow> go_error option \<times> 'n \<times> ctx"
  op_Close :: "int \<Rightarrow> string \<Rightarrow> 'n \<Rightarrow> go_error option \<times> 'n"
  op_CloseNow :: "'n \<Rightarrow> go_error option \<times> 'n"
  op_Subprotocol :: "'n \<Rightarrow> string"
  op_SetReadLimit :: "int \<Rightarrow> 'n \<Rightarrow> 'n"

section \<open>Message types and status codes\<close>

definition MessageText :: int where "MessageText = 1"
definition MessageBinary :: int where "MessageBinary = 2"

definition StatusNormalClosure :: int where "StatusNormalClosure = 1000"
definition StatusGoingAway :: int where "StatusGoingAway = 1001"
definition StatusPolicyViolation :: int where "StatusPolicyViolation = 1008"
definition StatusInternalError :: int where "StatusInternalError = 1011"

lemmas status_defs = StatusNormalClosure_def StatusGoingAway_def StatusPolicyViolation_def
  StatusInternalError_def

definition validStatus :: "int \<Rightarrow> bool" where
  "validStatus status =
     (status \<in> {StatusNormalClosure, StatusGoingAway, StatusPolicyViolation, StatusInternalError})"

text \<open>\<open>nativews.CloseStatus\<close>: the code of the close error in the tree, or \<open>-1\<close>.\<close>

definition CloseStatus :: "go_error \<Rightarrow> int" where
  "CloseStatus err = (case as_close_error err of Some (code, reason) \<Rightarrow> code | None \<Rightarrow> -1)"

definition sanitizeConnectionError :: "string \<Rightarrow> ctx \<Rightarrow> go_error \<Rightarrow> go_error" where
  "sanitizeConnectionError operation c err =
     (case ctx_Cause c of
        Some cause \<Rightarrow> Errorf ''%s: %w'' [AStr operation] [cause]
      | None \<Rightarrow>
          if CloseStatus err \<noteq> -1 then PeerCloseError (CloseStatus err)
          else Errorf ''%s: %w'' [AStr operation] [err])"

section \<open>The connection\<close>

text \<open>
  \<open>closeOnce\<close> says whether the once has been taken, \<open>closeDone\<close> whether the channel is closed.
\<close>

record 'n connection =
  native :: "'n option"
  maxMessage :: int
  closeOnce :: bool
  closeDone :: bool
  closeErr :: "go_error option"

definition newConnection :: "'n native_ops \<Rightarrow> 'n \<Rightarrow> int \<Rightarrow> 'n connection" where
  "newConnection ops n maximum =
     \<lparr>native = Some (op_SetReadLimit ops maximum n),
      maxMessage = maximum,
      closeOnce = False,
      closeDone = False,
      closeErr = None\<rparr>"

text \<open>The guard \<open>connection == nil || connection.native == nil\<close> and the two pointers it checks.\<close>

definition valid_conn :: "'n connection option \<Rightarrow> ('n connection \<times> 'n) option" where
  "valid_conn h =
     (case h of None \<Rightarrow> None | Some conn \<Rightarrow> map_option (Pair conn) (native conn))"

definition Subprotocol :: "'n native_ops \<Rightarrow> 'n connection option \<Rightarrow> string" where
  "Subprotocol ops h =
     (case valid_conn h of None \<Rightarrow> [] | Some (conn, n) \<Rightarrow> op_Subprotocol ops n)"

definition Read ::
  "'n native_ops \<Rightarrow> ctx option \<Rightarrow> 'n connection option \<Rightarrow> (int \<times> bytes) res \<times> 'n connection option" where
  "Read ops ctx h =
     (case ctx of
        None \<Rightarrow> (Inl (errors_new ''read WebSocket message: context is nil''), h)
      | Some c \<Rightarrow>
          (case valid_conn h of
             None \<Rightarrow> (Inl (errors_new ''read WebSocket message: connection is invalid''), h)
           | Some (conn, n) \<Rightarrow>
               (case op_Read ops c n of
                  (Inl err, n', c') \<Rightarrow>
                    (Inl (sanitizeConnectionError ''read WebSocket message'' c' err), Some (conn\<lparr>native := Some n'\<rparr>))
                | (Inr (messageType, payload), n', c') \<Rightarrow>
                    (Inr (messageType, payload), Some (conn\<lparr>native := Some n'\<rparr>)))))"

definition Write ::
  "'n native_ops \<Rightarrow> ctx option \<Rightarrow> int \<Rightarrow> bytes \<Rightarrow> 'n connection option \<Rightarrow>
   go_error option \<times> 'n connection option" where
  "Write ops ctx messageType payload h =
     (case ctx of
        None \<Rightarrow> (Some (errors_new ''write WebSocket message: context is nil''), h)
      | Some c \<Rightarrow>
          (case valid_conn h of
             None \<Rightarrow> (Some (errors_new ''write WebSocket message: connection is invalid''), h)
           | Some (conn, n) \<Rightarrow>
               if messageType \<noteq> MessageText \<and> messageType \<noteq> MessageBinary then
                 (Some (errors_new ''write WebSocket message: type must be text or binary''), h)
               else if int (length payload) > maxMessage conn then
                 (Some (Errorf ''write WebSocket message: payload exceeds %d bytes'' [AInt (maxMessage conn)] []), h)
               else
                 (case op_Write ops c messageType payload n of
                    (Some err, n', c') \<Rightarrow>
                      (Some (sanitizeConnectionError ''write WebSocket message'' c' err), Some (conn\<lparr>native := Some n'\<rparr>))
                  | (None, n', c') \<Rightarrow> (None, Some (conn\<lparr>native := Some n'\<rparr>)))))"

definition Ping ::
  "'n native_ops \<Rightarrow> ctx option \<Rightarrow> 'n connection option \<Rightarrow> go_error option \<times> 'n connection option" where
  "Ping ops ctx h =
     (case ctx of
        None \<Rightarrow> (Some (errors_new ''ping WebSocket: context is nil''), h)
      | Some c \<Rightarrow>
          (case valid_conn h of
             None \<Rightarrow> (Some (errors_new ''ping WebSocket: connection is invalid''), h)
           | Some (conn, n) \<Rightarrow>
               (case op_Ping ops c n of
                  (Some err, n', c') \<Rightarrow>
                    (Some (sanitizeConnectionError ''ping WebSocket'' c' err), Some (conn\<lparr>native := Some n'\<rparr>))
                | (None, n', c') \<Rightarrow> (None, Some (conn\<lparr>native := Some n'\<rparr>)))))"

definition closeNow :: "'n native_ops \<Rightarrow> 'n connection option \<Rightarrow> go_error option \<times> 'n connection option" where
  "closeNow ops h =
     (case valid_conn h of
        None \<Rightarrow> (None, h)
      | Some (conn, n) \<Rightarrow>
          (case op_CloseNow ops n of
             (Some err, n') \<Rightarrow> (Some (wrap ''force close WebSocket: %w'' err), Some (conn\<lparr>native := Some n'\<rparr>))
           | (None, n') \<Rightarrow> (None, Some (conn\<lparr>native := Some n'\<rparr>))))"

section \<open>Close\<close>

text \<open>The early returns of \<open>Close\<close> before it looks at the context.\<close>

definition close_rejects :: "ctx option \<Rightarrow> 'n connection option \<Rightarrow> int \<Rightarrow> string \<Rightarrow> go_error option" where
  "close_rejects ctx h status reason =
     (if ctx = None then Some (errors_new ''close WebSocket: context is nil'')
      else if valid_conn h = None then Some (errors_new ''close WebSocket: connection is invalid'')
      else if \<not> validStatus status then Some (errors_new ''close WebSocket: unsupported status code'')
      else if length reason > 123 \<or> contains_any reason [CHR 0x00, CHR 0x0D, CHR 0x0A] then
        Some (errors_new ''close WebSocket: reason must contain at most 123 safe bytes'')
      else None)"

text \<open>What the goroutine stores in \<open>closeErr\<close> when \<open>native.Close\<close> has returned.\<close>

definition handshake_error :: "go_error option \<Rightarrow> go_error option \<Rightarrow> go_error option" where
  "handshake_error err old =
     (case err of
        Some e \<Rightarrow>
          if \<not> errors_is e NetErrClosed
          then Some (sanitizeConnectionError ''close WebSocket handshake'' background e)
          else old
      | None \<Rightarrow> old)"

text \<open>The goroutine that the once starts, from its start to the closing of \<open>closeDone\<close>.\<close>

definition close_goroutine :: "'n native_ops \<Rightarrow> int \<Rightarrow> string \<Rightarrow> 'n connection \<Rightarrow> 'n connection" where
  "close_goroutine ops status reason conn =
     (case native conn of
        None \<Rightarrow> conn
      | Some n \<Rightarrow>
          let (err, n') = op_Close ops status reason n in
          conn\<lparr>native := Some n', closeErr := handshake_error err (closeErr conn), closeDone := True\<rparr>)"

text \<open>The return value of the \<open>ctx.Done\<close> branch, from the error of \<open>native.CloseNow\<close>.\<close>

definition force_result :: "go_error \<Rightarrow> go_error option \<Rightarrow> go_error option" where
  "force_result cause forceErr =
     errors_join [Some (wrap ''close WebSocket: %w'' cause),
       map_option (wrap ''close WebSocket: force close: %w'') forceErr]"

definition native_CloseNow :: "'n native_ops \<Rightarrow> 'n connection \<Rightarrow> go_error option \<times> 'n connection" where
  "native_CloseNow ops conn =
     (case native conn of
        None \<Rightarrow> (None, conn)
      | Some n \<Rightarrow> let (err, n') = op_CloseNow ops n in (err, conn\<lparr>native := Some n'\<rparr>))"

text \<open>
  Which way the \<open>select\<close> goes when both channels are ready, and, when it takes \<open>ctx.Done\<close>, whether
  \<open>native.CloseNow\<close> overtakes the \<open>native.Close\<close> of the goroutine that this call started. The
  native library orders the two by an atomic swap, so either order covers every interleaving.
\<close>

datatype race = HandshakeFirst | ContextFirst bool

text \<open>
  \<open>Close\<close> called while no other call to \<open>Close\<close> is under way. Both branches of the \<open>select\<close> end
  after \<open>closeDone\<close> is closed, so a taken once means a closed channel here. The branch
  \<open>ctx.Done\<close> exists only if the context has ended by the time of the \<open>select\<close>.
\<close>

definition Close ::
  "'n native_ops \<Rightarrow> race \<Rightarrow> ctx option \<Rightarrow> int \<Rightarrow> string \<Rightarrow> 'n connection option \<Rightarrow>
   go_error option \<times> 'n connection option" where
  "Close ops race ctx status reason h =
     (case close_rejects ctx h status reason of
        Some err \<Rightarrow> (Some err, h)
      | None \<Rightarrow>
          let c = the ctx; conn = the h in
          (case ctx_Cause c of
             Some cause \<Rightarrow>
               let (forceErr, h') = closeNow ops h in
               (errors_join [Some (wrap ''close WebSocket: %w'' cause), forceErr], h')
           | None \<Rightarrow>
               let started = conn\<lparr>closeOnce := True\<rparr>;
                   handshake = (\<lambda>cn. if closeOnce conn then cn else close_goroutine ops status reason cn) in
               (case (race, ctx_Cause (ctx_tick c)) of
                  (ContextFirst overtakes, Some cause) \<Rightarrow>
                    let (forceErr, after) =
                          (if overtakes then
                             let (e, cn) = native_CloseNow ops started in (e, handshake cn)
                           else native_CloseNow ops (handshake started))
                    in (force_result cause forceErr, Some after)
                | _ \<Rightarrow> let after = handshake started in (closeErr after, Some after))))"

end
