(* ===== verification/Connection_Laws.thy ===== *)
theory Connection_Laws
  imports Connection
begin

text \<open>
  What a connection guarantees. The first part holds for any native library: guards, the redaction of
  close reasons (used in \<open>Close_Status\<close>), the once. The second part states the contract the connection relies on as the
  locale \<open>native_connection\<close> and proves its invariant from it; \<open>bounded_connection\<close> adds the message bound.
\<close>

section \<open>Redaction\<close>

lemma redact_reason_free: "reason_free e \<Longrightarrow> redact e = e"
  by (induction e rule: redact.induct) (auto simp: list_all_iff intro: map_idI)

lemma err_find_close_redact:
  "p = close_error_of \<Longrightarrow> err_find p (redact e) = map_option (\<lambda>(c, r). (c, [])) (err_find p e)"
  "p = close_error_of \<Longrightarrow> err_find_list p (map redact es) = map_option (\<lambda>(c, r). (c, [])) (err_find_list p es)"
proof (induction p e and p es rule: err_find_err_find_list.induct)
  case (1 p e)
  then show ?case by (cases e) (simp_all add: err_simps)
qed (auto split: option.split)

lemma as_close_error_redact:
  "as_close_error (redact e) = map_option (\<lambda>(c, r). (c, [])) (as_close_error e)"
  by (simp add: as_close_error_def err_find_close_redact)

lemma CloseStatus_redact [simp]: "CloseStatus (redact e) = CloseStatus e"
  by (auto simp: CloseStatus_def as_close_error_redact split: option.split)

text \<open>Errors of the native library: a status in them came off the wire or was given to \<open>Close\<close>.\<close>

definition wire_status :: "go_error \<Rightarrow> bool" where
  "wire_status e = (\<forall>c r. as_close_error e = Some (c, r) \<longrightarrow> 0 \<le> c)"

lemma sanitize_redact:
  assumes "wire_status e"
  shows "sanitizeConnectionError op c (redact e) = sanitizeConnectionError op c e"
proof (cases "as_close_error e")
  case None
  then show ?thesis by (simp add: as_close_error_None_iff redact_reason_free)
next
  case (Some cr)
  then have "CloseStatus e \<noteq> -1"
    using assms by (auto simp: CloseStatus_def wire_status_def split: prod.splits)
  then show ?thesis by (simp add: sanitizeConnectionError_def split: option.split)
qed

text \<open>The same native library with every close reason blanked from the errors it returns.\<close>

definition redact_res :: "'a res \<Rightarrow> 'a res" where
  "redact_res r = (case r of Inl e \<Rightarrow> Inl (redact e) | Inr x \<Rightarrow> Inr x)"

definition redact_ops :: "'n native_ops \<Rightarrow> 'n native_ops" where
  "redact_ops ops = ops
     \<lparr>op_Read := (\<lambda>c n. let (r, s) = op_Read ops c n in (redact_res r, s)),
      op_Write := (\<lambda>c t p n. let (e, s) = op_Write ops c t p n in (map_option redact e, s)),
      op_Ping := (\<lambda>c n. let (e, s) = op_Ping ops c n in (map_option redact e, s))\<rparr>"

section \<open>The once\<close>

lemma close_goroutine_simps [simp]:
  "maxMessage (close_goroutine ops st r conn) = maxMessage conn"
  "closeOnce (close_goroutine ops st r conn) = closeOnce conn"
  "native (close_goroutine ops st r conn) = None \<longleftrightarrow> native conn = None"
  by (auto simp: close_goroutine_def split: option.split prod.split)

lemma native_CloseNow_simps [simp]:
  "native_CloseNow ops conn = (e, conn') \<Longrightarrow> maxMessage conn' = maxMessage conn"
  "native_CloseNow ops conn = (e, conn') \<Longrightarrow> closeOnce conn' = closeOnce conn"
  "native_CloseNow ops conn = (e, conn') \<Longrightarrow> closeDone conn' = closeDone conn"
  "native_CloseNow ops conn = (e, conn') \<Longrightarrow> closeErr conn' = closeErr conn"
  by (auto simp: native_CloseNow_def split: option.splits prod.splits)

lemma force_result_Some [simp]: "force_result cause e \<noteq> None"
  by (cases e) (simp_all add: force_result_def errors_join_def List.map_filter_def Let_def)

text \<open>A second \<open>Close\<close> on a live context returns the stored error and does not touch the native connection.\<close>

lemma Close_again:
  assumes "close_rejects (Some c) (Some conn) st r = None" and "ctx_Cause c = None" and "closeOnce conn"
    and "ctx_Cause (ctx_tick c) = None \<or> race = HandshakeFirst"
  shows "Close ops race (Some c) st r (Some conn) = (closeErr conn, Some conn)"
  using assms by (auto simp: Close_def Let_def split: race.split option.split)

lemma closeNow_maxMessage: "closeNow ops (Some conn) = (e, Some conn') \<Longrightarrow> maxMessage conn' = maxMessage conn"
  by (auto simp: closeNow_def valid_conn_def split: option.splits prod.splits)

lemma Close_maxMessage: "Close ops race ctx st r (Some conn) = (e, Some conn') \<Longrightarrow> maxMessage conn' = maxMessage conn"
  by (auto simp: Close_def Let_def split: option.splits prod.splits race.splits if_splits dest: closeNow_maxMessage)

section \<open>The native contract\<close>

text \<open>
  The invariant of a connection between calls: the native limit is the connection's, the once is
  taken exactly when the channel is closed, the native connection is then closing, and an error is
  stored only then.
\<close>

definition conn_inv :: "('n \<Rightarrow> bool) \<Rightarrow> ('n \<Rightarrow> int) \<Rightarrow> 'n connection \<Rightarrow> bool" where
  "conn_inv closing limit conn =
     (\<exists>n. native conn = Some n \<and> 0 \<le> maxMessage conn \<and> limit n = maxMessage conn \<and>
        closeOnce conn = closeDone conn \<and> (closeOnce conn \<longrightarrow> closing n) \<and>
        (closeErr conn \<noteq> None \<longrightarrow> closeDone conn))"

text \<open>
  What the connection relies on. \<open>closing\<close> is the native flag that the first of \<open>Close\<close>,
  \<open>CloseNow\<close> and a received close frame sets; \<open>limit\<close> is the read limit.
\<close>

locale native_connection =
  fixes ops :: "'n native_ops"
    and closing :: "'n \<Rightarrow> bool"
    and limit :: "'n \<Rightarrow> int"
  assumes read_type: "op_Read ops c n = (Inr (t, p), n', c') \<Longrightarrow> t = MessageText \<or> t = MessageBinary"
    and read_keeps: "op_Read ops c n = (r, n', c') \<Longrightarrow>
      limit n' = limit n \<and> op_Subprotocol ops n' = op_Subprotocol ops n \<and> (closing n \<longrightarrow> closing n') \<and> ctx_le c c'"
    and write_keeps: "op_Write ops c t p n = (e, n', c') \<Longrightarrow>
      limit n' = limit n \<and> op_Subprotocol ops n' = op_Subprotocol ops n \<and> (closing n \<longrightarrow> closing n') \<and> ctx_le c c'"
    and ping_keeps: "op_Ping ops c n = (e, n', c') \<Longrightarrow>
      limit n' = limit n \<and> op_Subprotocol ops n' = op_Subprotocol ops n \<and> (closing n \<longrightarrow> closing n') \<and> ctx_le c c'"
    and close_keeps: "op_Close ops st reason n = (e, n') \<Longrightarrow>
      limit n' = limit n \<and> op_Subprotocol ops n' = op_Subprotocol ops n \<and> closing n'"
    and close_now_keeps: "op_CloseNow ops n = (e, n') \<Longrightarrow>
      limit n' = limit n \<and> op_Subprotocol ops n' = op_Subprotocol ops n \<and> closing n'"
    and close_now_again: "closing n \<Longrightarrow> op_CloseNow ops n = (e, n') \<Longrightarrow> e \<noteq> None"
    and set_limit: "0 \<le> m \<Longrightarrow> limit (op_SetReadLimit ops m n) = m"
    and set_limit_keeps: "op_Subprotocol ops (op_SetReadLimit ops m n) = op_Subprotocol ops n"
begin

lemma conn_inv_new: "0 \<le> m \<Longrightarrow> conn_inv closing limit (newConnection ops n m)"
  by (simp add: conn_inv_def newConnection_def set_limit)

lemma Read_inv: "conn_inv closing limit conn \<Longrightarrow> Read ops ctx (Some conn) = (r, h) \<Longrightarrow> \<exists>conn'. h = Some conn' \<and> conn_inv closing limit conn'"
  by (auto simp: conn_inv_def Read_def valid_conn_def split: option.splits sum.splits prod.splits dest!: read_keeps)

lemma Write_inv: "conn_inv closing limit conn \<Longrightarrow> Write ops ctx t p (Some conn) = (e, h) \<Longrightarrow> \<exists>conn'. h = Some conn' \<and> conn_inv closing limit conn'"
  by (auto simp: conn_inv_def Write_def valid_conn_def split: option.splits if_splits prod.splits dest!: write_keeps)

lemma Ping_inv: "conn_inv closing limit conn \<Longrightarrow> Ping ops ctx (Some conn) = (e, h) \<Longrightarrow> \<exists>conn'. h = Some conn' \<and> conn_inv closing limit conn'"
  by (auto simp: conn_inv_def Ping_def valid_conn_def split: option.splits prod.splits dest!: ping_keeps)

lemma closeNow_inv: "conn_inv closing limit conn \<Longrightarrow> closeNow ops (Some conn) = (e, h) \<Longrightarrow>
  \<exists>conn' n. h = Some conn' \<and> conn_inv closing limit conn' \<and> native conn' = Some n \<and> closing n"
  by (auto simp: conn_inv_def closeNow_def valid_conn_def split: option.splits prod.splits dest!: close_now_keeps)

lemma Read_type:
  "conn_inv closing limit conn \<Longrightarrow> Read ops ctx (Some conn) = (Inr (t, p), h) \<Longrightarrow> t = MessageText \<or> t = MessageBinary"
  by (auto simp: conn_inv_def Read_def valid_conn_def split: option.splits sum.splits prod.splits dest: read_type)

lemma close_goroutine_inv:
  assumes "native conn = Some n" "0 \<le> maxMessage conn" "limit n = maxMessage conn" "closeOnce conn"
  shows "conn_inv closing limit (close_goroutine ops st reason conn) \<and>
    (\<exists>n'. native (close_goroutine ops st reason conn) = Some n' \<and> closing n')"
  using assms close_keeps
  by (cases "op_Close ops st reason n") (auto simp: conn_inv_def close_goroutine_def)

lemma native_CloseNow_keeps:
  assumes "native conn = Some n" "native_CloseNow ops conn = (e, conn')"
  shows "\<exists>n'. native conn' = Some n' \<and> limit n' = limit n \<and> closing n' \<and> maxMessage conn' = maxMessage conn \<and>
    closeOnce conn' = closeOnce conn \<and> closeDone conn' = closeDone conn \<and> closeErr conn' = closeErr conn"
  using assms close_now_keeps
  by (auto simp: native_CloseNow_def split: prod.splits)

lemma native_CloseNow_inv:
  assumes "conn_inv closing limit conn" "native_CloseNow ops conn = (e, conn')"
  shows "conn_inv closing limit conn' \<and> (\<exists>n'. native conn' = Some n' \<and> closing n')"
  using assms native_CloseNow_keeps [OF _ assms(2)] by (auto simp: conn_inv_def)

text \<open>
  Whatever way the \<open>select\<close> goes, a \<open>Close\<close> that passes its guards leaves the invariant true and the
  native connection closing.
\<close>

lemma Close_inv:
  assumes inv: "conn_inv closing limit conn"
    and ok: "close_rejects (Some c) (Some conn) st reason = None"
    and run: "Close ops race (Some c) st reason (Some conn) = (e, h)"
  shows "\<exists>conn' n'. h = Some conn' \<and> conn_inv closing limit conn' \<and> native conn' = Some n' \<and> closing n'"
proof (cases "ctx_Cause c")
  case (Some cause)
  then have "closeNow ops (Some conn) = (fst (closeNow ops (Some conn)), h)"
    using run ok by (auto simp: Close_def Let_def split: prod.splits)
  from closeNow_inv [OF inv this] show ?thesis by blast
next
  case None
  obtain n where n: "native conn = Some n" "0 \<le> maxMessage conn" "limit n = maxMessage conn"
    using inv by (auto simp: conn_inv_def)
  let ?go = "\<lambda>cn. if closeOnce conn then cn else close_goroutine ops st reason cn"
  let ?started = "conn\<lparr>closeOnce := True\<rparr>"
  have good: "conn_inv closing limit (?go cn) \<and> (\<exists>n'. native (?go cn) = Some n' \<and> closing n')"
    if "native cn = Some m" "limit m = maxMessage conn" "maxMessage cn = maxMessage conn" "closeOnce cn"
      "closeDone cn = closeDone conn" "closeErr cn = closeErr conn" "closing n \<longrightarrow> closing m" for cn m
    using that n inv close_goroutine_inv [of cn m st reason] by (auto simp: conn_inv_def)
  have now: "conn_inv closing limit cn' \<and> (\<exists>n'. native cn' = Some n' \<and> closing n')"
    if "native_CloseNow ops (?go ?started) = (fe, cn')" for fe cn'
    using native_CloseNow_inv [OF _ that] good [of ?started n] n by simp
  have overtaken: "conn_inv closing limit (?go cn) \<and> (\<exists>n'. native (?go cn) = Some n' \<and> closing n')"
    if overtakes: "native_CloseNow ops ?started = (fe, cn)" for fe cn
  proof -
    obtain m where "native cn = Some m" "limit m = limit n" "closing m" "maxMessage cn = maxMessage conn"
        "closeOnce cn" "closeDone cn = closeDone conn" "closeErr cn = closeErr conn"
      using native_CloseNow_keeps [OF _ overtakes] n(1) by auto
    then show ?thesis using n(3) by (intro good [of cn m]) simp_all
  qed
  show ?thesis
    using run ok None good [of ?started n] n now overtaken
    by (fastforce simp: Close_def Let_def split: race.splits option.splits prod.splits if_splits)
qed

text \<open>A forced close after that always reports an error: the native flag is already set.\<close>

lemma closeNow_after_Close:
  assumes "conn_inv closing limit conn" "close_rejects (Some c) (Some conn) st reason = None"
    and "Close ops race (Some c) st reason (Some conn) = (e, h)"
  shows "fst (closeNow ops h) \<noteq> None"
proof -
  obtain conn' n' where "h = Some conn'" "native conn' = Some n'" "closing n'"
    using Close_inv [OF assms] by blast
  then show ?thesis
    using close_now_again [of n'] by (auto simp: closeNow_def valid_conn_def split: prod.split option.split)
qed

end

section \<open>What every operation keeps\<close>

definition on_native :: "('n \<Rightarrow> bool) \<Rightarrow> 'n connection \<Rightarrow> bool" where
  "on_native Q conn = (case native conn of None \<Rightarrow> False | Some n \<Rightarrow> Q n)"

lemma on_native_fields [simp]:
  "on_native Q (conn\<lparr>closeOnce := b\<rparr>) = on_native Q conn"
  "on_native Q (conn\<lparr>native := Some n\<rparr>) = Q n"
  by (simp_all add: on_native_def)

text \<open>
  A property of native connections that no operation of the native library ends, under the contexts that are \<open>allowed\<close>.
\<close>

locale native_property =
  fixes ops :: "'n native_ops"
    and allowed :: "ctx \<Rightarrow> bool"
    and holds :: "'n \<Rightarrow> bool"
  assumes read_holds: "op_Read ops c n = (r, n', c') \<Longrightarrow> allowed c \<Longrightarrow> holds n \<Longrightarrow> holds n'"
    and write_holds: "op_Write ops c t p n = (e, n', c') \<Longrightarrow> allowed c \<Longrightarrow> holds n \<Longrightarrow> holds n'"
    and ping_holds: "op_Ping ops c n = (e, n', c') \<Longrightarrow> allowed c \<Longrightarrow> holds n \<Longrightarrow> holds n'"
    and close_holds: "holds n \<Longrightarrow> holds (snd (op_Close ops st reason n))"
    and close_now_holds: "holds n \<Longrightarrow> holds (snd (op_CloseNow ops n))"
    and set_limit_holds: "holds (op_SetReadLimit ops m n) = holds n"
begin

lemma new_holds: "holds n \<Longrightarrow> on_native holds (newConnection ops n m)"
  by (simp add: on_native_def newConnection_def set_limit_holds)

lemma Read_on_native:
  "Read ops ctx (Some conn) = (r, Some conn') \<Longrightarrow> pred_option allowed ctx \<Longrightarrow> on_native holds conn \<Longrightarrow> on_native holds conn'"
  by (auto simp: Read_def valid_conn_def on_native_def split: option.splits sum.splits prod.splits dest: read_holds)

lemma Write_on_native:
  "Write ops ctx t p (Some conn) = (e, Some conn') \<Longrightarrow> pred_option allowed ctx \<Longrightarrow> on_native holds conn \<Longrightarrow> on_native holds conn'"
  by (auto simp: Write_def valid_conn_def on_native_def split: option.splits if_splits prod.splits dest: write_holds)

lemma Ping_on_native:
  "Ping ops ctx (Some conn) = (e, Some conn') \<Longrightarrow> pred_option allowed ctx \<Longrightarrow> on_native holds conn \<Longrightarrow> on_native holds conn'"
  by (auto simp: Ping_def valid_conn_def on_native_def split: option.splits prod.splits dest: ping_holds)

lemma close_steps_on_native:
  assumes "on_native holds conn"
  shows "on_native holds (close_goroutine ops st reason conn)"
    and "on_native holds (snd (native_CloseNow ops conn))"
proof -
  obtain n where n: "native conn = Some n" "holds n"
    using assms by (auto simp: on_native_def split: option.splits)
  show "on_native holds (close_goroutine ops st reason conn)"
    using n close_holds [OF n(2), of st reason]
    by (simp add: close_goroutine_def case_prod_beta on_native_def Let_def)
  show "on_native holds (snd (native_CloseNow ops conn))"
    using n close_now_holds [OF n(2)] by (simp add: native_CloseNow_def case_prod_beta on_native_def)
qed

lemma closeNow_on_native:
  assumes "closeNow ops (Some conn) = (e, Some conn')" and "on_native holds conn"
  shows "on_native holds conn'"
proof -
  obtain n where n: "native conn = Some n" "holds n"
    using assms(2) by (auto simp: on_native_def split: option.splits)
  obtain err n' where now: "op_CloseNow ops n = (err, n')" by (cases "op_CloseNow ops n")
  then have "holds n'" using close_now_holds [OF n(2)] by simp
  then show ?thesis
    using assms(1) n now by (cases err) (auto simp: closeNow_def valid_conn_def)
qed

lemma Close_on_native:
  assumes "Close ops race ctx st reason (Some conn) = (e, Some conn')" and "on_native holds conn"
  shows "on_native holds conn'"
proof (cases "close_rejects ctx (Some conn) st reason")
  case (Some err)
  then show ?thesis using assms by (simp add: Close_def)
next
  case None
  show ?thesis
  proof (cases "ctx_Cause (the ctx)")
    case (Some cause)
    then have "closeNow ops (Some conn) = (fst (closeNow ops (Some conn)), Some conn')"
      using assms(1) None by (auto simp: Close_def Let_def split: prod.splits)
    then show ?thesis by (rule closeNow_on_native [OF _ assms(2)])
  next
    case live: None
    let ?go = "\<lambda>cn. if closeOnce conn then cn else close_goroutine ops st reason cn"
    have "on_native holds (?go (conn\<lparr>closeOnce := True\<rparr>))"
      "on_native holds (snd (native_CloseNow ops (?go (conn\<lparr>closeOnce := True\<rparr>))))"
      "on_native holds (?go (snd (native_CloseNow ops (conn\<lparr>closeOnce := True\<rparr>))))"
      using assms(2) by (simp_all add: close_steps_on_native)
    then show ?thesis
      using assms(1) None live
      by (auto simp: Close_def Let_def case_prod_beta split: race.splits option.splits if_splits)
  qed
qed

end

text \<open>
  A native library whose messages stay within its limit, but for an \<open>excess\<close> that no operation changes.
\<close>

locale bounded_connection = native_connection +
  fixes excess :: "'a \<Rightarrow> int"
  assumes read_bounded: "op_Read ops c n = (Inr (t, p), n', c') \<Longrightarrow> 0 \<le> limit n \<Longrightarrow> int (length p) \<le> limit n + excess n"
    and excess_kept: "native_property ops (\<lambda>c. True) (\<lambda>n. excess n = x)"

sublocale bounded_connection \<subseteq> same_excess: native_property ops "\<lambda>c. True" "\<lambda>n. excess n = x" for x
  by (rule excess_kept)

context bounded_connection
begin

lemma Read_bounded:
  "conn_inv closing limit conn \<Longrightarrow> on_native (\<lambda>n. excess n = x) conn \<Longrightarrow> Read ops ctx (Some conn) = (Inr (t, p), h) \<Longrightarrow>
   int (length p) \<le> maxMessage conn + x"
  by (auto simp: conn_inv_def on_native_def Read_def valid_conn_def split: option.splits sum.splits prod.splits
      dest: read_bounded)

end

end
