(* ===== verification/Close_Concurrency.thy ===== *)
theory Close_Concurrency
  imports Connection_Laws
begin

text \<open>
  \<open>Connection.Close\<close> under concurrency: any number of callers, the goroutine that the once starts,
  contexts that end at any moment, and other operations on the same native connection, as a step
  relation whose steps are the actions of \<open>connection.go\<close> that other goroutines can see.
\<close>

section \<open>States\<close>

text \<open>The program counter of the goroutine: each constructor is the action it has just finished.\<close>

datatype go_state =
    GoNone
  | GoStarted int string
  | GoClosed "go_error option"
  | GoStored
  | GoExited

text \<open>
  The program counter of one call: at entry, past the guards with a live context, in the
  \<open>select\<close>, after \<open>native.CloseNow\<close> and before \<open>closeDone\<close>, and the three ways it returns.
\<close>

datatype caller =
    Entered ctx int string
  | Checked ctx int string
  | Selecting ctx
  | Forcing go_error "go_error option"
  | ReturnedEarly "go_error option"
  | ReturnedDone "go_error option"
  | ReturnedForced "go_error option"

record 'n close_sys =
  shared :: "'n connection"
  goroutine :: go_state
  callers :: "caller list"
  native_closes :: nat
  channel_closes :: nat

definition close_init :: "'n connection \<Rightarrow> caller list \<Rightarrow> 'n close_sys" where
  "close_init conn cs =
     \<lparr>shared = conn, goroutine = GoNone, callers = cs, native_closes = 0, channel_closes = 0\<rparr>"

definition set_caller :: "nat \<Rightarrow> caller \<Rightarrow> 'n close_sys \<Rightarrow> 'n close_sys" where
  "set_caller i pc s = s\<lparr>callers := (callers s)[i := pc]\<rparr>"

definition at :: "'n close_sys \<Rightarrow> nat \<Rightarrow> caller \<Rightarrow> bool" where
  "at s i pc = (i < length (callers s) \<and> callers s ! i = pc)"

section \<open>Steps\<close>

text \<open>
  The actions of the code: the callers' and the goroutine's. The effect of a native call is one action, the one with
  which it returns; that it may never return is said by \<open>runs_with\<close> below.
\<close>

inductive prog_step :: "'n native_ops \<Rightarrow> 'n close_sys \<Rightarrow> 'n close_sys \<Rightarrow> bool" for ops where
  reject: "at s i (Entered c st r) \<Longrightarrow> close_rejects (Some c) (Some (shared s)) st r = Some e \<Longrightarrow>
    prog_step ops s (set_caller i (ReturnedEarly (Some e)) s)"
| ended: "at s i (Entered c st r) \<Longrightarrow> close_rejects (Some c) (Some (shared s)) st r = None \<Longrightarrow>
    ctx_Cause c = Some cause \<Longrightarrow> closeNow ops (Some (shared s)) = (fe, Some conn) \<Longrightarrow>
    prog_step ops s
      (set_caller i (ReturnedEarly (errors_join [Some (wrap ''close WebSocket: %w'' cause), fe])) (s\<lparr>shared := conn\<rparr>))"
| live: "at s i (Entered c st r) \<Longrightarrow> close_rejects (Some c) (Some (shared s)) st r = None \<Longrightarrow>
    ctx_Cause c = None \<Longrightarrow> prog_step ops s (set_caller i (Checked c st r) s)"
| once_first: "at s i (Checked c st r) \<Longrightarrow> \<not> closeOnce (shared s) \<Longrightarrow>
    prog_step ops s
      (set_caller i (Selecting c) (s\<lparr>shared := (shared s)\<lparr>closeOnce := True\<rparr>, goroutine := GoStarted st r\<rparr>))"
| once_later: "at s i (Checked c st r) \<Longrightarrow> closeOnce (shared s) \<Longrightarrow>
    prog_step ops s (set_caller i (Selecting c) s)"
| select_done: "at s i (Selecting c) \<Longrightarrow> closeDone (shared s) \<Longrightarrow>
    prog_step ops s (set_caller i (ReturnedDone (closeErr (shared s))) s)"
| select_ctx: "at s i (Selecting c) \<Longrightarrow> ctx_Cause c = Some cause \<Longrightarrow>
    native_CloseNow ops (shared s) = (fe, conn) \<Longrightarrow>
    prog_step ops s (set_caller i (Forcing cause fe) (s\<lparr>shared := conn\<rparr>))"
| forced: "at s i (Forcing cause fe) \<Longrightarrow> closeDone (shared s) \<Longrightarrow>
    prog_step ops s (set_caller i (ReturnedForced (force_result cause fe)) s)"
| go_close: "goroutine s = GoStarted st r \<Longrightarrow> native (shared s) = Some n \<Longrightarrow>
    op_Close ops st r n = (err, n') \<Longrightarrow>
    prog_step ops s
      (s\<lparr>shared := (shared s)\<lparr>native := Some n'\<rparr>, goroutine := GoClosed err, native_closes := native_closes s + 1\<rparr>)"
| go_store: "goroutine s = GoClosed err \<Longrightarrow>
    prog_step ops s
      (s\<lparr>shared := (shared s)\<lparr>closeErr := handshake_error err (closeErr (shared s))\<rparr>, goroutine := GoStored\<rparr>)"
| go_exit: "goroutine s = GoStored \<Longrightarrow>
    prog_step ops s
      (s\<lparr>shared := (shared s)\<lparr>closeDone := True\<rparr>, goroutine := GoExited, channel_closes := channel_closes s + 1\<rparr>)"

text \<open>The environment: time passes for a context, another operation uses the native connection.\<close>

fun tick_caller :: "caller \<Rightarrow> caller" where
  "tick_caller (Entered c st r) = Entered (ctx_tick c) st r"
| "tick_caller (Checked c st r) = Checked (ctx_tick c) st r"
| "tick_caller (Selecting c) = Selecting (ctx_tick c)"
| "tick_caller pc = pc"

inductive env_step :: "'n native_ops \<Rightarrow> 'n close_sys \<Rightarrow> 'n close_sys \<Rightarrow> bool" for ops where
  tick: "at s i pc \<Longrightarrow> env_step ops s (set_caller i (tick_caller pc) s)"
| other_read: "native (shared s) = Some n \<Longrightarrow> op_Read ops c n = (res, n', c') \<Longrightarrow>
    env_step ops s (s\<lparr>shared := (shared s)\<lparr>native := Some n'\<rparr>\<rparr>)"
| other_write: "native (shared s) = Some n \<Longrightarrow> op_Write ops c t p n = (e, n', c') \<Longrightarrow>
    env_step ops s (s\<lparr>shared := (shared s)\<lparr>native := Some n'\<rparr>\<rparr>)"
| other_ping: "native (shared s) = Some n \<Longrightarrow> op_Ping ops c n = (e, n', c') \<Longrightarrow>
    env_step ops s (s\<lparr>shared := (shared s)\<lparr>native := Some n'\<rparr>\<rparr>)"

definition close_step :: "'n native_ops \<Rightarrow> 'n close_sys \<Rightarrow> 'n close_sys \<Rightarrow> bool" where
  "close_step ops s s' = (prog_step ops s s' \<or> env_step ops s s')"

definition entered :: "caller \<Rightarrow> bool" where
  "entered pc = (case pc of Entered c st r \<Rightarrow> True | _ \<Rightarrow> False)"

text \<open>The states that calls on a fresh connection can reach.\<close>

inductive close_reachable :: "'n native_ops \<Rightarrow> 'n close_sys \<Rightarrow> bool" for ops where
  start: "native conn \<noteq> None \<Longrightarrow> \<not> closeOnce conn \<Longrightarrow> \<not> closeDone conn \<Longrightarrow> closeErr conn = None \<Longrightarrow>
    list_all entered cs \<Longrightarrow> close_reachable ops (close_init conn cs)"
| more: "close_reachable ops s \<Longrightarrow> close_step ops s s' \<Longrightarrow> close_reachable ops s'"

section \<open>The invariant\<close>

fun go_ok :: "go_state \<Rightarrow> 'n connection \<Rightarrow> nat \<Rightarrow> nat \<Rightarrow> bool" where
  "go_ok GoNone conn nc cc = (\<not> closeOnce conn \<and> \<not> closeDone conn \<and> closeErr conn = None \<and> nc = 0 \<and> cc = 0)"
| "go_ok (GoStarted st r) conn nc cc = (closeOnce conn \<and> \<not> closeDone conn \<and> closeErr conn = None \<and> nc = 0 \<and> cc = 0)"
| "go_ok (GoClosed e) conn nc cc = (closeOnce conn \<and> \<not> closeDone conn \<and> closeErr conn = None \<and> nc = 1 \<and> cc = 0)"
| "go_ok GoStored conn nc cc = (closeOnce conn \<and> \<not> closeDone conn \<and> nc = 1 \<and> cc = 0)"
| "go_ok GoExited conn nc cc = (closeOnce conn \<and> closeDone conn \<and> nc = 1 \<and> cc = 1)"

fun caller_ok :: "'n connection \<Rightarrow> caller \<Rightarrow> bool" where
  "caller_ok conn (Selecting c) = closeOnce conn"
| "caller_ok conn (Forcing cause fe) = closeOnce conn"
| "caller_ok conn (ReturnedDone e) = (closeDone conn \<and> e = closeErr conn)"
| "caller_ok conn (ReturnedForced e) = (closeDone conn \<and> e \<noteq> None)"
| "caller_ok conn pc = True"

definition sys_inv :: "'n close_sys \<Rightarrow> bool" where
  "sys_inv s =
     (native (shared s) \<noteq> None \<and> go_ok (goroutine s) (shared s) (native_closes s) (channel_closes s) \<and>
      list_all (caller_ok (shared s)) (callers s))"

lemma caller_ok_mono:
  assumes "caller_ok conn pc" "closeOnce conn \<Longrightarrow> closeOnce conn'"
    "closeDone conn \<Longrightarrow> closeDone conn' \<and> closeErr conn' = closeErr conn"
  shows "caller_ok conn' pc"
  using assms by (cases pc) auto

lemma callers_ok_mono:
  assumes "list_all (caller_ok conn) cs" "closeOnce conn \<Longrightarrow> closeOnce conn'"
    "closeDone conn \<Longrightarrow> closeDone conn' \<and> closeErr conn' = closeErr conn"
  shows "list_all (caller_ok conn') cs"
  using assms caller_ok_mono unfolding list_all_iff by blast

lemma callers_ok_update:
  "list_all (caller_ok conn) cs \<Longrightarrow> caller_ok conn pc \<Longrightarrow> list_all (caller_ok conn) (cs[i := pc])"
  using set_update_subset_insert [of cs i pc] by (auto simp: list_all_iff)

lemma caller_ok_at: "at s i pc \<Longrightarrow> list_all (caller_ok conn) (callers s) \<Longrightarrow> caller_ok conn pc"
  by (auto simp: at_def list_all_length)

lemma go_ok_once: "go_ok g conn nc cc \<Longrightarrow> closeOnce conn \<longleftrightarrow> g \<noteq> GoNone"
  by (cases g) auto

lemma go_ok_done: "go_ok g conn nc cc \<Longrightarrow> closeDone conn \<longleftrightarrow> g = GoExited"
  by (cases g) auto

lemma go_ok_native [simp]: "go_ok g (conn\<lparr>native := n\<rparr>) nc cc = go_ok g conn nc cc"
  by (cases g) auto

lemma callers_ok_native [simp]:
  "list_all (caller_ok (conn\<lparr>native := n\<rparr>)) cs = list_all (caller_ok conn) cs"
proof -
  have "caller_ok (conn\<lparr>native := n\<rparr>) pc = caller_ok conn pc" for pc by (cases pc) auto
  then show ?thesis by (simp add: list_all_iff)
qed

lemma native_CloseNow_native:
  "native_CloseNow ops conn = (e, conn') \<Longrightarrow> \<exists>n. conn' = conn\<lparr>native := n\<rparr> \<and> (native conn \<noteq> None \<longrightarrow> n \<noteq> None)"
  by (cases "native conn") (auto simp: native_CloseNow_def split: prod.splits intro: exI [of _ None])

lemma closeNow_native:
  "closeNow ops (Some conn) = (e, Some conn') \<Longrightarrow> \<exists>n. conn' = conn\<lparr>native := n\<rparr> \<and> (native conn \<noteq> None \<longrightarrow> n \<noteq> None)"
  by (cases "native conn") (auto simp: closeNow_def valid_conn_def split: prod.splits option.splits intro: exI [of _ None])

lemma prog_step_inv: "prog_step ops s s' \<Longrightarrow> sys_inv s \<Longrightarrow> sys_inv s'"
proof (induction rule: prog_step.induct)
  case (ended s i c st r cause fe conn)
  then show ?case
    by (auto simp: sys_inv_def set_caller_def callers_ok_update dest!: closeNow_native)
next
  case (once_first s i c st r)
  then show ?case
    by (auto simp: sys_inv_def set_caller_def go_ok_once intro!: callers_ok_update elim: callers_ok_mono)
next
  case (select_ctx s i c cause fe conn)
  then show ?case
    by (auto simp: sys_inv_def set_caller_def callers_ok_update
        dest!: native_CloseNow_native dest: caller_ok_at)
next
  case (forced s i cause fe)
  then show ?case
    by (simp add: sys_inv_def set_caller_def callers_ok_update)
next
  case (go_store s err)
  then show ?case
    by (auto simp: sys_inv_def elim: callers_ok_mono)
next
  case (go_exit s)
  then show ?case
    by (auto simp: sys_inv_def elim: callers_ok_mono)
next
  case (go_close s st r n err n')
  then show ?case
    by (simp add: sys_inv_def)
qed (simp_all add: sys_inv_def set_caller_def callers_ok_update)

lemma env_step_inv: "env_step ops s s' \<Longrightarrow> sys_inv s \<Longrightarrow> sys_inv s'"
proof (induction rule: env_step.induct)
  case (tick s i pc)
  then have "caller_ok (shared s) pc"
    by (auto simp: sys_inv_def dest: caller_ok_at)
  then have "caller_ok (shared s) (tick_caller pc)"
    by (cases pc) auto
  with tick show ?case
    by (simp add: sys_inv_def set_caller_def callers_ok_update)
qed (simp_all add: sys_inv_def)

lemma close_init_inv:
  "native conn \<noteq> None \<Longrightarrow> \<not> closeOnce conn \<Longrightarrow> \<not> closeDone conn \<Longrightarrow> closeErr conn = None \<Longrightarrow>
   list_all entered cs \<Longrightarrow> sys_inv (close_init conn cs)"
  by (auto simp: sys_inv_def close_init_def list_all_iff entered_def split: caller.splits)
    (metis caller.exhaust caller_ok.simps(5))

lemma close_reachable_inv: "close_reachable ops s \<Longrightarrow> sys_inv s"
  by (induction rule: close_reachable.induct)
    (auto simp: close_step_def intro: prog_step_inv env_step_inv close_init_inv)

section \<open>Termination and progress\<close>

fun returned :: "caller \<Rightarrow> bool" where
  "returned (ReturnedEarly e) = True"
| "returned (ReturnedDone e) = True"
| "returned (ReturnedForced e) = True"
| "returned pc = False"

fun caller_work :: "caller \<Rightarrow> nat" where
  "caller_work (Entered c st r) = 4"
| "caller_work (Checked c st r) = 3"
| "caller_work (Selecting c) = 2"
| "caller_work (Forcing cause fe) = 1"
| "caller_work pc = 0"

fun go_work :: "go_state \<Rightarrow> nat" where
  "go_work GoNone = 4"
| "go_work (GoStarted st r) = 3"
| "go_work (GoClosed e) = 2"
| "go_work GoStored = 1"
| "go_work GoExited = 0"

text \<open>An upper bound on the actions that are left.\<close>

definition close_work :: "'n close_sys \<Rightarrow> nat" where
  "close_work s = sum_list (map caller_work (callers s)) + go_work (goroutine s)"

lemma caller_work_update:
  assumes "at s i pc" "caller_work pc' < caller_work pc"
  shows "sum_list (map caller_work ((callers s)[i := pc'])) < sum_list (map caller_work (callers s))"
proof -
  have i: "i < length (callers s)" "callers s ! i = pc"
    using assms(1) by (auto simp: at_def)
  then have "caller_work pc \<le> sum_list (map caller_work (callers s))"
    using elem_le_sum_list [of i "map caller_work (callers s)"] by simp
  then show ?thesis
    using i assms(2) by (simp add: map_update sum_list_update)
qed

lemma prog_step_work: "prog_step ops s s' \<Longrightarrow> sys_inv s \<Longrightarrow> close_work s' < close_work s"
proof (induction rule: prog_step.induct)
  case (once_first s i c st r)
  then have "goroutine s = GoNone"
    by (auto simp: sys_inv_def dest: go_ok_once)
  then show ?case
    using caller_work_update [OF once_first(1), of "Selecting c"]
    by (simp add: close_work_def set_caller_def)
next
  case (go_close s st r n err n')
  then show ?case by (simp add: close_work_def)
qed (simp_all add: close_work_def set_caller_def caller_work_update)

lemma closeNow_handle: "\<exists>fe conn'. closeNow ops (Some conn) = (fe, Some conn')"
  by (simp add: closeNow_def valid_conn_def split: option.split prod.split)

lemma env_step_work: "env_step ops s s' \<Longrightarrow> close_work s' = close_work s"
proof (induction rule: env_step.induct)
  case (tick s i pc)
  have "caller_work (tick_caller pc) = caller_work pc" by (cases pc) simp_all
  then have "map caller_work ((callers s)[i := tick_caller pc]) = map caller_work (callers s)"
    using tick by (simp add: map_update at_def list_update_same_conv)
  then show ?case by (simp add: close_work_def set_caller_def)
qed (simp_all add: close_work_def)

text \<open>
  The calls into the native library that can block: the goroutine's \<open>native.Close\<close> and the \<open>native.CloseNow\<close> of
  a call. \<open>inside s q\<close> says that the program counter is where that call is made; a call in the \<open>select\<close> makes it
  when its context has ended. In the runs with a set \<open>hung\<close> of native calls that have been made and never return, whoever is
  inside one of them does nothing any more, so a caller in the \<open>select\<close> that hangs does not receive from \<open>closeDone\<close> either.
\<close>

datatype native_call = HandshakeCall | ForceCall nat

definition inside :: "'n close_sys \<Rightarrow> native_call \<Rightarrow> bool" where
  "inside s q =
     (case q of
        HandshakeCall \<Rightarrow> \<exists>st r. goroutine s = GoStarted st r
      | ForceCall i \<Rightarrow> \<exists>c cause. ctx_Cause c = Some cause \<and>
          (at s i (Selecting c) \<or>
           (\<exists>st r. at s i (Entered c st r) \<and> close_rejects (Some c) (Some (shared s)) st r = None)))"

text \<open>The two places in which a call receives from \<open>closeDone\<close>.\<close>

definition awaits :: "caller \<Rightarrow> bool" where
  "awaits pc = (case pc of Selecting c \<Rightarrow> True | Forcing cause fe \<Rightarrow> True | _ \<Rightarrow> False)"

definition moved :: "'n close_sys \<Rightarrow> 'n close_sys \<Rightarrow> native_call \<Rightarrow> bool" where
  "moved s s' q = (case q of HandshakeCall \<Rightarrow> goroutine s' \<noteq> goroutine s | ForceCall i \<Rightarrow> callers s' ! i \<noteq> callers s ! i)"

definition runs_with :: "native_call set \<Rightarrow> 'n native_ops \<Rightarrow> 'n close_sys \<Rightarrow> 'n close_sys \<Rightarrow> bool" where
  "runs_with hung ops s s' = (prog_step ops s s' \<and> (\<forall>q \<in> hung. inside s q \<longrightarrow> \<not> moved s s' q))"

lemma runs_withI:
  "prog_step ops s s' \<Longrightarrow> (\<And>q. q \<in> hung \<Longrightarrow> inside s q \<Longrightarrow> \<not> moved s s' q) \<Longrightarrow> \<exists>s'. runs_with hung ops s s'"
  by (auto simp: runs_with_def)

text \<open>The actions of one caller do not move the others, and the goroutine's do not move a caller.\<close>

lemma moved_caller:
  assumes "callers s1 = (callers s)[i := pc]" "goroutine s1 = goroutine s \<or> goroutine s = GoNone" "inside s q" "moved s s1 q"
  shows "q = ForceCall i"
proof (cases q)
  case (ForceCall j)
  then show ?thesis using assms(1,4) by (cases "j = i") (auto simp: moved_def)
qed (use assms in \<open>auto simp: moved_def inside_def\<close>)

lemma moved_goroutine: "callers s' = callers s \<Longrightarrow> moved s s' q \<Longrightarrow> q = HandshakeCall"
  by (auto simp: moved_def split: native_call.splits)

lemma goroutine_progress:
  assumes "sys_inv s" "closeOnce (shared s)" "\<not> closeDone (shared s)"
    and free: "\<not> (HandshakeCall \<in> hung \<and> inside s HandshakeCall)"
  shows "\<exists>s'. runs_with hung ops s s'"
proof -
  obtain n where n: "native (shared s) = Some n"
    using assms(1) by (auto simp: sys_inv_def)
  have go: "\<exists>s'. runs_with hung ops s s'" if "prog_step ops s s1" "callers s1 = callers s" for s1
    using free moved_goroutine [OF that(2)] by (intro runs_withI [OF that(1)]) blast
  show ?thesis
  proof (cases "goroutine s")
    case (GoStarted st r)
    obtain err n' where "op_Close ops st r n = (err, n')" by (cases "op_Close ops st r n")
    from go [OF go_close [OF GoStarted n this]] show ?thesis by simp
  next
    case (GoClosed err)
    from go [OF go_store [OF this]] show ?thesis by simp
  next
    case GoStored
    from go [OF go_exit [OF this]] show ?thesis by simp
  qed (use assms(1-3) in \<open>auto simp: sys_inv_def\<close>)
qed

lemma caller_progress:
  assumes inv: "sys_inv s" and pc: "at s i pc" "\<not> returned pc"
    and free: "\<not> (ForceCall i \<in> hung \<and> inside s (ForceCall i))"
    and waits: "\<not> (HandshakeCall \<in> hung \<and> inside s HandshakeCall \<and> awaits pc)"
  shows "\<exists>s'. runs_with hung ops s s'"
proof -
  have own: "\<exists>s'. runs_with hung ops s s'"
    if "prog_step ops s s1" "callers s1 = (callers s)[i := pc']" "goroutine s1 = goroutine s \<or> goroutine s = GoNone" for s1 pc'
    using free moved_caller [OF that(2,3)] by (intro runs_withI [OF that(1)]) blast
  show ?thesis
  proof (cases pc)
    case (Entered c st r)
    obtain fe conn where now: "closeNow ops (Some (shared s)) = (fe, Some conn)"
      using closeNow_handle [of ops "shared s"] by auto
    show ?thesis
    proof (cases "close_rejects (Some c) (Some (shared s)) st r")
      case (Some e)
      from own [OF reject [OF _ this]] pc(1) Entered show ?thesis by (simp add: set_caller_def)
    next
      case passed: None
      show ?thesis
      proof (cases "ctx_Cause c")
        case None
        from own [OF live [OF _ passed this]] pc(1) Entered show ?thesis by (simp add: set_caller_def)
      next
        case (Some cause)
        from own [OF ended [OF _ passed this now]] pc(1) Entered show ?thesis by (simp add: set_caller_def)
      qed
    qed
  next
    case (Checked c st r)
    show ?thesis
    proof (cases "closeOnce (shared s)")
      case True
      from own [OF once_later [OF _ this]] pc(1) Checked show ?thesis by (simp add: set_caller_def)
    next
      case False
      then have "goroutine s = GoNone"
        using inv by (auto simp: sys_inv_def dest: go_ok_once)
      with own [OF once_first [OF _ False]] pc(1) Checked show ?thesis by (simp add: set_caller_def)
    qed
  next
    case (Selecting c)
    then have "closeOnce (shared s)"
      using inv pc(1) by (auto simp: sys_inv_def dest: caller_ok_at)
    then show ?thesis
      using pc(1) Selecting waits own [OF select_done] goroutine_progress [OF inv, of hung ops]
      by (cases "closeDone (shared s)") (auto simp: set_caller_def awaits_def)
  next
    case (Forcing cause fe)
    then have "closeOnce (shared s)"
      using inv pc(1) by (auto simp: sys_inv_def dest: caller_ok_at)
    then show ?thesis
      using pc(1) Forcing waits own [OF forced] goroutine_progress [OF inv, of hung ops]
      by (cases "closeDone (shared s)") (auto simp: set_caller_def awaits_def)
  qed (use pc(2) in auto)
qed

lemma hung_handshake:
  assumes hung: "HandshakeCall \<in> hung" "inside s HandshakeCall" and inv: "sys_inv s" and pc: "at s i (Forcing cause fe)"
    and step: "runs_with hung ops s s' \<or> env_step ops s s'"
  shows "inside s' HandshakeCall \<and> at s' i (Forcing cause fe)"
  using step
proof
  assume run: "runs_with hung ops s s'"
  then have "goroutine s' = goroutine s" "prog_step ops s s'"
    using hung by (auto simp: runs_with_def moved_def)
  moreover have "\<not> closeDone (shared s)"
    using inv hung(2) by (auto simp: sys_inv_def inside_def)
  ultimately show ?thesis
    using hung(2) pc by (auto simp: inside_def at_def set_caller_def nth_list_update elim!: prog_step.cases)
next
  assume "env_step ops s s'"
  then show ?thesis
    using hung(2) pc by (auto simp: inside_def at_def set_caller_def nth_list_update elim!: env_step.cases)
qed

section \<open>A run\<close>

text \<open>
  A native connection reduced to its closing flag, and the run in which one caller closes it; the
  peer answers with another status.
\<close>

definition flag_ops :: "bool native_ops" where
  "flag_ops =
     \<lparr>op_Read = (\<lambda>c n. (Inl NetErrClosed, n, c)),
      op_Write = (\<lambda>c t p n. (Some NetErrClosed, n, c)),
      op_Ping = (\<lambda>c n. (Some NetErrClosed, n, c)),
      op_Close = (\<lambda>st r n. (Some (if n then NetErrClosed else CloseError 1001 ''bye''), True)),
      op_CloseNow = (\<lambda>n. (if n then Some NetErrClosed else None, True)),
      op_Subprotocol = (\<lambda>n. []),
      op_SetReadLimit = (\<lambda>m n. n)\<rparr>"

definition flag_conn :: "bool connection" where
  "flag_conn = newConnection flag_ops False 16"

definition run_end :: "bool close_sys" where
  "run_end =
     \<lparr>shared = \<lparr>native = Some True, maxMessage = 16, closeOnce = True, closeDone = True,
        closeErr = Some (PeerCloseError 1001)\<rparr>,
      goroutine = GoExited, callers = [ReturnedDone (Some (PeerCloseError 1001))],
      native_closes = 1, channel_closes = 1\<rparr>"

text \<open>The state in which the goroutine is inside \<open>native.Close\<close>.\<close>

definition run_hung :: "bool close_sys" where
  "run_hung =
     \<lparr>shared = \<lparr>native = Some False, maxMessage = 16, closeOnce = True, closeDone = False, closeErr = None\<rparr>,
      goroutine = GoStarted 1000 [], callers = [Selecting background], native_closes = 0, channel_closes = 0\<rparr>"

lemmas run_simps = flag_ops_def flag_conn_def newConnection_def close_init_def set_caller_def at_def

lemma run_end_run:
  "(prog_step flag_ops)\<^sup>*\<^sup>* (close_init flag_conn [Entered background 1000 []]) run_hung"
  "(prog_step flag_ops)\<^sup>*\<^sup>* (close_init flag_conn [Entered background 1000 []]) run_end"
proof -
  let ?sys = "\<lambda>n once go pc. \<lparr>shared = \<lparr>native = Some n, maxMessage = 16, closeOnce = once, closeDone = False,
      closeErr = None\<rparr>, goroutine = go, callers = [pc], native_closes = (if n then 1 else 0), channel_closes = 0\<rparr>"
  let ?run = "(prog_step flag_ops)\<^sup>*\<^sup>* (close_init flag_conn [Entered background 1000 []])"
  have 0: "?run (?sys False False GoNone (Entered background 1000 []))"
    by (simp add: run_simps)
  have guards: "close_rejects (Some background) (Some (shared (?sys False False GoNone pc))) 1000 [] = None" for pc
    by (simp add: close_rejects_def valid_conn_def validStatus_def status_defs contains_any_iff)
  have 1: "?run (?sys False False GoNone (Checked background 1000 []))"
    using rtranclp.rtrancl_into_rtrancl [OF 0 live [of _ 0, OF _ guards]] by (simp add: run_simps)
  have 2: "?run (?sys False True (GoStarted 1000 []) (Selecting background))"
    using rtranclp.rtrancl_into_rtrancl [OF 1 once_first [of _ 0 background 1000 "[]"]] by (simp add: run_simps)
  then show "?run run_hung" by (simp add: run_hung_def)
  have 3: "?run (?sys True True (GoClosed (Some (CloseError 1001 ''bye''))) (Selecting background))"
    using rtranclp.rtrancl_into_rtrancl [OF 2 go_close [of _ 1000 "[]" False]] by (simp add: run_simps)
  have 4: "?run ((?sys True True GoStored (Selecting background))
      \<lparr>shared := (shared (?sys True True GoStored (Selecting background)))\<lparr>closeErr := Some (PeerCloseError 1001)\<rparr>\<rparr>)"
    using rtranclp.rtrancl_into_rtrancl [OF 3 go_store]
    by (simp add: run_simps handshake_error_def errors_is_def sanitizeConnectionError_def CloseStatus_def err_simps)
  show "?run run_end"
    using rtranclp.rtrancl_into_rtrancl
      [OF rtranclp.rtrancl_into_rtrancl [OF 4 go_exit] select_done [of _ 0 background]]
    by (simp add: run_simps run_end_def)
qed

lemma close_reachable_run: "(prog_step ops)\<^sup>*\<^sup>* s s' \<Longrightarrow> close_reachable ops s \<Longrightarrow> close_reachable ops s'"
  by (induction rule: rtranclp_induct) (auto simp: close_step_def intro: close_reachable.more)

lemma run_end_reachable: "close_reachable flag_ops run_end" "close_reachable flag_ops run_hung"
proof -
  have "close_reachable flag_ops (close_init flag_conn [Entered background 1000 []])"
    by (rule start) (simp_all add: run_simps entered_def)
  then show "close_reachable flag_ops run_end" "close_reachable flag_ops run_hung"
    using close_reachable_run run_end_run by blast+
qed

lemmas run_hung_reachable = run_end_reachable(2)

section \<open>Properties\<close>

text \<open>
  C9. However many goroutines call \<open>Connection.Close\<close>, with contexts ending at any moment and
  other operations on the connection interleaved, the native close handshake runs at most once,
  the channel \<open>closeDone\<close> is closed at most once (a second close would panic), and all callers that
  return through \<open>closeDone\<close> return the same error, the final value of \<open>closeErr\<close>.
\<close>

theorem concurrent_close_once:
  assumes "close_reachable ops s"
  shows "native_closes s \<le> 1 \<and> channel_closes s \<le> 1 \<and>
    (\<forall>i e. at s i (ReturnedDone e) \<longrightarrow> closeDone (shared s) \<and> e = closeErr (shared s)) \<and>
    (\<forall>i e. at s i (ReturnedForced e) \<longrightarrow> closeDone (shared s) \<and> e \<noteq> None)"
proof -
  have inv: "sys_inv s" by (rule close_reachable_inv [OF assms])
  then have "go_ok (goroutine s) (shared s) (native_closes s) (channel_closes s)"
    by (simp add: sys_inv_def)
  then have "native_closes s \<le> 1 \<and> channel_closes s \<le> 1"
    by (cases "goroutine s") auto
  then show ?thesis
    using inv by (auto simp: sys_inv_def dest: caller_ok_at)
qed

theorem concurrent_close_once_witness:
  "native_closes run_end \<le> 1 \<and> channel_closes run_end \<le> 1 \<and>
   Some (PeerCloseError 1001) = closeErr (shared run_end)"
proof -
  have "at run_end 0 (ReturnedDone (Some (PeerCloseError 1001)))"
    by (simp add: at_def run_end_def)
  then show ?thesis using concurrent_close_once [OF run_end_reachable(1)] by blast
qed

text \<open>
  C10. \<open>Connection.Close\<close> waits for nothing but the native library. Take any set of native closes that never return, of
  the goroutine or of the callers. Every action of the callers and of the goroutine reduces the work that is
  left, and the environment does not add to it, so there are finitely many; and when no action is
  possible any more, every call has returned, unless it is itself inside a \<open>native.CloseNow\<close> that never returns, or
  receives from \<open>closeDone\<close> while the goroutine is inside a \<open>native.Close\<close> that never returns. In the second case the end of the
  context does not help: a call that has forced the close stays until the handshake returns.
\<close>

theorem concurrent_close_waits:
  assumes "close_reachable ops s"
  shows "(runs_with hung ops s s' \<longrightarrow> close_work s' < close_work s) \<and> (env_step ops s s' \<longrightarrow> close_work s' = close_work s) \<and>
    ((\<forall>s'. \<not> runs_with hung ops s s') \<longrightarrow>
       (\<forall>i pc. at s i pc \<and> \<not> returned pc \<longrightarrow>
          ForceCall i \<in> hung \<and> inside s (ForceCall i) \<or> HandshakeCall \<in> hung \<and> inside s HandshakeCall \<and> awaits pc)) \<and>
    (HandshakeCall \<in> hung \<and> inside s HandshakeCall \<and> at s i (Forcing cause fe) \<and> (runs_with hung ops s s' \<or> env_step ops s s') \<longrightarrow>
       inside s' HandshakeCall \<and> at s' i (Forcing cause fe))"
proof -
  note inv = close_reachable_inv [OF assms]
  have "ForceCall j \<in> hung \<and> inside s (ForceCall j) \<or> HandshakeCall \<in> hung \<and> inside s HandshakeCall \<and> awaits pc"
    if "\<forall>s'. \<not> runs_with hung ops s s'" "at s j pc" "\<not> returned pc" for j pc
    using caller_progress [OF inv that(2,3), of hung ops] that(1) by blast
  then show ?thesis
    using prog_step_work [OF _ inv] env_step_work hung_handshake [OF _ _ inv, of hung i cause fe ops s']
    by (fastforce simp: runs_with_def)
qed

text \<open>The run to its end, and the same run when the handshake hangs.\<close>

theorem concurrent_close_waits_witness:
  "list_all returned (callers run_end) \<and> callers run_hung = [Selecting background] \<and> inside run_hung HandshakeCall"
proof -
  have "\<not> prog_step flag_ops run_end s" for s
    by (auto simp: run_end_def at_def elim!: prog_step.cases)
  then have "\<not> runs_with {} flag_ops run_end s" for s
    by (simp add: runs_with_def)
  then have "list_all returned (callers run_end)"
    using concurrent_close_waits [OF run_end_reachable(1), of "{}" run_end] by (auto simp: list_all_length at_def)
  moreover have "\<not> runs_with {HandshakeCall} flag_ops run_hung s" for s
    by (auto simp: runs_with_def run_hung_def at_def inside_def moved_def ctx_background elim!: prog_step.cases)
  then have "inside run_hung HandshakeCall"
    using concurrent_close_waits [OF run_hung_reachable, of "{HandshakeCall}" run_hung]
    by (auto simp: at_def run_hung_def)
  ultimately show ?thesis by (simp add: run_hung_def)
qed

end
