(* ===== verification/Close_Refinement.thy ===== *)
theory Close_Refinement
  imports Close_Concurrency
begin

text \<open>
  The function \<open>Close\<close> of the sequential model against the step relation: when a single call is under
  way, every complete run of the call and of its goroutine, with the context ending at any moment,
  has the result and the final state of the function for one of its races.
\<close>

definition solo_init :: "'n connection \<Rightarrow> caller \<Rightarrow> 'n close_sys" where
  "solo_init conn pc =
     (close_init conn [pc])\<lparr>goroutine := if closeOnce conn then GoExited else GoNone\<rparr>"

definition solo_step :: "'n native_ops \<Rightarrow> 'n close_sys \<Rightarrow> 'n close_sys \<Rightarrow> bool" where
  "solo_step ops s s' =
     (prog_step ops s s' \<or> (\<exists>i pc. at s i pc \<and> s' = set_caller i (tick_caller pc) s))"

fun call_result :: "caller \<Rightarrow> go_error option" where
  "call_result (ReturnedEarly e) = e"
| "call_result (ReturnedDone e) = e"
| "call_result (ReturnedForced e) = e"
| "call_result pc = None"

text \<open>The connection once the goroutine has run to its end from where it is.\<close>

fun complete :: "'n native_ops \<Rightarrow> go_state \<Rightarrow> 'n connection \<Rightarrow> 'n connection" where
  "complete ops GoNone conn = conn"
| "complete ops (GoStarted st r) conn = close_goroutine ops st r conn"
| "complete ops (GoClosed e) conn = conn\<lparr>closeErr := handshake_error e (closeErr conn), closeDone := True\<rparr>"
| "complete ops GoStored conn = conn\<lparr>closeDone := True\<rparr>"
| "complete ops GoExited conn = conn"

definition taken :: "'n connection \<Rightarrow> 'n connection" where
  "taken conn = conn\<lparr>closeOnce := True\<rparr>"

definition handshake :: "'n native_ops \<Rightarrow> int \<Rightarrow> string \<Rightarrow> 'n connection \<Rightarrow> 'n connection \<Rightarrow> 'n connection" where
  "handshake ops st r conn cn = (if closeOnce conn then cn else close_goroutine ops st r cn)"

text \<open>The two orders of the forced and the polite close.\<close>

definition forced_in :: "'n native_ops \<Rightarrow> bool \<Rightarrow> int \<Rightarrow> string \<Rightarrow> 'n connection \<Rightarrow> go_error option \<times> 'n connection" where
  "forced_in ops overtakes st r conn =
     (if overtakes then let (e, cn) = native_CloseNow ops (taken conn) in (e, handshake ops st r conn cn)
      else native_CloseNow ops (handshake ops st r conn (taken conn)))"

lemma Close_live:
  assumes "close_rejects (Some c) (Some conn) st r = None" "ctx_Cause c = None"
  shows "ctx_Cause (ctx_tick c) = Some cause \<Longrightarrow> forced_in ops b st r conn = (fe, cn) \<Longrightarrow>
      Close ops (ContextFirst b) (Some c) st r (Some conn) = (force_result cause fe, Some cn)"
    and "Close ops HandshakeFirst (Some c) st r (Some conn) =
      (closeErr (handshake ops st r conn (taken conn)), Some (handshake ops st r conn (taken conn)))"
  using assms
  by (auto simp: Close_def Let_def forced_in_def taken_def handshake_def split: prod.splits if_splits)

lemma close_rejects_ctx: "close_rejects (Some c) h st r = close_rejects (Some d) h st r"
  by (simp add: close_rejects_def)

lemma complete_go_close:
  "native conn = Some n \<Longrightarrow> op_Close ops st r n = (err, n') \<Longrightarrow>
   complete ops (GoClosed err) (conn\<lparr>native := Some n'\<rparr>) = complete ops (GoStarted st r) conn"
  by (simp add: close_goroutine_def)

lemma complete_CloseNow:
  assumes "\<And>st r. g \<noteq> GoStarted st r" "native_CloseNow ops conn = (fe, cn)"
  shows "native_CloseNow ops (complete ops g conn) = (fe, complete ops g cn)"
  using assms by (cases g; cases "native conn") (auto simp: native_CloseNow_def split: prod.splits)

section \<open>The simulation\<close>

definition solo_ok :: "'n native_ops \<Rightarrow> 'n connection \<Rightarrow> ctx \<Rightarrow> int \<Rightarrow> string \<Rightarrow> 'n close_sys \<Rightarrow> bool" where
  "solo_ok ops conn c st r s =
     (let passed = (close_rejects (Some c) (Some conn) st r = None \<and> ctx_Cause c = None);
          here = (shared s = conn \<and> goroutine s = (if closeOnce conn then GoExited else GoNone));
          final = complete ops (goroutine s) (shared s);
          polite = handshake ops st r conn (taken conn) in
      native (shared s) \<noteq> None \<and> (closeDone (shared s) \<longleftrightarrow> goroutine s = GoExited) \<and>
      (\<exists>pc. callers s = [pc] \<and>
        (case pc of
           Entered c' st' r' \<Rightarrow> here \<and> st' = st \<and> r' = r \<and> ctx_le c c'
         | Checked c' st' r' \<Rightarrow> here \<and> st' = st \<and> r' = r \<and> passed
         | Selecting c' \<Rightarrow> passed \<and> final = polite \<and>
             (case goroutine s of GoStarted st' r' \<Rightarrow> \<not> closeOnce conn \<and> st' = st \<and> r' = r \<and> shared s = taken conn | _ \<Rightarrow> True)
         | Forcing cause fe \<Rightarrow> passed \<and> (\<exists>b. forced_in ops b st r conn = (fe, final))
         | ReturnedEarly e \<Rightarrow> (\<exists>race c'. ctx_le c c' \<and> Close ops race (Some c') st r (Some conn) = (e, Some (shared s))) \<and>
             goroutine s = (if closeOnce conn then GoExited else GoNone)
         | ReturnedDone e \<Rightarrow> passed \<and> goroutine s = GoExited \<and> shared s = polite \<and> e = closeErr polite
         | ReturnedForced e \<Rightarrow> passed \<and> goroutine s = GoExited \<and>
             (\<exists>b cause fe. e = force_result cause fe \<and> forced_in ops b st r conn = (fe, shared s)))))"

lemma at_single: "callers s = [pc'] \<Longrightarrow> at s i pc \<longleftrightarrow> i = 0 \<and> pc = pc'"
  by (auto simp: at_def)

lemma ctx_le_live: "ctx_le c c' \<Longrightarrow> ctx_Cause c' = None \<Longrightarrow> ctx_Cause c = None"
  by (auto simp: ctx_le_def ctx_Cause_def)

lemma taken_id: "closeOnce conn \<Longrightarrow> taken conn = conn"
  by (simp add: taken_def)

lemmas solo_simps = solo_ok_def Let_def set_caller_def at_single

lemma solo_entered:
  assumes "solo_ok ops conn c st r s" "at s i (Entered c' st' r')"
  shows "i = 0 \<and> callers s = [Entered c' st' r'] \<and> st' = st \<and> r' = r \<and> ctx_le c c' \<and> shared s = conn \<and>
    goroutine s = (if closeOnce conn then GoExited else GoNone) \<and> native conn \<noteq> None \<and>
    (closeDone conn \<longleftrightarrow> closeOnce conn)"
  using assms by (auto simp: solo_simps split: if_splits)

text \<open>Steps of the goroutine do not change the connection that it will leave behind.\<close>

lemma solo_goroutine:
  assumes ok: "solo_ok ops conn c st r s"
    and running: "goroutine s \<noteq> GoNone" "goroutine s \<noteq> GoExited" "goroutine s' \<noteq> GoNone" "\<forall>st r. goroutine s' \<noteq> GoStarted st r"
    and same: "complete ops (goroutine s') (shared s') = complete ops (goroutine s) (shared s)"
    and rest: "callers s' = callers s" "native (shared s') \<noteq> None" "closeDone (shared s') \<longleftrightarrow> goroutine s' = GoExited"
  shows "solo_ok ops conn c st r s'"
proof -
  obtain pc where pc: "callers s = [pc]" using ok by (auto simp: solo_simps)
  show ?thesis
    using ok running same rest pc
    by (cases pc) (auto simp: solo_simps split: if_splits go_state.splits)
qed

lemma solo_prog_step: "prog_step ops s s' \<Longrightarrow> solo_ok ops conn c st r s \<Longrightarrow> solo_ok ops conn c st r s'"
proof (induction rule: prog_step.induct)
  case (reject s i c' st' r' e)
  note E = solo_entered [OF reject(3,1)]
  have "Close ops HandshakeFirst (Some c') st r (Some conn) = (Some e, Some conn)"
    using reject(2) E by (simp add: Close_def)
  then show ?case using E by (auto simp: solo_simps)
next
  case (ended s i c' st' r' cause fe cn)
  note E = solo_entered [OF ended(5,1)]
  have "Close ops HandshakeFirst (Some c') st r (Some conn) =
      (errors_join [Some (wrap ''close WebSocket: %w'' cause), fe], Some cn)"
    using ended(2-4) E by (simp add: Close_def)
  then show ?case
    using E closeNow_native [OF ended(4)] by (auto simp: solo_simps)
next
  case (live s i c' st' r')
  note E = solo_entered [OF live(4,1)]
  have "close_rejects (Some c) (Some conn) st r = None" "ctx_Cause c = None"
    using E live(2,3) ctx_le_live [of c c'] close_rejects_ctx [of c "Some conn" st r c'] by simp_all
  then show ?case using E by (auto simp: solo_simps)
next
  case (once_first s i c' st' r')
  then show ?case
    by (auto simp: solo_simps taken_def handshake_def split: if_splits)
next
  case (once_later s i c' st' r')
  then show ?case
    by (auto simp: solo_simps handshake_def taken_id split: if_splits)
next
  case (select_done s i c')
  then show ?case by (auto simp: solo_simps)
next
  case (select_ctx s i c' cause fe cn)
  have fin: "\<exists>b. forced_in ops b st r conn = (fe, complete ops (goroutine s) cn)"
  proof (cases "\<exists>st r. goroutine s = GoStarted st r")
    case True
    then show ?thesis
      using select_ctx by (intro exI [of _ True]) (auto simp: solo_simps forced_in_def handshake_def)
  next
    case False
    then show ?thesis
      using select_ctx complete_CloseNow [of "goroutine s" ops "shared s" fe cn]
      by (intro exI [of _ False]) (auto simp: solo_simps forced_in_def split: go_state.splits)
  qed
  show ?case
    using select_ctx fin native_CloseNow_native [OF select_ctx(3)] by (auto simp: solo_simps)
next
  case (forced s i cause fe)
  then show ?case by (auto simp: solo_simps) blast+
next
  case (go_close s st' r' n err n')
  then show ?case
    by (intro solo_goroutine [OF go_close(4)]) (auto simp: close_goroutine_def solo_simps)
next
  case (go_store s err)
  then show ?case
    by (intro solo_goroutine [OF go_store(2)]) (auto simp: solo_simps)
next
  case (go_exit s)
  then show ?case
    by (intro solo_goroutine [OF go_exit(2)]) (auto simp: solo_simps)
qed

lemma solo_tick:
  assumes "solo_ok ops conn c st r s" "at s i pc"
  shows "solo_ok ops conn c st r (set_caller i (tick_caller pc) s)"
  using assms ctx_le_trans [OF _ ctx_le_tick]
  by (cases pc) (auto simp: solo_simps split: go_state.splits)

lemma solo_run:
  assumes "(solo_step ops)\<^sup>*\<^sup>* s s'" "solo_ok ops conn c st r s"
  shows "solo_ok ops conn c st r s'"
  using assms by induction (auto simp: solo_step_def intro: solo_prog_step solo_tick)

lemma solo_init_ok:
  "native conn \<noteq> None \<Longrightarrow> closeOnce conn = closeDone conn \<Longrightarrow> solo_ok ops conn c st r (solo_init conn (Entered c st r))"
  by (simp add: solo_simps solo_init_def close_init_def)

text \<open>
  C12. The sequential \<open>Close\<close> covers every schedule: from a connection on which no other call is
  under way, whenever a call has returned after any interleaving of its steps, the steps of its
  goroutine and the passing of time, then the goroutine is not running, and result and connection
  are those of the function \<open>Close\<close> for some race and some context that the caller's may have become.
\<close>

theorem Close_covers_every_schedule:
  assumes "native conn \<noteq> None" "closeOnce conn = closeDone conn"
    and "(solo_step ops)\<^sup>*\<^sup>* (solo_init conn (Entered c st r)) s"
    and "callers s = [pc]" "returned pc"
  shows "\<exists>race c'. ctx_le c c' \<and>
    Close ops race (Some c') st r (Some conn) = (call_result pc, Some (shared s)) \<and>
    goroutine s \<in> {GoNone, GoExited}"
proof -
  have ok: "solo_ok ops conn c st r s"
    by (rule solo_run [OF assms(3) solo_init_ok [OF assms(1,2)]])
  show ?thesis
  proof (cases pc)
    case (ReturnedEarly e)
    then show ?thesis using ok assms(4) by (auto simp: solo_simps)
  next
    case (ReturnedDone e)
    then show ?thesis
      using ok assms(4) Close_live(2) [of c conn st r ops]
      by (intro exI [of _ HandshakeFirst] exI [of _ c]) (auto simp: solo_simps)
  next
    case (ReturnedForced e)
    then obtain b cause fe where f: "e = force_result cause fe" "forced_in ops b st r conn = (fe, shared s)"
      and c: "close_rejects (Some c) (Some conn) st r = None" "ctx_Cause c = None" "goroutine s = GoExited"
      using ok assms(4) by (auto simp: solo_simps)
    let ?c = "\<lparr>ctx_ended = None, ctx_later = [Some (Canceled, cause)]\<rparr>"
    have "ctx_Cause ?c = None" "ctx_Cause (ctx_tick ?c) = Some cause" "ctx_le c ?c"
      using c(2) by (auto simp: ctx_Cause_def ctx_tick_def ctx_le_def)
    then show ?thesis
      using Close_live(1) [of ?c conn st r cause ops b fe "shared s"] c f ReturnedForced
        close_rejects_ctx [of ?c "Some conn" st r c]
      by (intro exI [of _ "ContextFirst b"] exI [of _ ?c]) simp
  qed (use assms(5) in auto)
qed

theorem Close_covers_every_schedule_witness:
  "\<exists>race c'. ctx_le background c' \<and>
     Close flag_ops race (Some c') 1000 [] (Some flag_conn) =
       (Some (PeerCloseError 1001), Some (shared run_end)) \<and>
     goroutine run_end \<in> {GoNone, GoExited}"
proof -
  have "(solo_step flag_ops)\<^sup>*\<^sup>* (close_init flag_conn [Entered background 1000 []]) run_end"
    using run_end_run(2) by (rule rtranclp_mono [THEN predicate2D, rotated]) (auto simp: solo_step_def)
  moreover have "close_init flag_conn [Entered background 1000 []] = solo_init flag_conn (Entered background 1000 [])"
    by (simp add: solo_init_def close_init_def flag_conn_def newConnection_def)
  moreover have "callers run_end = [ReturnedDone (Some (PeerCloseError 1001))]"
    by (simp add: run_end_def)
  ultimately show ?thesis
    using Close_covers_every_schedule [of flag_conn flag_ops background 1000 "[]" run_end]
    by (simp add: flag_conn_def newConnection_def)
qed

end
