(* ===== verification/Go_Net.thy ===== *)
theory Go_Net
  imports Go_Text
begin

text \<open>
  The address functions of Go's \<open>net\<close> and \<open>net/netip\<close> packages that decide whether a host is
  loopback: \<open>net.SplitHostPort\<close>, \<open>net.ParseIP\<close> and \<open>IP.IsLoopback\<close>. An address is its list of
  bytes, four for IPv4 and sixteen for IPv6.
\<close>

section \<open>Splitting host and port\<close>

fun index_of :: "char \<Rightarrow> string \<Rightarrow> nat option" where
  "index_of x [] = None"
| "index_of x (c # s) = (if c = x then Some 0 else map_option Suc (index_of x s))"

fun last_index_of :: "char \<Rightarrow> string \<Rightarrow> nat option" where
  "last_index_of x [] = None"
| "last_index_of x (c # s) =
     (case last_index_of x s of
        Some i \<Rightarrow> Some (Suc i)
      | None \<Rightarrow> if c = x then Some 0 else None)"

text \<open>\<open>None\<close> stands for every \<open>AddrError\<close>: the callers only test for an error.\<close>

definition split_host_port :: "string \<Rightarrow> (string \<times> string) option" where
  "split_host_port hp =
     (case last_index_of (CHR '':'') hp of
        None \<Rightarrow> None
      | Some i \<Rightarrow>
          (if hd hp = CHR ''['' then
             (case index_of (CHR '']'') hp of
                None \<Rightarrow> None
              | Some e \<Rightarrow>
                  if e + 1 \<noteq> i then None
                  else if CHR ''['' \<in> set (drop 1 hp) then None
                  else if CHR '']'' \<in> set (drop (e + 1) hp) then None
                  else Some (drop 1 (take e hp), drop (i + 1) hp))
           else if CHR '':'' \<in> set (take i hp) then None
           else if CHR ''['' \<in> set hp then None
           else if CHR '']'' \<in> set hp then None
           else Some (take i hp, drop (i + 1) hp)))"

section \<open>Parsing addresses\<close>

text \<open>
  \<open>parseIPv4Fields\<close>: \<open>val\<close> and \<open>len\<close> are the value and the number of digits of the current octet,
  \<open>octets\<close> the finished octets. A dot that is first, last or follows a dot sees \<open>len = 0\<close> or
  nothing after it.
\<close>

fun parse_ipv4_fields :: "string \<Rightarrow> nat \<Rightarrow> nat \<Rightarrow> nat list \<Rightarrow> nat list option" where
  "parse_ipv4_fields [] val len octets =
     (if length octets < 3 then None else Some (octets @ [val]))"
| "parse_ipv4_fields (c # s) val len octets =
     (if is_digit c then
        (if len = 1 \<and> val = 0 then None
         else let v = 10 * val + digit_val c in
              if 255 < v then None else parse_ipv4_fields s v (len + 1) octets)
      else if c = CHR ''.'' then
        (if len = 0 \<or> s = [] then None
         else if length octets = 3 then None
         else parse_ipv4_fields s 0 0 (octets @ [val]))
      else None)"

definition parse_ipv4 :: "string \<Rightarrow> nat list option" where
  "parse_ipv4 s = parse_ipv4_fields s 0 0 []"

definition hex_val :: "char \<Rightarrow> nat option" where
  "hex_val c =
     (if is_digit c then Some (digit_val c)
      else if CHR ''a'' \<le> c \<and> c \<le> CHR ''f'' then Some (of_char c - 87)
      else if CHR ''A'' \<le> c \<and> c \<le> CHR ''F'' then Some (of_char c - 55)
      else None)"

text \<open>
  One group: at most four hexadecimal digits; \<open>None\<close> when a fifth one follows. The result is the
  number of digits read, the value and the rest. Four digits never exceed 16 bits, so the
  overflow test of the source cannot fire.
\<close>

fun hex_group :: "string \<Rightarrow> nat \<Rightarrow> nat \<Rightarrow> (nat \<times> nat \<times> string) option" where
  "hex_group [] off acc = Some (off, acc, [])"
| "hex_group (c # s) off acc =
     (case hex_val c of
        None \<Rightarrow> Some (off, acc, c # s)
      | Some d \<Rightarrow> if 3 < off then None else hex_group s (off + 1) (16 * acc + d))"

text \<open>
  The loop of \<open>parseIPv6\<close>: \<open>ip\<close> holds the bytes read so far, so its length is the source's \<open>i\<close>;
  \<open>ell\<close> is the position of the \<open>::\<close>. The result is the bytes, the position and what is left of
  the string.
\<close>

function ipv6_loop ::
  "string \<Rightarrow> nat list \<Rightarrow> nat option \<Rightarrow> (nat list \<times> nat option \<times> string) option" where
  "ipv6_loop s ip ell =
     (if 16 \<le> length ip then Some (ip, ell, s)
      else
        (case hex_group s 0 0 of
           None \<Rightarrow> None
         | Some (off, acc, rest) \<Rightarrow>
             if off = 0 then None
             else if rest \<noteq> [] \<and> hd rest = CHR ''.'' then
               (if ell = None \<and> length ip \<noteq> 12 then None
                else if 16 < length ip + 4 then None
                else (case parse_ipv4 s of
                        None \<Rightarrow> None
                      | Some v4 \<Rightarrow> Some (ip @ v4, ell, [])))
             else
               (let ip' = ip @ [acc div 256, acc mod 256] in
                case rest of
                  [] \<Rightarrow> Some (ip', ell, [])
                | c # rest1 \<Rightarrow>
                    if c \<noteq> CHR '':'' then None
                    else (case rest1 of
                            [] \<Rightarrow> None
                          | d # rest2 \<Rightarrow>
                              if d = CHR '':'' then
                                (if ell \<noteq> None then None
                                 else if rest2 = [] then Some (ip', Some (length ip'), [])
                                 else ipv6_loop rest2 ip' (Some (length ip')))
                              else ipv6_loop (d # rest2) ip' ell))))"
  by pat_completeness auto
termination
  by (relation "measure (\<lambda>(s, ip, ell). 16 - length ip)") auto

declare ipv6_loop.simps [simp del]

text \<open>An explicit zone makes \<open>net.ParseIP\<close> fail, so every \<open>%\<close> is an error here.\<close>

definition parse_ipv6 :: "string \<Rightarrow> nat list option" where
  "parse_ipv6 s =
     (if CHR ''%'' \<in> set s then None
      else
        let (ell0, s0) = (if has_prefix s ''::'' then (Some 0, drop 2 s) else (None, s)) in
        if ell0 \<noteq> None \<and> s0 = [] then Some (replicate 16 0)
        else
          (case ipv6_loop s0 [] ell0 of
             None \<Rightarrow> None
           | Some (ip, ell, rest) \<Rightarrow>
               if rest \<noteq> [] then None
               else if length ip < 16 then
                 (case ell of
                    None \<Rightarrow> None
                  | Some p \<Rightarrow> Some (take p ip @ replicate (16 - length ip) 0 @ drop p ip))
               else if ell \<noteq> None then None
               else Some ip))"

fun first_sep :: "string \<Rightarrow> char option" where
  "first_sep [] = None"
| "first_sep (c # s) = (if c \<in> {CHR ''.'', CHR '':'', CHR ''%''} then Some c else first_sep s)"

text \<open>\<open>net.ParseIP\<close> through \<open>netip.ParseAddr\<close>: the first separator picks the address family.\<close>

definition parse_ip :: "string \<Rightarrow> nat list option" where
  "parse_ip s =
     (case first_sep s of
        None \<Rightarrow> None
      | Some c \<Rightarrow>
          if c = CHR ''.'' then parse_ipv4 s
          else if c = CHR '':'' then parse_ipv6 s
          else None)"

text \<open>
  \<open>IP.IsLoopback\<close>: \<open>127/8\<close>, also when mapped into IPv6 (\<open>To4\<close>), and \<open>::1\<close>.
\<close>

definition to4 :: "nat list \<Rightarrow> nat list option" where
  "to4 ip =
     (if length ip = 4 then Some ip
      else if length ip = 16 \<and> take 10 ip = replicate 10 0 \<and> ip ! 10 = 255 \<and> ip ! 11 = 255
      then Some (drop 12 ip)
      else None)"

definition is_loopback :: "nat list \<Rightarrow> bool" where
  "is_loopback ip =
     (case to4 ip of
        Some v4 \<Rightarrow> hd v4 = 127
      | None \<Rightarrow> ip = replicate 15 0 @ [1])"

section \<open>Facts\<close>

lemma last_index_of_Some:
  "last_index_of x s = Some i \<Longrightarrow> i < length s \<and> s ! i = x \<and> x \<notin> set (drop (Suc i) s)"
proof (induction s arbitrary: i)
  case (Cons c s)
  show ?case
  proof (cases "last_index_of x s")
    case None
    then have "x \<notin> set s" by (induction s) (auto split: option.splits if_splits)
    with Cons.prems None show ?thesis by (auto split: if_splits)
  next
    case (Some j)
    with Cons show ?thesis by auto
  qed
qed simp

lemma parse_ipv4_fields_length:
  "parse_ipv4_fields s v l fs = Some ip \<Longrightarrow> length fs \<le> 3 \<Longrightarrow> length ip = 4"
  by (induction s v l fs rule: parse_ipv4_fields.induct)
    (auto simp: Let_def split: if_splits)

lemma parse_ipv4_length: "parse_ipv4 s = Some ip \<Longrightarrow> length ip = 4"
  by (auto simp: parse_ipv4_def dest: parse_ipv4_fields_length)

lemma ipv6_loop_length:
  "ipv6_loop s ip ell = Some (ip', ell', r) \<Longrightarrow> even (length ip) \<Longrightarrow> length ip \<le> 16 \<Longrightarrow> length ip' \<le> 16"
proof (induction s ip ell rule: ipv6_loop.induct)
  case (1 s ip ell)
  note unfolded = "1.prems"(1) [unfolded ipv6_loop.simps [of s ip ell]]
  show ?case
  proof (cases "16 \<le> length ip")
    case True
    with unfolded "1.prems" show ?thesis by simp
  next
    case False
    with "1.prems"(2,3) have room: "length ip \<le> 14" by presburger
    obtain off acc rest where g: "hex_group s 0 0 = Some (off, acc, rest)" and off: "off \<noteq> 0"
      using unfolded False by (cases "hex_group s 0 0") (auto split: if_splits)
    let ?ip = "ip @ [acc div 256, acc mod 256]"
    note IH = "1.IH"(1,2) [OF False g refl refl off]
    show ?thesis
    proof (cases "rest \<noteq> [] \<and> hd rest = CHR ''.''")
      case True
      with unfolded False g off show ?thesis
        by (auto simp: parse_ipv4_length split: if_splits option.splits)
    next
      case no_dot: False
      show ?thesis
      proof (cases rest)
        case Nil
        with unfolded False g off no_dot room show ?thesis by auto
      next
        case (Cons c rest1)
        with unfolded False g off no_dot room IH "1.prems"(2) show ?thesis
          by (cases rest1) (auto simp: Let_def split: if_splits)
      qed
    qed
  qed
qed

lemma parse_ipv6_length: "parse_ipv6 s = Some ip \<Longrightarrow> length ip = 16"
proof -
  have bound: "ipv6_loop t [] e = Some (ip', e', r) \<Longrightarrow> length ip' \<le> 16" for t e ip' e' r
    using ipv6_loop_length [of t "[]" e ip' e' r] by simp
  assume "parse_ipv6 s = Some ip"
  then show ?thesis
    by (fastforce simp: parse_ipv6_def split: if_splits option.splits dest: bound)
qed

lemma parse_ip_length: "parse_ip s = Some ip \<Longrightarrow> length ip = 4 \<or> length ip = 16"
  by (auto simp: parse_ip_def split: option.splits if_splits
      dest: parse_ipv4_length parse_ipv6_length)

end
