(* ===== verification/Go_Path.thy ===== *)
theory Go_Path
  imports Go_Text
begin

text \<open>
  Go's \<open>path.Match\<close>, on which the origin patterns rest, with the UTF-8 decoding it uses. \<open>None\<close>
  is \<open>ErrBadPattern\<close>. The main fact is that whether a pattern is malformed does not depend on
  the name it is matched against, so checking a pattern against itself checks it for good.
\<close>

section \<open>UTF-8\<close>

definition byte_in :: "nat \<Rightarrow> nat \<Rightarrow> char \<Rightarrow> bool" where
  "byte_in lo hi c = (lo \<le> of_char c \<and> of_char c \<le> hi)"

definition rune_error :: nat where
  "rune_error = 0xFFFD"

text \<open>\<open>utf8.DecodeRuneInString\<close>: the code point and its size; an invalid byte has size one.\<close>

definition decode_rune :: "string \<Rightarrow> nat \<times> nat" where
  "decode_rune s =
     (case s of
        [] \<Rightarrow> (rune_error, 0)
      | a # s1 \<Rightarrow>
          let x = of_char a :: nat in
          if x < 0x80 then (x, 1)
          else (case s1 of
                  [] \<Rightarrow> (rune_error, 1)
                | b # s2 \<Rightarrow>
                    let y = of_char b mod 64 :: nat in
                    if byte_in 0xC2 0xDF a \<and> byte_in 0x80 0xBF b then ((x mod 32) * 64 + y, 2)
                    else (case s2 of
                            [] \<Rightarrow> (rune_error, 1)
                          | c # s3 \<Rightarrow>
                              let z = of_char c mod 64 :: nat in
                              if byte_in 0xE0 0xEF a \<and> byte_in 0x80 0xBF c \<and>
                                 (if x = 0xE0 then byte_in 0xA0 0xBF b
                                  else if x = 0xED then byte_in 0x80 0x9F b
                                  else byte_in 0x80 0xBF b)
                              then ((x mod 16) * 4096 + y * 64 + z, 3)
                              else (case s3 of
                                      [] \<Rightarrow> (rune_error, 1)
                                    | d # s4 \<Rightarrow>
                                        if byte_in 0xF0 0xF4 a \<and> byte_in 0x80 0xBF c \<and>
                                           byte_in 0x80 0xBF d \<and>
                                           (if x = 0xF0 then byte_in 0x90 0xBF b
                                            else if x = 0xF4 then byte_in 0x80 0x8F b
                                            else byte_in 0x80 0xBF b)
                                        then ((x mod 8) * 262144 + y * 4096 + z * 64 +
                                              of_char d mod 64, 4)
                                        else (rune_error, 1)))))"

lemma decode_rune_pos: "s \<noteq> [] \<Longrightarrow> 0 < snd (decode_rune s)"
  by (auto simp: decode_rune_def Let_def split: list.split)

section \<open>Character classes\<close>

definition get_esc :: "string \<Rightarrow> (nat \<times> string) option" where
  "get_esc chunk =
     (if chunk = [] \<or> hd chunk = CHR ''-'' \<or> hd chunk = CHR '']'' then None
      else
        let chunk1 = (if hd chunk = CHR 0x5C then tl chunk else chunk) in
        if chunk1 = [] then None
        else
          let (r, n) = decode_rune chunk1; nchunk = drop n chunk1 in
          if (r = rune_error \<and> n = 1) \<or> nchunk = [] then None else Some (r, nchunk))"

lemma get_esc_shorter: "get_esc chunk = Some (r, rest) \<Longrightarrow> length rest < length chunk"
  using decode_rune_pos [of chunk] decode_rune_pos [of "tl chunk"]
  by (cases chunk) (auto simp: get_esc_def Let_def split: if_splits prod.splits)

text \<open>The ranges of a class up to its closing bracket: the rest and whether \<open>r\<close> is in one.\<close>

function class_ranges :: "string \<Rightarrow> nat \<Rightarrow> nat \<Rightarrow> bool \<Rightarrow> (string \<times> bool) option" where
  "class_ranges chunk r nrange found =
     (if chunk \<noteq> [] \<and> hd chunk = CHR '']'' \<and> 0 < nrange then Some (tl chunk, found)
      else
        (case get_esc chunk of
           None \<Rightarrow> None
         | Some (lo, chunk1) \<Rightarrow>
             if hd chunk1 = CHR ''-'' then
               (case get_esc (tl chunk1) of
                  None \<Rightarrow> None
                | Some (hi, chunk2) \<Rightarrow>
                    class_ranges chunk2 r (nrange + 1) (found \<or> (lo \<le> r \<and> r \<le> hi)))
             else class_ranges chunk1 r (nrange + 1) (found \<or> lo = r)))"
  by pat_completeness auto
termination
proof (relation "measure (\<lambda>(chunk, r, nrange, found). length chunk)")
  fix chunk r nrange found x lo chunk1 x' hi chunk2
  assume "get_esc chunk = Some x" "(lo, chunk1) = x" "get_esc (tl chunk1) = Some x'"
    "(hi, chunk2) = x'"
  then show "((chunk2, r, nrange + 1, found \<or> lo \<le> r \<and> r \<le> hi), chunk, r, nrange, found)
      \<in> measure (\<lambda>(chunk, r, nrange, found). length chunk)"
    using get_esc_shorter [of chunk lo chunk1] get_esc_shorter [of "tl chunk1" hi chunk2] by auto
qed (auto dest: get_esc_shorter)

declare class_ranges.simps [simp del]

lemma class_ranges_shorter: "class_ranges chunk r n f = Some (rest, m) \<Longrightarrow> length rest < length chunk"
proof (induction chunk r n f rule: class_ranges.induct)
  case (1 chunk r n f)
  note unfolded = "1.prems" [unfolded class_ranges.simps [of chunk r n f]]
  show ?case
  proof (cases "chunk \<noteq> [] \<and> hd chunk = CHR '']'' \<and> 0 < n")
    case True
    with unfolded show ?thesis by auto
  next
    case False
    then obtain lo chunk1 where g: "get_esc chunk = Some (lo, chunk1)"
      using unfolded by (auto split: option.splits)
    show ?thesis
    proof (cases "hd chunk1 = CHR ''-''")
      case True
      with False g unfolded obtain hi chunk2 where g2: "get_esc (tl chunk1) = Some (hi, chunk2)"
        and rec: "class_ranges chunk2 r (n + 1) (f \<or> lo \<le> r \<and> r \<le> hi) = Some (rest, m)"
        by (auto split: option.splits)
      with "1.IH"(1) [OF False g refl True g2 refl] show ?thesis
        using get_esc_shorter [OF g] get_esc_shorter [OF g2] by simp
    next
      case no_dash: False
      with False g unfolded have "class_ranges chunk1 r (n + 1) (f \<or> lo = r) = Some (rest, m)"
        by (auto split: if_splits)
      with "1.IH"(2) [OF False g refl no_dash] show ?thesis
        using get_esc_shorter [OF g] by simp
    qed
  qed
qed

section \<open>Chunks\<close>

text \<open>
  \<open>matchChunk\<close>: \<open>None\<close> is a bad pattern, \<open>Some None\<close> no match, \<open>Some (Some rest)\<close> a match that
  leaves \<open>rest\<close> of the name. After a failure the chunk is still checked.
\<close>

function match_chunk :: "string \<Rightarrow> string \<Rightarrow> bool \<Rightarrow> string option option" where
  "match_chunk [] s failed = Some (if failed then None else Some s)"
| "match_chunk (c # chunk) s failed0 =
     (let failed = (failed0 \<or> s = []) in
      if c = CHR ''['' then
        (let (r, n) = (if failed then (0, 0) else decode_rune s);
             s' = drop n s;
             negated = (chunk \<noteq> [] \<and> hd chunk = CHR ''^'');
             chunk' = (if negated then tl chunk else chunk)
         in case class_ranges chunk' r 0 False of
              None \<Rightarrow> None
            | Some (rest, found) \<Rightarrow> match_chunk rest s' (failed \<or> found = negated))
      else if c = CHR ''?'' then
        match_chunk chunk (if failed then s else drop (snd (decode_rune s)) s)
          (failed \<or> hd s = CHR ''/'')
      else if c = CHR 0x5C then
        (case chunk of
           [] \<Rightarrow> None
         | d # chunk' \<Rightarrow> match_chunk chunk' (if failed then s else tl s) (failed \<or> d \<noteq> hd s))
      else match_chunk chunk (if failed then s else tl s) (failed \<or> c \<noteq> hd s))"
  by pat_completeness auto
termination
proof (relation "measure (\<lambda>(chunk, s, failed). length chunk)")
  fix c chunk s failed0 failed x r n s' negated chunk' x' rest found
  assume "negated = (chunk \<noteq> [] \<and> hd chunk = CHR ''^'')"
    "chunk' = (if negated then tl chunk else chunk)"
    "class_ranges chunk' r 0 False = Some x'" "(rest, found) = x'"
  then show "((rest, s', failed \<or> found = negated), c # chunk, s, failed0)
      \<in> measure (\<lambda>(chunk, s, failed). length chunk)"
    using class_ranges_shorter [of chunk' r 0 False rest found] by (auto split: if_splits)
qed auto

declare match_chunk.simps(2) [simp del]

fun scan_len :: "bool \<Rightarrow> string \<Rightarrow> nat" where
  "scan_len inrange [] = 0"
| "scan_len inrange (c # p) =
     (if c = CHR 0x5C then (case p of [] \<Rightarrow> 1 | d # p' \<Rightarrow> 2 + scan_len inrange p')
      else if c = CHR ''['' then Suc (scan_len True p)
      else if c = CHR '']'' then Suc (scan_len False p)
      else if c = CHR ''*'' \<and> \<not> inrange then 0
      else Suc (scan_len inrange p))"

definition scan_chunk :: "string \<Rightarrow> bool \<times> string \<times> string" where
  "scan_chunk pattern =
     (let p = dropWhile (\<lambda>c. c = CHR ''*'') pattern; i = scan_len False p
      in (p \<noteq> pattern, take i p, drop i p))"

lemma scan_len_pos:
  assumes "dropWhile (\<lambda>c. c = CHR ''*'') pattern = c # p"
  shows "0 < scan_len False (c # p)"
proof -
  have "c \<noteq> CHR ''*''"
    using assms hd_dropWhile [of "\<lambda>c. c = CHR ''*''" pattern] by auto
  then show ?thesis by (auto split: list.splits)
qed

lemma scan_chunk_shorter:
  assumes "pattern \<noteq> []" and "scan_chunk pattern = (star, chunk, rest)"
  shows "length rest < length pattern"
proof (cases "dropWhile (\<lambda>c. c = CHR ''*'') pattern")
  case Nil
  with assms show ?thesis by (auto simp: scan_chunk_def Let_def)
next
  case (Cons c p)
  have "length (c # p) \<le> length pattern"
    using length_dropWhile_le [of "\<lambda>c. c = CHR ''*''" pattern] Cons by simp
  with assms(2) Cons scan_len_pos [OF Cons] show ?thesis by (auto simp: scan_chunk_def Let_def)
qed

lemma scan_chunk_empty:
  assumes "scan_chunk pattern = (star, [], rest)"
  shows "rest = []"
proof (cases "dropWhile (\<lambda>c. c = CHR ''*'') pattern")
  case Nil
  with assms show ?thesis by (auto simp: scan_chunk_def Let_def)
next
  case (Cons c p)
  with assms scan_len_pos [OF Cons] show ?thesis by (simp add: scan_chunk_def Let_def)
qed

section \<open>Matching\<close>

fun star_search :: "string \<Rightarrow> bool \<Rightarrow> string \<Rightarrow> string option option" where
  "star_search chunk final [] = Some None"
| "star_search chunk final (c # name) =
     (if c = CHR ''/'' then Some None
      else
        (case match_chunk chunk name False of
           None \<Rightarrow> None
         | Some None \<Rightarrow> star_search chunk final name
         | Some (Some t) \<Rightarrow>
             if final \<and> t \<noteq> [] then star_search chunk final name else Some (Some t)))"

text \<open>The check of the remaining pattern before a mismatch is reported.\<close>

function check_rest :: "string \<Rightarrow> bool option" where
  "check_rest pattern =
     (if pattern = [] then Some False
      else
        (let (star, chunk, rest) = scan_chunk pattern in
         if match_chunk chunk [] False = None then None else check_rest rest))"
  by pat_completeness auto
termination
  by (relation "measure length") (auto dest: scan_chunk_shorter [OF _ sym])

declare check_rest.simps [simp del]

function path_match :: "string \<Rightarrow> string \<Rightarrow> bool option" where
  "path_match pattern name =
     (if pattern = [] then Some (name = [])
      else
        (let (star, chunk, rest) = scan_chunk pattern in
         if star \<and> chunk = [] then Some (CHR ''/'' \<notin> set name)
         else
           (case match_chunk chunk name False of
              None \<Rightarrow> None
            | Some m \<Rightarrow>
                if m \<noteq> None \<and> (the m = [] \<or> rest \<noteq> []) then path_match rest (the m)
                else if star then
                  (case star_search chunk (rest = []) name of
                     None \<Rightarrow> None
                   | Some (Some t) \<Rightarrow> path_match rest t
                   | Some None \<Rightarrow> check_rest rest)
                else check_rest rest)))"
  by pat_completeness auto
termination
  by (relation "measure (\<lambda>(pattern, name). length pattern)")
    (auto dest: scan_chunk_shorter [OF _ sym])

declare path_match.simps [simp del]

section \<open>Malformed patterns\<close>

text \<open>Neither the name nor an earlier mismatch decides whether a chunk is malformed.\<close>

lemma class_ranges_indep:
  "rel_option (\<lambda>x y. fst x = fst y) (class_ranges chunk r n f) (class_ranges chunk r' n f')"
proof (induction chunk r n f arbitrary: f' rule: class_ranges.induct)
  case (1 chunk r n f)
  show ?case
  proof (cases "chunk \<noteq> [] \<and> hd chunk = CHR '']'' \<and> 0 < n")
    case True
    then show ?thesis
      by (simp add: class_ranges.simps [of chunk r n f] class_ranges.simps [of chunk r' n f'])
  next
    case False
    show ?thesis
    proof (cases "get_esc chunk")
      case None
      with False show ?thesis
        by (auto simp: class_ranges.simps [of chunk r n f] class_ranges.simps [of chunk r' n f'])
    next
      case (Some x)
      obtain lo chunk1 where x: "x = (lo, chunk1)" by (cases x)
      with Some have g: "get_esc chunk = Some (lo, chunk1)" by simp
      show ?thesis
      proof (cases "hd chunk1 = CHR ''-''")
        case True
        with False g "1.IH"(1) [OF False Some x [symmetric] True] show ?thesis
          by (auto simp: class_ranges.simps [of chunk r n f] class_ranges.simps [of chunk r' n f']
              split: option.split)
      next
        case no_dash: False
        with False g "1.IH"(2) [OF False Some x [symmetric] no_dash] show ?thesis
          by (auto simp: class_ranges.simps [of chunk r n f] class_ranges.simps [of chunk r' n f'])
      qed
    qed
  qed
qed

definition bad_chunk :: "string \<Rightarrow> bool" where
  "bad_chunk chunk = (match_chunk chunk [] False = None)"

lemma match_class_bad:
  assumes IH: "\<And>rest s f. length rest < length chunk \<Longrightarrow> match_chunk rest s f = None \<longleftrightarrow> bad_chunk rest"
    and len: "length chunk' \<le> length chunk"
  shows "(case class_ranges chunk' r n False of None \<Rightarrow> None
        | Some (rest, found) \<Rightarrow> match_chunk rest s (g found)) = None \<longleftrightarrow>
      (case class_ranges chunk' 0 n False of None \<Rightarrow> True | Some (rest, found) \<Rightarrow> bad_chunk rest)"
proof -
  have "rel_option (\<lambda>x y. fst x = fst y) (class_ranges chunk' r n False) (class_ranges chunk' 0 n False)"
    by (rule class_ranges_indep)
  moreover have "length rest < length chunk" if "class_ranges chunk' r n False = Some (rest, m)" for rest m
    using class_ranges_shorter [OF that] len by simp
  ultimately show ?thesis
    by (cases "class_ranges chunk' r n False"; cases "class_ranges chunk' 0 n False") (auto simp: IH)
qed

definition class_body :: "string \<Rightarrow> string" where
  "class_body chunk = (if chunk \<noteq> [] \<and> hd chunk = CHR ''^'' then tl chunk else chunk)"

lemma match_chunk_Cons_bad:
  assumes IH: "\<And>rest s f. length rest \<le> length chunk \<Longrightarrow> match_chunk rest s f = None \<longleftrightarrow> bad_chunk rest"
  shows "match_chunk (c # chunk) s f = None \<longleftrightarrow>
      (if c = CHR ''['' then
         (case class_ranges (class_body chunk) 0 0 False of
            None \<Rightarrow> True | Some (rest, found) \<Rightarrow> bad_chunk rest)
       else if c = CHR 0x5C then chunk = [] \<or> bad_chunk (tl chunk)
       else bad_chunk chunk)"
proof (cases "c = CHR ''[''")
  case True
  have IH': "\<And>rest s f. length rest < length (c # chunk) \<Longrightarrow> match_chunk rest s f = None \<longleftrightarrow> bad_chunk rest"
    using IH by simp
  have "length (class_body chunk) \<le> length (c # chunk)" by (auto simp: class_body_def)
  note bad = match_class_bad [OF IH' this]
  define r where "r = (if f \<or> s = [] then 0 else fst (decode_rune s))"
  define s' where "s' = drop (if f \<or> s = [] then 0 else snd (decode_rune s)) s"
  define g where "g = (\<lambda>found. (f \<or> s = []) \<or> found = (chunk \<noteq> [] \<and> hd chunk = CHR ''^''))"
  have "match_chunk (c # chunk) s f =
      (case class_ranges (class_body chunk) r 0 False of None \<Rightarrow> None
       | Some (rest, found) \<Rightarrow> match_chunk rest s' (g found))"
    using True by (simp add: match_chunk.simps(2) Let_def case_prod_beta r_def s'_def g_def split: option.split flip: class_body_def)
  with True bad show ?thesis by (simp only: if_True refl)
next
  case False
  then show ?thesis
    by (simp add: match_chunk.simps(2) [of c chunk s f] Let_def IH split: list.split)
qed

lemma match_chunk_None_iff: "match_chunk chunk s f = None \<longleftrightarrow> bad_chunk chunk"
proof (induction chunk arbitrary: s f rule: length_induct)
  case (1 chunk)
  show ?case
  proof (cases chunk)
    case (Cons c rest)
    with 1 have "length r \<le> length rest \<Longrightarrow> match_chunk r s f = None \<longleftrightarrow> bad_chunk r" for r s f
      by simp
    note Cons_bad = match_chunk_Cons_bad [OF this]
    have "match_chunk (c # rest) s f = None \<longleftrightarrow> match_chunk (c # rest) [] False = None"
      by (rule trans [OF Cons_bad Cons_bad [symmetric]])
    then show ?thesis unfolding bad_chunk_def Cons .
  qed (simp add: bad_chunk_def)
qed

lemma star_search_bad: "star_search chunk final name = None \<Longrightarrow> bad_chunk chunk"
  by (induction chunk final name rule: star_search.induct)
    (auto simp: match_chunk_None_iff split: if_splits option.splits)

text \<open>A mismatch is only reported once the rest of the pattern has been checked.\<close>

lemma check_rest_Some: "check_rest pattern = Some b \<Longrightarrow> \<not> b"
proof (induction pattern rule: check_rest.induct)
  case (1 pattern)
  then show ?case
    by (subst (asm) (2) check_rest.simps) (auto split: if_splits prod.splits)
qed

theorem path_match_bad_iff: "path_match pattern name = None \<longleftrightarrow> check_rest pattern = None"
proof (induction pattern name rule: path_match.induct)
  case (1 pattern name)
  show ?case
  proof (cases "pattern = []")
    case True
    then show ?thesis by (simp add: path_match.simps check_rest.simps)
  next
    case False
    obtain star chunk rest where sc: "scan_chunk pattern = (star, chunk, rest)"
      by (cases "scan_chunk pattern")
    have check: "check_rest pattern = (if bad_chunk chunk then None else check_rest rest)"
      using False sc by (simp add: check_rest.simps [of pattern] bad_chunk_def)
    note IH = "1.IH" [OF False sc [symmetric] refl refl]
    show ?thesis
    proof (cases "star \<and> chunk = []")
      case True
      then have "rest = []"
        using sc scan_chunk_empty by blast
      with True False sc check show ?thesis
        by (simp add: path_match.simps [of pattern name] bad_chunk_def check_rest.simps)
    next
      case cont: False
      show ?thesis
      proof (cases "match_chunk chunk name False")
        case None
        then have "bad_chunk chunk" by (simp only: match_chunk_None_iff)
        with None False sc cont check show ?thesis
          by (auto simp: path_match.simps [of pattern name])
      next
        case (Some m)
        then have good: "\<not> bad_chunk chunk"
          by (metis match_chunk_None_iff option.distinct(1))
        then have search: "star_search chunk (rest = []) name \<noteq> None"
          using star_search_bad by blast
        have unfolded: "path_match pattern name =
            (if m \<noteq> None \<and> (the m = [] \<or> rest \<noteq> []) then path_match rest (the m)
             else if star then
               (case the (star_search chunk (rest = []) name) of
                  Some t \<Rightarrow> path_match rest t | None \<Rightarrow> check_rest rest)
             else check_rest rest)"
          using False sc cont Some search by (auto simp: path_match.simps [of pattern name])
        show ?thesis
        proof (cases "m \<noteq> None \<and> (the m = [] \<or> rest \<noteq> [])")
          case True
          with IH(1) [OF cont Some True] unfolded good check show ?thesis by simp
        next
          case no_match: False
          show ?thesis
          proof (cases "star \<and> the (star_search chunk (rest = []) name) \<noteq> None")
            case True
            then obtain t where t: "star_search chunk (rest = []) name = Some (Some t)"
              using search by auto
            with True IH(2) [OF cont Some no_match _ t refl] unfolded good check no_match
            show ?thesis by auto
          next
            case False
            with unfolded no_match good check show ?thesis by auto
          qed
        qed
      qed
    qed
  qed
qed

end
