(* ===== verification/Config.thy ===== *)
theory Config
  imports Go_Net Go_Path
begin

text \<open>
  \<open>config.go\<close>: the public configurations, their validation and normalization into the options of
  the native library, and the transport, header and TLS policy. Every function returns the first
  error the source returns. Durations are in nanoseconds and, like the limits, only compared, so
  they are \<^typ>\<open>int\<close>. \<open>url.Parse\<close>, \<open>URL.String\<close> and the process-wide default transport are
  parameters: the theorems hold for whatever they return.
\<close>

section \<open>Limits\<close>

definition defaultMaxMessageBytes :: int where "defaultMaxMessageBytes = 1048576"
definition maxMessageBytes :: int where "maxMessageBytes = 16777216"
definition defaultMaxConnections :: int where "defaultMaxConnections = 256"
definition maxConnections :: int where "maxConnections = 4096"
definition maxOriginPatterns :: nat where "maxOriginPatterns = 32"
definition maxSubprotocols :: nat where "maxSubprotocols = 32"
definition maxHeaderBytes :: nat where "maxHeaderBytes = 8192"
definition maxIdentityBytes :: nat where "maxIdentityBytes = 255"
definition maxAuthorizationBytes :: nat where "maxAuthorizationBytes = 4096"
definition defaultCompressionAt :: int where "defaultCompressionAt = 512"
definition millisecond :: int where "millisecond = 1000000"
definition defaultHandshakeTimeout :: int where "defaultHandshakeTimeout = 10000000000"
definition maxHandshakeTimeout :: int where "maxHandshakeTimeout = 30000000000"
definition defaultCloseTimeout :: int where "defaultCloseTimeout = 5000000000"
definition maxCloseTimeout :: int where "maxCloseTimeout = 30000000000"

lemmas limit_defs =
  defaultMaxMessageBytes_def maxMessageBytes_def defaultMaxConnections_def maxConnections_def
  maxOriginPatterns_def maxSubprotocols_def maxHeaderBytes_def maxIdentityBytes_def
  maxAuthorizationBytes_def defaultCompressionAt_def millisecond_def defaultHandshakeTimeout_def
  maxHandshakeTimeout_def defaultCloseTimeout_def maxCloseTimeout_def

section \<open>Configurations\<close>

text \<open>\<open>'a\<close> is the type of the caller's authentication callback; nil is \<open>None\<close>.\<close>

record 'a server_config =
  sc_OriginPatterns :: "string list"
  sc_Subprotocols :: "string list"
  sc_MaxMessageBytes :: int
  sc_MaxConnections :: int
  sc_Compression :: bool
  sc_CompressionAt :: int
  sc_CloseTimeout :: int
  sc_Authenticate :: "'a option"
  sc_AllowInsecure :: bool
  sc_AllowAnonymous :: bool
  sc_AllowAnyOrigin :: bool

text \<open>
  A header map in one iteration order: distinct names, each with its values. \<open>tls_other\<close> and
  \<open>tr_other\<close> stand for the fields that are copied and never read.
\<close>

type_synonym header = "(string \<times> string list) list"

record tls_config =
  tls_MinVersion :: nat
  tls_ServerName :: string
  tls_InsecureSkipVerify :: bool
  tls_other :: string

record client_config =
  cc_URL :: string
  cc_Header :: header
  cc_Subprotocols :: "string list"
  cc_TLSConfig :: "tls_config option"
  cc_MaxMessageBytes :: int
  cc_Compression :: bool
  cc_Authorization :: string
  cc_HandshakeTimeout :: int
  cc_AllowInsecure :: bool
  cc_AllowAnonymous :: bool

text \<open>The native library's options. Its ping and pong callbacks stay nil and are left out.\<close>

datatype compression_mode =
  CompressionDisabled | CompressionContextTakeover | CompressionNoContextTakeover

record accept_options =
  ao_Subprotocols :: "string list"
  ao_InsecureSkipVerify :: bool
  ao_OriginPatterns :: "string list"
  ao_CompressionMode :: compression_mode
  ao_CompressionThreshold :: int

record transport =
  tr_Proxy :: bool
  tr_TLSClientConfig :: "tls_config option"
  tr_other :: string

datatype redirect_policy = FollowRedirects | UseLastResponse

record http_client =
  hc_Transport :: transport
  hc_CheckRedirect :: redirect_policy

record dial_options =
  do_HTTPClient :: http_client
  do_HTTPHeader :: header
  do_Host :: string
  do_Subprotocols :: "string list"
  do_CompressionMode :: compression_mode
  do_CompressionThreshold :: int

record 'a normalized_server =
  ns_accept :: accept_options
  ns_maxMessage :: int
  ns_maxConnections :: int
  ns_closeTimeout :: int
  ns_authenticate :: "'a option"
  ns_allowInsecure :: bool

record normalized_client =
  nc_dial :: dial_options
  nc_url :: string
  nc_maxMessage :: int
  nc_handshakeTimeout :: int

section \<open>Tokens, limits and lists\<close>

definition token_matches :: "string \<Rightarrow> bool" where
  "token_matches s = (s \<noteq> [] \<and> list_all token_char s)"

definition validateServerAuthentication :: "'a server_config \<Rightarrow> go_error option" where
  "validateServerAuthentication c =
     (if sc_Authenticate c = None \<and> \<not> sc_AllowAnonymous c then
        Some (errors_new ''construct WebSocket handler: authentication is required unless anonymous access is explicit'')
      else if sc_Authenticate c \<noteq> None \<and> sc_AllowAnonymous c then
        Some (errors_new ''construct WebSocket handler: authentication and anonymous access are mutually exclusive'')
      else if sc_AllowAnyOrigin c \<and> sc_Authenticate c = None then
        Some (errors_new ''construct WebSocket handler: allow-any-origin requires authentication'')
      else None)"

definition normalizeMessageLimit :: "int \<Rightarrow> int res" where
  "normalizeMessageLimit limit =
     (if limit = 0 then Inr defaultMaxMessageBytes
      else if limit < 1 \<or> limit > maxMessageBytes then
        Inl (Errorf ''max message bytes must be between 1 and %d'' [AInt maxMessageBytes] [])
      else Inr limit)"

definition safe_origin :: "string \<Rightarrow> bool" where
  "safe_origin p =
     (\<not> (p = ''*'' \<or> p = [] \<or> length p > maxIdentityBytes \<or> trim_space p \<noteq> p \<or>
         contains_any p [CHR 0x00, CHR 0x0D, CHR 0x0A, CHR 0x09, CHR '' '']))"

text \<open>The loop over the sorted patterns; \<open>prior\<close> is \<open>normalized[index-1]\<close>.\<close>

fun check_origins :: "string option \<Rightarrow> string list \<Rightarrow> go_error option" where
  "check_origins prior [] = None"
| "check_origins prior (p # ps) =
     (if \<not> safe_origin p then
        Some (errors_new ''construct WebSocket handler: origin patterns must be exact safe host patterns'')
      else if path_match p p = None then
        Some (errors_new ''construct WebSocket handler: origin pattern is malformed'')
      else if prior = Some p then
        Some (Errorf ''construct WebSocket handler: duplicate origin pattern %q'' [AStr p] [])
      else check_origins (Some p) ps)"

definition normalizeOrigins :: "string list \<Rightarrow> bool \<Rightarrow> string list res" where
  "normalizeOrigins patterns allowAny =
     (if allowAny \<and> length patterns \<noteq> 0 then
        Inl (errors_new ''construct WebSocket handler: explicit origins and allow-any-origin are mutually exclusive'')
      else if length patterns > maxOriginPatterns then
        Inl (Errorf ''construct WebSocket handler: origin patterns must not exceed %d''
               [AInt (int maxOriginPatterns)] [])
      else
        let normalized = sort patterns in
        unless (check_origins None normalized) (Inr normalized))"

text \<open>The nested loop: each protocol against the token rule, then against the prior ones.\<close>

fun check_subprotocols :: "string list \<Rightarrow> string list \<Rightarrow> go_error option" where
  "check_subprotocols prior [] = None"
| "check_subprotocols prior (p # ps) =
     (if length p > maxIdentityBytes \<or> \<not> token_matches p then
        Some (errors_new ''WebSocket subprotocols must be portable HTTP tokens'')
      else if list_ex (\<lambda>q. p = q) prior then
        Some (Errorf ''duplicate WebSocket subprotocol %q'' [AStr p] [])
      else check_subprotocols (prior @ [p]) ps)"

definition normalizeSubprotocols :: "string list \<Rightarrow> string list res" where
  "normalizeSubprotocols protocols =
     (if length protocols > maxSubprotocols then
        Inl (Errorf ''WebSocket subprotocols must not exceed %d'' [AInt (int maxSubprotocols)] [])
      else unless (check_subprotocols [] protocols) (Inr protocols))"

definition normalizeCompression :: "bool \<Rightarrow> int \<Rightarrow> (compression_mode \<times> int) res" where
  "normalizeCompression enabled threshold =
     (if \<not> enabled then
        (if threshold \<noteq> 0 then
           Inl (errors_new ''construct WebSocket handler: compression threshold requires compression'')
         else Inr (CompressionDisabled, 0))
      else
        let t = (if threshold = 0 then defaultCompressionAt else threshold) in
        if t < 256 \<or> t > maxMessageBytes then
          Inl (Errorf ''construct WebSocket handler: compression threshold must be between 256 and %d''
                 [AInt maxMessageBytes] [])
        else Inr (CompressionNoContextTakeover, t))"

section \<open>The server configuration\<close>

definition normalizeServerConfig :: "'a server_config \<Rightarrow> 'a normalized_server res" where
  "normalizeServerConfig c =
     unless (validateServerAuthentication c)
     (case normalizeMessageLimit (sc_MaxMessageBytes c) of
        Inl err \<Rightarrow> Inl (wrap ''construct WebSocket handler: %w'' err)
      | Inr maximum \<Rightarrow>
          let conns = (if sc_MaxConnections c = 0 then defaultMaxConnections else sc_MaxConnections c) in
          if conns < 1 \<or> conns > maxConnections then
            Inl (Errorf ''construct WebSocket handler: max connections must be between 1 and %d''
                   [AInt maxConnections] [])
          else
            res_bind (normalizeOrigins (sc_OriginPatterns c) (sc_AllowAnyOrigin c)) (\<lambda>origins.
            res_bind (normalizeSubprotocols (sc_Subprotocols c)) (\<lambda>subprotocols.
            res_bind (normalizeCompression (sc_Compression c) (sc_CompressionAt c)) (\<lambda>(compression, threshold).
              let closeTimeout = (if sc_CloseTimeout c = 0 then defaultCloseTimeout else sc_CloseTimeout c) in
              if closeTimeout < millisecond \<or> closeTimeout > maxCloseTimeout then
                Inl (Errorf ''construct WebSocket handler: close timeout must be between 1ms and %s''
                       [AInt maxCloseTimeout] [])
              else
                Inr \<lparr>ns_accept =
                       \<lparr>ao_Subprotocols = subprotocols,
                        ao_InsecureSkipVerify = sc_AllowAnyOrigin c,
                        ao_OriginPatterns = origins,
                        ao_CompressionMode = compression,
                        ao_CompressionThreshold = threshold\<rparr>,
                     ns_maxMessage = maximum,
                     ns_maxConnections = conns,
                     ns_closeTimeout = closeTimeout,
                     ns_authenticate = sc_Authenticate c,
                     ns_allowInsecure = sc_AllowInsecure c\<rparr>))))"

section \<open>Authorization\<close>

definition normalizeAuthorization :: "string \<Rightarrow> bool \<Rightarrow> string res" where
  "normalizeAuthorization v allowAnonymous =
     (if v = [] then
        (if allowAnonymous then Inr []
         else Inl (errors_new ''construct WebSocket client: authorization is required unless anonymous access is explicit''))
      else if allowAnonymous then
        Inl (errors_new ''construct WebSocket client: authorization and anonymous access are mutually exclusive'')
      else if length v > maxAuthorizationBytes \<or> trim_space v \<noteq> v \<or>
              contains_any v [CHR 0x00, CHR 0x0D, CHR 0x0A, CHR 0x09] then
        Inl (errors_new ''construct WebSocket client: authorization is malformed'')
      else
        (case cut_at (CHR '' '') v of
           None \<Rightarrow> Inl (errors_new ''construct WebSocket client: authorization is malformed'')
         | Some (scheme, credential) \<Rightarrow>
             if \<not> token_matches scheme \<or> credential = [] \<or> has_prefix credential '' '' then
               Inl (errors_new ''construct WebSocket client: authorization is malformed'')
             else Inr v))"

section \<open>URLs\<close>

text \<open>
  What the code reads of a parsed \<open>url.URL\<close>; \<open>u_rest\<close> stands for path, query and flags, which
  \<open>URL.String\<close> prints.
\<close>

record url =
  u_Scheme :: string
  u_User :: "string option"
  u_Host :: string
  u_Fragment :: string
  u_rest :: string

text \<open>\<open>URL.Hostname\<close>: the host without a numeric port and without brackets.\<close>

definition url_hostname :: "url \<Rightarrow> string" where
  "url_hostname u =
     (let h = u_Host u;
          h1 = (case last_index_of (CHR '':'') h of
                  Some i \<Rightarrow> if list_all is_digit (drop (i + 1) h) then take i h else h
                | None \<Rightarrow> h)
      in if has_prefix h1 ''['' \<and> has_suffix h1 '']'' then drop 1 (take (length h1 - 1) h1) else h1)"

definition loopbackHost :: "string \<Rightarrow> bool" where
  "loopbackHost host =
     (if equal_fold_ascii host ''localhost'' then True
      else (case parse_ip host of None \<Rightarrow> False | Some address \<Rightarrow> is_loopback address))"

definition validateWebSocketScheme :: "string \<Rightarrow> bool \<Rightarrow> go_error option" where
  "validateWebSocketScheme scheme allowInsecure =
     (if scheme \<noteq> ''wss'' \<and> scheme \<noteq> ''ws'' then
        Some (errors_new ''construct WebSocket client: wss is required unless insecure local development is explicit'')
      else if scheme = ''ws'' \<and> \<not> allowInsecure then
        Some (errors_new ''construct WebSocket client: wss is required unless insecure local development is explicit'')
      else if scheme = ''wss'' \<and> allowInsecure then
        Some (errors_new ''construct WebSocket client: insecure mode is valid only for ws URLs'')
      else None)"

definition validateURLHost :: "string \<Rightarrow> go_error option" where
  "validateURLHost hostPort =
     (case split_host_port hostPort of
        None \<Rightarrow> Some (errors_new ''construct WebSocket client: URL host must include an exact port'')
      | Some (host, portText) \<Rightarrow>
          if host = [] then
            Some (errors_new ''construct WebSocket client: URL host must include an exact port'')
          else
            (case parse_uint16 portText of
               None \<Rightarrow> Some (errors_new ''construct WebSocket client: URL port must be between 1 and 65535'')
             | Some port \<Rightarrow>
                 if port = 0 then
                   Some (errors_new ''construct WebSocket client: URL port must be between 1 and 65535'')
                 else None))"

definition normalizeURL ::
  "(string \<Rightarrow> url option) \<Rightarrow> (url \<Rightarrow> string) \<Rightarrow> string \<Rightarrow> bool \<Rightarrow> (string \<times> url) res" where
  "normalizeURL parse_url url_string target allowInsecure =
     (if target = [] \<or> trim_space target \<noteq> target then
        Inl (errors_new ''construct WebSocket client: URL is required'')
      else
        (case parse_url target of
           None \<Rightarrow> Inl (errors_new ''construct WebSocket client: URL must be an exact ws/wss endpoint without credentials or fragment'')
         | Some parsed \<Rightarrow>
             if u_User parsed \<noteq> None \<or> u_Fragment parsed \<noteq> [] \<or> u_Host parsed = [] then
               Inl (errors_new ''construct WebSocket client: URL must be an exact ws/wss endpoint without credentials or fragment'')
             else
               unless (validateWebSocketScheme (u_Scheme parsed) allowInsecure)
               (if u_Scheme parsed = ''ws'' \<and> \<not> loopbackHost (url_hostname parsed) then
                  Inl (errors_new ''construct WebSocket client: insecure ws is restricted to loopback hosts'')
                else
                  unless (validateURLHost (u_Host parsed)) (Inr (url_string parsed, parsed)))))"

section \<open>TLS\<close>

definition tls12 :: nat where "tls12 = 771"

definition normalizeClientTLS :: "tls_config option \<Rightarrow> url \<Rightarrow> tls_config option res" where
  "normalizeClientTLS source target =
     (if u_Scheme target = ''ws'' then
        (if source \<noteq> None then
           Inl (errors_new ''construct WebSocket client: TLS configuration cannot be used with ws'')
         else Inr None)
      else
        let cloned = (case source of
                        None \<Rightarrow> \<lparr>tls_MinVersion = tls12, tls_ServerName = url_hostname target,
                                 tls_InsecureSkipVerify = False, tls_other = []\<rparr>
                      | Some c \<Rightarrow> c) in
        if tls_InsecureSkipVerify cloned then
          Inl (errors_new ''construct WebSocket client: TLS certificate verification is required'')
        else
          let cloned1 = (if tls_MinVersion cloned = 0 then cloned\<lparr>tls_MinVersion := tls12\<rparr> else cloned) in
          if tls_MinVersion cloned1 < tls12 then
            Inl (errors_new ''construct WebSocket client: TLS 1.2 or newer is required'')
          else Inr (Some cloned1))"

section \<open>Headers\<close>

definition isReservedHeader :: "string \<Rightarrow> bool" where
  "isReservedHeader name =
     (name \<in> {''Authorization'', ''Connection'', ''Cookie'', ''Host'', ''Origin'',
       ''Sec-Websocket-Accept'', ''Sec-Websocket-Extensions'', ''Sec-Websocket-Key'',
       ''Sec-Websocket-Protocol'', ''Sec-Websocket-Version'', ''Upgrade''})"

definition header_values :: "header \<Rightarrow> string \<Rightarrow> string list" where
  "header_values h k = (case map_of h k of None \<Rightarrow> [] | Some vs \<Rightarrow> vs)"

text \<open>Storing under a key of the map; a new key goes last in the iteration order.\<close>

fun header_put :: "string \<Rightarrow> string list \<Rightarrow> header \<Rightarrow> header" where
  "header_put k vs [] = [(k, vs)]"
| "header_put k vs ((k', vs') # h) = (if k' = k then (k, vs) # h else (k', vs') # header_put k vs h)"

definition header_append :: "string \<Rightarrow> string \<Rightarrow> header \<Rightarrow> header" where
  "header_append k v h = header_put k (header_values h k @ [v]) h"

definition header_set :: "string \<Rightarrow> string \<Rightarrow> header \<Rightarrow> header" where
  "header_set k v h = header_put (canonical_header_key k) [v] h"

text \<open>The inner loop over the values of one name, with the running total and the result map.\<close>

fun copy_values :: "string \<Rightarrow> string list \<Rightarrow> nat \<times> header \<Rightarrow> (nat \<times> header) res" where
  "copy_values canonical [] (tot, normalized) = Inr (tot, normalized)"
| "copy_values canonical (v # vs) (tot, normalized) =
     (if contains_any v [CHR 0x00, CHR 0x0D, CHR 0x0A] then
        Inl (errors_new ''construct WebSocket client: header value is invalid'')
      else
        let tot1 = tot + (length canonical + length v) in
        if tot1 > maxHeaderBytes then
          Inl (Errorf ''construct WebSocket client: headers exceed %d bytes'' [AInt (int maxHeaderBytes)] [])
        else copy_values canonical vs (tot1, header_append canonical v normalized))"

fun copy_headers :: "header \<Rightarrow> nat \<times> header \<Rightarrow> (nat \<times> header) res" where
  "copy_headers [] st = Inr st"
| "copy_headers ((name, vs) # source) st =
     (let canonical = canonical_header_key name in
      if canonical = [] \<or> canonical \<noteq> name \<or> isReservedHeader canonical then
        Inl (errors_new ''construct WebSocket client: headers must use canonical non-WebSocket names'')
      else res_bind (copy_values canonical vs st) (copy_headers source))"

definition normalizeHeaders :: "header \<Rightarrow> header res" where
  "normalizeHeaders source = res_bind (copy_headers source (0, [])) (\<lambda>(tot, normalized). Inr normalized)"

definition normalizedHeaderBytes :: "header \<Rightarrow> nat" where
  "normalizedHeaderBytes h =
     sum_list (map (\<lambda>(name, vs). sum_list (map (\<lambda>v. length name + length v) vs)) h)"

section \<open>The client configuration\<close>

definition with_authorization :: "string \<Rightarrow> header \<Rightarrow> header res" where
  "with_authorization authorization headers =
     (if authorization \<noteq> [] then
        (if normalizedHeaderBytes headers + length ''Authorization'' + length authorization > maxHeaderBytes then
           Inl (Errorf ''construct WebSocket client: headers exceed %d bytes'' [AInt (int maxHeaderBytes)] [])
         else Inr (header_set ''Authorization'' authorization headers))
      else Inr headers)"

definition normalizeClientConfig ::
  "(string \<Rightarrow> url option) \<Rightarrow> (url \<Rightarrow> string) \<Rightarrow> transport option \<Rightarrow> client_config \<Rightarrow> normalized_client res" where
  "normalizeClientConfig parse_url url_string defaultTransport c =
     res_bind (normalizeURL parse_url url_string (cc_URL c) (cc_AllowInsecure c)) (\<lambda>(target, parsed).
     (case normalizeMessageLimit (cc_MaxMessageBytes c) of
        Inl err \<Rightarrow> Inl (wrap ''construct WebSocket client: %w'' err)
      | Inr maximum \<Rightarrow>
     (case normalizeSubprotocols (cc_Subprotocols c) of
        Inl err \<Rightarrow> Inl (wrap ''construct WebSocket client: %w'' err)
      | Inr subprotocols \<Rightarrow>
     res_bind (normalizeHeaders (cc_Header c)) (\<lambda>headers.
     res_bind (normalizeAuthorization (cc_Authorization c) (cc_AllowAnonymous c)) (\<lambda>authorization.
     res_bind (with_authorization authorization headers) (\<lambda>headers1.
     res_bind (normalizeClientTLS (cc_TLSConfig c) parsed) (\<lambda>tls.
       let compression = (if cc_Compression c then CompressionNoContextTakeover else CompressionDisabled);
           handshake = (if cc_HandshakeTimeout c = 0 then defaultHandshakeTimeout else cc_HandshakeTimeout c) in
       if handshake < millisecond \<or> handshake > maxHandshakeTimeout then
         Inl (Errorf ''construct WebSocket client: handshake timeout must be between 1ms and %s''
                [AInt maxHandshakeTimeout] [])
       else
         (case defaultTransport of
            None \<Rightarrow> Inl (errors_new ''construct WebSocket client: default HTTP transport is unavailable'')
          | Some t \<Rightarrow>
              Inr \<lparr>nc_dial =
                     \<lparr>do_HTTPClient =
                        \<lparr>hc_Transport = t\<lparr>tr_Proxy := False, tr_TLSClientConfig := tls\<rparr>,
                         hc_CheckRedirect = UseLastResponse\<rparr>,
                      do_HTTPHeader = headers1,
                      do_Host = [],
                      do_Subprotocols = subprotocols,
                      do_CompressionMode = compression,
                      do_CompressionThreshold = 0\<rparr>,
                   nc_url = target,
                   nc_maxMessage = maximum,
                   nc_handshakeTimeout = handshake\<rparr>))))))))"

section \<open>Observers\<close>

text \<open>
  \<open>nilInterface\<close> looks at the dynamic kind of an interface value by reflection. \<open>KindOther\<close> is
  every kind outside the switch.
\<close>

datatype kind = KindChan | KindFunc | KindInterface | KindMap | KindPointer | KindSlice | KindOther

datatype 'v iface = NilIface | Iface kind bool 'v

fun nilInterface :: "'v iface \<Rightarrow> bool" where
  "nilInterface NilIface = True"
| "nilInterface (Iface k isnil v) =
     (if k \<in> {KindChan, KindFunc, KindInterface, KindMap, KindPointer, KindSlice} then isnil else False)"

fun validateObservers_from :: "nat \<Rightarrow> 'v iface list \<Rightarrow> go_error option" where
  "validateObservers_from index [] = None"
| "validateObservers_from index (ob # obs) =
     (if nilInterface ob then
        Some (Errorf ''construct WebSocket integration: observer %d is nil'' [AInt (int index)] [])
      else validateObservers_from (index + 1) obs)"

definition validateObservers :: "'v iface list \<Rightarrow> go_error option" where
  "validateObservers obs = validateObservers_from 0 obs"

end
