(* ===== verification/Observer.thy ===== *)
theory Observer
  imports Go_Prelude
begin

text \<open>
  Model of \<open>observer.go\<close>: the payload-free facts of a session and the two-phase notification of
  observers. An observer is application code; here it is the function from the facts it receives to
  the finisher it returns (\<open>None\<close> for a nil finisher). Calling a finisher is an event of the log
  that \<open>finish\<close> returns.
\<close>

datatype direction = DirectionClient | DirectionServer

record interaction =
  in_Direction :: direction
  in_Subprotocol :: string

datatype outcome = OutcomeNormal | OutcomeCanceled | OutcomeFailed

record result =
  re_Interaction :: interaction
  re_Outcome :: outcome
  re_Duration :: int

type_synonym 'f observer = "ctx \<Rightarrow> interaction \<Rightarrow> 'f option"

fun beginObservers :: "ctx \<Rightarrow> interaction \<Rightarrow> 'f observer list \<Rightarrow> 'f list" where
  "beginObservers c i [] = []"
| "beginObservers c i (observer # observers) =
     (case observer c i of
        Some finish \<Rightarrow> finish # beginObservers c i observers
      | None \<Rightarrow> beginObservers c i observers)"

text \<open>The function that \<open>beginObservers\<close> returns: it runs the finishers from the last to the first.\<close>

definition finishObservers :: "'f list \<Rightarrow> result \<Rightarrow> ('f \<times> result) list" where
  "finishObservers finishers result = map (\<lambda>finish. (finish, result)) (rev finishers)"

lemma beginObservers_filter:
  "beginObservers c i obs = List.map_filter (\<lambda>ob. ob c i) obs"
  by (induction obs) (auto simp: List.map_filter_def split: option.split)

lemma beginObservers_length: "length (beginObservers c i obs) \<le> length obs"
  by (induction obs) (auto split: option.split)

end
