(* ===== verification/Server.thy ===== *)
theory Server
  imports Config Connection Observer
begin

text \<open>
  Model of \<open>server.go\<close>. Application code (authentication, the session handler, observers) and
  \<open>nativews.Accept\<close> are arguments. \<open>ServeHTTP\<close> is one function over the handler's counters; it
  returns the log of what it did, in order, so that the order of admission checks, notification,
  handling, closing and release is part of the model. A panic of the session handler unwinds
  through the deferred releases.
\<close>

section \<open>Requests\<close>

text \<open>What the code reads of an \<open>http.Request\<close>; \<open>rq_TLS\<close> says whether the TLS state is non-nil.\<close>

record request =
  rq_Method :: string
  rq_ProtoMajor :: int
  rq_ProtoMinor :: int
  rq_Host :: string
  rq_RemoteAddr :: string
  rq_TLS :: bool
  rq_Header :: header
  rq_Context :: ctx

definition unbracket :: "string \<Rightarrow> string" where
  "unbracket s = trim_cut ''[]'' s"

definition loopbackRequest :: "request \<Rightarrow> bool" where
  "loopbackRequest request =
     (let host = (case split_host_port (rq_Host request) of
                    Some (parsedHost, port) \<Rightarrow> parsedHost
                  | None \<Rightarrow> rq_Host request) in
      if \<not> loopbackHost (unbracket host) then False
      else
        (case split_host_port (rq_RemoteAddr request) of
           None \<Rightarrow> False
         | Some (remoteHost, port) \<Rightarrow> loopbackHost (unbracket remoteHost)))"

section \<open>Outcomes\<close>

definition serverOutcome :: "ctx \<Rightarrow> go_error option \<Rightarrow> outcome \<times> int" where
  "serverOutcome c handlerErr =
     (if ctx_Cause c \<noteq> None then (OutcomeCanceled, StatusGoingAway)
      else
        (case handlerErr of
           None \<Rightarrow> (OutcomeNormal, StatusNormalClosure)
         | Some err \<Rightarrow>
             if (case as_peer_close err of
                   Some s \<Rightarrow> s = StatusNormalClosure \<or> s = StatusGoingAway
                 | None \<Rightarrow> False)
             then (OutcomeNormal, StatusNormalClosure)
             else if CloseStatus err = StatusNormalClosure \<or> CloseStatus err = StatusGoingAway
             then (OutcomeNormal, StatusNormalClosure)
             else (OutcomeFailed, StatusInternalError)))"

section \<open>The handler\<close>

type_synonym authenticate = "ctx \<Rightarrow> request \<Rightarrow> go_error option"

text \<open>\<open>hd_slots\<close> is the number of values in the channel \<open>slots\<close>, whose capacity is \<open>hd_capacity\<close>.\<close>

record 'f handler =
  hd_config :: "authenticate normalized_server"
  hd_observers :: "'f observer iface list"
  hd_capacity :: int
  hd_slots :: int
  hd_active :: int

definition NewHandler ::
  "authenticate server_config \<Rightarrow> bool \<Rightarrow> 'f observer iface list \<Rightarrow> 'f handler res" where
  "NewHandler config handle_nil observers =
     (if handle_nil then
        Inl (errors_new ''construct WebSocket handler: session handler is nil'')
      else
        res_bind (normalizeServerConfig config) (\<lambda>normalized.
        unless (validateObservers observers)
          (Inr \<lparr>hd_config = normalized,
                hd_observers = observers,
                hd_capacity = ns_maxConnections normalized,
                hd_slots = 0,
                hd_active = 0\<rparr>)))"

definition Active :: "'f handler option \<Rightarrow> int" where
  "Active handler = (case handler of None \<Rightarrow> 0 | Some hdl \<Rightarrow> hd_active hdl)"

text \<open>The methods behind the interface values; \<open>validateObservers\<close> lets no nil value through.\<close>

fun methods :: "'v iface list \<Rightarrow> 'v list" where
  "methods [] = []"
| "methods (NilIface # obs) = methods obs"
| "methods (Iface k isnil v # obs) = v # methods obs"

section \<open>ServeHTTP\<close>

datatype session_end = Returned "go_error option" | Panicked

datatype 'f event =
    HTTPError int string
  | Authenticated
  | SlotTaken
  | Accepted
  | Activated
  | Began interaction "'f list"
  | Handled session_end
  | Closed int "go_error option"
  | ForceClosed "go_error option"
  | Finished 'f result
  | Deactivated
  | SlotReleased

text \<open>
  The code outside the handler: \<open>nativews.Accept\<close>, the session handler (which returns how it
  ended, the connection it leaves and the context as it is then), and, per request, the timeline
  of the close context, the race inside \<open>Close\<close> and the duration read from the clock.
\<close>

record 'n server_env =
  env_Accept :: "request \<Rightarrow> accept_options \<Rightarrow> 'n res"
  env_handle :: "ctx \<Rightarrow> 'n connection \<Rightarrow> session_end \<times> 'n connection \<times> ctx"
  env_closeContext :: ctx
  env_race :: race
  env_duration :: int

text \<open>The checks before a slot is asked for: the refusal, if any, and the log.\<close>

definition admission :: "'f handler \<Rightarrow> request \<Rightarrow> (int \<times> string) option \<times> 'f event list" where
  "admission hdl request =
     (if \<not> rq_TLS request \<and> (\<not> ns_allowInsecure (hd_config hdl) \<or> \<not> loopbackRequest request) then
        (Some (426, ''secure WebSocket transport required''), [])
      else
        (case ns_authenticate (hd_config hdl) of
           Some authenticate \<Rightarrow>
             if authenticate (rq_Context request) request \<noteq> None then
               (Some (401, ''WebSocket authentication failed''), [])
             else (None, [Authenticated])
         | None \<Rightarrow> (None, [])))"

text \<open>The end of a session whose handler has returned: close, force the close if that fails, notify.\<close>

definition end_session ::
  "'n native_ops \<Rightarrow> 'n server_env \<Rightarrow> interaction \<Rightarrow> 'f list \<Rightarrow> ctx \<Rightarrow> go_error option \<Rightarrow> 'n connection \<Rightarrow>
   'n connection option \<times> 'f event list" where
  "end_session ops env interaction finishers c handlerErr conn =
     (let (outcome, status) = serverOutcome c handlerErr;
          (closeErr, h) = Close ops (env_race env) (Some (env_closeContext env)) status [] (Some conn);
          (outcome1, h1, forced) =
            (case closeErr of
               None \<Rightarrow> (outcome, h, [])
             | Some err \<Rightarrow>
                 let (forceErr, h') = closeNow ops h in
                 (if forceErr \<noteq> None then OutcomeFailed else outcome, h', [ForceClosed forceErr]));
          result = \<lparr>re_Interaction = interaction, re_Outcome = outcome1, re_Duration = env_duration env\<rparr>
      in (h1, Closed status closeErr # forced @ map (\<lambda>(f, r). Finished f r) (finishObservers finishers result)))"

text \<open>From the accepted native connection to the return of \<open>ServeHTTP\<close> or the panic.\<close>

definition run_session ::
  "'n native_ops \<Rightarrow> 'n server_env \<Rightarrow> 'f handler \<Rightarrow> request \<Rightarrow> 'n \<Rightarrow> 'n connection option \<times> 'f event list" where
  "run_session ops env hdl request n =
     (let connection = newConnection ops n (ns_maxMessage (hd_config hdl));
          interaction = \<lparr>in_Direction = DirectionServer, in_Subprotocol = Subprotocol ops (Some connection)\<rparr>;
          finishers = beginObservers (rq_Context request) interaction (methods (hd_observers hdl));
          (how, conn, c) = env_handle env (rq_Context request) connection;
          (h, log) = (case how of
                        Panicked \<Rightarrow> (Some conn, [])
                      | Returned handlerErr \<Rightarrow> end_session ops env interaction finishers c handlerErr conn)
      in (h, Began interaction finishers # Handled how # log))"

definition ServeHTTP ::
  "'n native_ops \<Rightarrow> 'n server_env \<Rightarrow> 'f handler option \<Rightarrow> request option \<Rightarrow>
   'f handler option \<times> 'n connection option \<times> 'f event list" where
  "ServeHTTP ops env handler request =
     (case (handler, request) of
        (Some hdl, Some rq) \<Rightarrow>
          (case admission hdl rq of
             (Some (status, message), log) \<Rightarrow> (Some hdl, None, log @ [HTTPError status message])
           | (None, log) \<Rightarrow>
               if hd_slots hdl < hd_capacity hdl then
                 let hdl1 = hdl\<lparr>hd_slots := hd_slots hdl + 1\<rparr> in
                 (case env_Accept env rq (ns_accept (hd_config hdl)) of
                    Inl err \<Rightarrow>
                      (Some (hdl1\<lparr>hd_slots := hd_slots hdl1 - 1\<rparr>), None, log @ [SlotTaken, SlotReleased])
                  | Inr n \<Rightarrow>
                      let hdl2 = hdl1\<lparr>hd_active := hd_active hdl1 + 1\<rparr>;
                          (h, session) = run_session ops env hdl2 rq n;
                          hdl3 = hdl2\<lparr>hd_active := hd_active hdl2 - 1\<rparr>;
                          hdl4 = hdl3\<lparr>hd_slots := hd_slots hdl3 - 1\<rparr> in
                      (Some hdl4, h, log @ [SlotTaken, Accepted, Activated] @ session @ [Deactivated, SlotReleased]))
               else (Some hdl, None, log @ [HTTPError 503 ''WebSocket capacity exhausted'']))
      | _ \<Rightarrow> (handler, None, [HTTPError 503 ''WebSocket handler unavailable'']))"

end
