(* ===== verification/Config_Policy.thy ===== *)
theory Config_Policy
  imports Config
begin

text \<open>
  What the normalization of \<open>config.go\<close> guarantees: a declarative description of the accepted
  server configurations and of their normal form, with the proof that the code accepts exactly
  those; and the fail-closed policy of the client (transport, TLS, credentials, headers).
\<close>

section \<open>Origins\<close>

definition origin_ok :: "string \<Rightarrow> bool" where
  "origin_ok p = (safe_origin p \<and> check_rest p \<noteq> None)"

definition origins_valid :: "string list \<Rightarrow> bool \<Rightarrow> bool" where
  "origins_valid ps allowAny =
     ((allowAny \<longrightarrow> ps = []) \<and> length ps \<le> maxOriginPatterns \<and> distinct ps \<and> list_all origin_ok ps)"

text \<open>Among sorted patterns a duplicate is next to its copy, so looking one back finds them all.\<close>

lemma check_origins_None:
  "sorted ps \<Longrightarrow> (\<And>q. prior = Some q \<Longrightarrow> list_all (\<lambda>p. q \<le> p) ps) \<Longrightarrow>
   check_origins prior ps = None \<longleftrightarrow>
     list_all origin_ok ps \<and> distinct ps \<and> (\<forall>q. prior = Some q \<longrightarrow> q \<notin> set ps)"
proof (induction prior ps rule: check_origins.induct)
  case (2 prior p ps)
  have rest: "list_all (\<lambda>x. p \<le> x) ps" and sorted: "sorted ps"
    using "2.prems"(1) by (simp_all add: list_all_iff)
  have prior: "\<And>q. prior = Some q \<Longrightarrow> q \<le> p \<and> list_all (\<lambda>x. q \<le> x) ps"
    using "2.prems"(2) by simp
  have absent: "q \<notin> set ps" if "prior = Some q" "q \<noteq> p" for q
    using rest prior [OF that(1)] that(2) by (auto simp: list_all_iff)
  show ?case
  proof (cases "origin_ok p \<and> prior \<noteq> Some p")
    case False
    then show ?thesis
      by (auto simp: origin_ok_def path_match_bad_iff)
  next
    case True
    then have "check_origins prior (p # ps) = check_origins (Some p) ps"
      by (auto simp: origin_ok_def path_match_bad_iff)
    moreover have "check_origins (Some p) ps = None \<longleftrightarrow> list_all origin_ok ps \<and> distinct ps \<and> p \<notin> set ps"
      using "2.IH" True sorted rest
      by (auto simp: origin_ok_def path_match_bad_iff list_all_iff)
    ultimately show ?thesis
      using True absent by auto
  qed
qed simp

lemma normalizeOrigins_Inr:
  "normalizeOrigins ps any = Inr ns \<longleftrightarrow> origins_valid ps any \<and> ns = sort ps"
proof -
  have "check_origins None (sort ps) = None \<longleftrightarrow> list_all origin_ok ps \<and> distinct ps"
    using check_origins_None [of "sort ps" None] by (simp add: list_all_iff)
  then show ?thesis
    by (auto simp: normalizeOrigins_def origins_valid_def Let_def unless_Inr)
qed

section \<open>Subprotocols\<close>

definition subprotocol_ok :: "string \<Rightarrow> bool" where
  "subprotocol_ok p = (length p \<le> maxIdentityBytes \<and> token_matches p)"

definition subprotocols_valid :: "string list \<Rightarrow> bool" where
  "subprotocols_valid ps = (length ps \<le> maxSubprotocols \<and> distinct ps \<and> list_all subprotocol_ok ps)"

lemma check_subprotocols_None:
  "check_subprotocols prior ps = None \<longleftrightarrow>
     list_all subprotocol_ok ps \<and> distinct ps \<and> set prior \<inter> set ps = {}"
  by (induction prior ps rule: check_subprotocols.induct)
    (auto simp: subprotocol_ok_def list_ex_iff)

lemma normalizeSubprotocols_Inr:
  "normalizeSubprotocols ps = Inr ns \<longleftrightarrow> subprotocols_valid ps \<and> ns = ps"
  by (auto simp: normalizeSubprotocols_def subprotocols_valid_def check_subprotocols_None unless_Inr)

section \<open>Limits\<close>

definition or_default :: "int \<Rightarrow> int \<Rightarrow> int" where
  "or_default d x = (if x = 0 then d else x)"

lemma or_default_range [simp]:
  "or_default defaultMaxConnections x < 1 \<longleftrightarrow> x < 0"
  "or_default defaultMaxConnections x > maxConnections \<longleftrightarrow> x > maxConnections"
  "or_default defaultCloseTimeout x < millisecond \<longleftrightarrow> x \<noteq> 0 \<and> x < millisecond"
  "or_default defaultCloseTimeout x > maxCloseTimeout \<longleftrightarrow> x > maxCloseTimeout"
  "or_default defaultHandshakeTimeout x < millisecond \<longleftrightarrow> x \<noteq> 0 \<and> x < millisecond"
  "or_default defaultHandshakeTimeout x > maxHandshakeTimeout \<longleftrightarrow> x > maxHandshakeTimeout"
  by (auto simp: or_default_def limit_defs)

lemma normalizeMessageLimit_Inr:
  "normalizeMessageLimit l = Inr m \<longleftrightarrow> 0 \<le> l \<and> l \<le> maxMessageBytes \<and> m = or_default defaultMaxMessageBytes l"
  by (auto simp: normalizeMessageLimit_def or_default_def limit_defs)

definition compression_valid :: "bool \<Rightarrow> int \<Rightarrow> bool" where
  "compression_valid enabled t =
     (if enabled then t = 0 \<or> (256 \<le> t \<and> t \<le> maxMessageBytes) else t = 0)"

lemma normalizeCompression_Inr:
  "normalizeCompression enabled t = Inr r \<longleftrightarrow>
     compression_valid enabled t \<and>
     r = (if enabled then (CompressionNoContextTakeover, or_default defaultCompressionAt t)
          else (CompressionDisabled, 0))"
  by (auto simp: normalizeCompression_def compression_valid_def or_default_def limit_defs)

lemma validateServerAuthentication_None:
  "validateServerAuthentication c = None \<longleftrightarrow>
     (sc_AllowAnonymous c \<longleftrightarrow> sc_Authenticate c = None) \<and>
     (sc_AllowAnyOrigin c \<longrightarrow> sc_Authenticate c \<noteq> None)"
  by (auto simp: validateServerAuthentication_def)

section \<open>The server contract\<close>

text \<open>The accepted configurations, in the vocabulary of the README, and their normal form.\<close>

definition server_valid :: "'a server_config \<Rightarrow> bool" where
  "server_valid c =
     ((sc_AllowAnonymous c \<longleftrightarrow> sc_Authenticate c = None) \<and>
      (sc_AllowAnyOrigin c \<longrightarrow> sc_Authenticate c \<noteq> None) \<and>
      0 \<le> sc_MaxMessageBytes c \<and> sc_MaxMessageBytes c \<le> maxMessageBytes \<and>
      0 \<le> sc_MaxConnections c \<and> sc_MaxConnections c \<le> maxConnections \<and>
      origins_valid (sc_OriginPatterns c) (sc_AllowAnyOrigin c) \<and>
      subprotocols_valid (sc_Subprotocols c) \<and>
      compression_valid (sc_Compression c) (sc_CompressionAt c) \<and>
      (sc_CloseTimeout c = 0 \<or> millisecond \<le> sc_CloseTimeout c \<and> sc_CloseTimeout c \<le> maxCloseTimeout))"

definition server_normal :: "'a server_config \<Rightarrow> 'a normalized_server" where
  "server_normal c =
     \<lparr>ns_accept =
        \<lparr>ao_Subprotocols = sc_Subprotocols c,
         ao_InsecureSkipVerify = sc_AllowAnyOrigin c,
         ao_OriginPatterns = sort (sc_OriginPatterns c),
         ao_CompressionMode =
           (if sc_Compression c then CompressionNoContextTakeover else CompressionDisabled),
         ao_CompressionThreshold =
           (if sc_Compression c then or_default defaultCompressionAt (sc_CompressionAt c) else 0)\<rparr>,
      ns_maxMessage = or_default defaultMaxMessageBytes (sc_MaxMessageBytes c),
      ns_maxConnections = or_default defaultMaxConnections (sc_MaxConnections c),
      ns_closeTimeout = or_default defaultCloseTimeout (sc_CloseTimeout c),
      ns_authenticate = sc_Authenticate c,
      ns_allowInsecure = sc_AllowInsecure c\<rparr>"

lemma case_wrap_Inr [res_simps]:
  "(case r of Inl e \<Rightarrow> Inl (w e) | Inr x \<Rightarrow> f x) = Inr y \<longleftrightarrow> (\<exists>x. r = Inr x \<and> f x = Inr y)"
  by (cases r) auto

lemma case_Some_Inr: "(case x of None \<Rightarrow> Inl e | Some t \<Rightarrow> f t) = Inr y \<longleftrightarrow> (\<exists>t. x = Some t \<and> f t = Inr y)"
  by (cases x) auto

lemma ex_pair: "(\<exists>p. P p \<and> (case p of (x, y) \<Rightarrow> f x y) = z) \<longleftrightarrow> (\<exists>x y. P (x, y) \<and> f x y = z)"
  by auto

lemma normalizeServerConfig_Inr:
  "normalizeServerConfig c = Inr n \<longleftrightarrow> server_valid c \<and> n = server_normal c"
proof -
  have timeout: "\<not> maxCloseTimeout < 0"
    by (simp add: limit_defs)
  show ?thesis
    unfolding normalizeServerConfig_def or_default_def [symmetric] Let_def
      unless_Inr case_wrap_Inr if_Inl_Inr res_bind_Inr
      validateServerAuthentication_None normalizeMessageLimit_Inr normalizeOrigins_Inr
      normalizeSubprotocols_Inr normalizeCompression_Inr server_valid_def server_normal_def
    by (cases "sc_Compression c") (auto simp: not_less timeout)
qed

text \<open>
  C1. \<open>normalizeServerConfig\<close> accepts exactly the configurations of the server contract and
  returns their normal form: authentication or anonymous access but never both or neither,
  any-origin only with authentication and without patterns, at most 32 distinct safe well-formed
  origin patterns (returned sorted), at most 32 distinct token subprotocols (order kept), and
  every limit inside its bounds after the defaults are filled in.
\<close>

theorem normalizeServerConfig_accepts_exactly:
  "normalizeServerConfig c = Inr n \<longleftrightarrow> server_valid c \<and> n = server_normal c"
  by (rule normalizeServerConfig_Inr)

section \<open>Header maps\<close>

lemma map_of_header_put: "map_of (header_put k vs h) = (map_of h)(k \<mapsto> vs)"
  by (induction k vs h rule: header_put.induct) (auto simp: fun_eq_iff)

lemma header_values_Cons [simp]:
  "header_values [] k = []"
  "header_values ((k', vs) # h) k = (if k = k' then vs else header_values h k)"
  by (simp_all add: header_values_def)

lemma header_values_absent: "k \<notin> fst ` set h \<Longrightarrow> header_values h k = []"
  by (simp add: header_values_def map_of_eq_None_iff [THEN iffD2])

lemma header_values_put [simp]:
  "header_values (header_put k vs h) k' = (if k' = k then vs else header_values h k')"
  by (simp add: header_values_def map_of_header_put)

lemma header_values_append [simp]:
  "header_values (header_append k v h) k' = header_values h k' @ (if k' = k then [v] else [])"
  by (simp add: header_append_def)

lemma fold_header_append_values [simp]:
  "header_values (fold (header_append k) vs h) k' = header_values h k' @ (if k' = k then vs else [])"
  by (induction vs arbitrary: h) auto

lemma normalizedHeaderBytes_Cons [simp]:
  "normalizedHeaderBytes [] = 0"
  "normalizedHeaderBytes ((k, vs) # h) =
     sum_list (map (\<lambda>v. length k + length v) vs) + normalizedHeaderBytes h"
  by (simp_all add: normalizedHeaderBytes_def)

lemma bytes_header_append [simp]:
  "normalizedHeaderBytes (header_append k v h) = normalizedHeaderBytes h + (length k + length v)"
  unfolding header_append_def
  by (induction h) (auto simp: header_values_def split: if_splits)

lemma bytes_header_put_le:
  "normalizedHeaderBytes (header_put k [v] h) \<le> normalizedHeaderBytes h + (length k + length v)"
  by (induction h) auto

section \<open>Copying the headers\<close>

definition value_ok :: "string \<Rightarrow> bool" where
  "value_ok v = (\<not> contains_any v [CHR 0x00, CHR 0x0D, CHR 0x0A])"

definition name_ok :: "string \<Rightarrow> bool" where
  "name_ok k = (k \<noteq> [] \<and> canonical_header_key k = k \<and> \<not> isReservedHeader k)"

definition headers_valid :: "header \<Rightarrow> bool" where
  "headers_valid h =
     (list_all (\<lambda>(k, vs). name_ok k \<and> list_all value_ok vs) h \<and> normalizedHeaderBytes h \<le> maxHeaderBytes)"

definition copied :: "header \<Rightarrow> header \<Rightarrow> header" where
  "copied h m = fold (\<lambda>(k, vs). fold (header_append k) vs) h m"

lemma copy_values_Inr:
  "t \<le> maxHeaderBytes \<Longrightarrow>
   copy_values k vs (t, m) = Inr (t', m') \<longleftrightarrow>
     list_all value_ok vs \<and> t' = t + sum_list (map (\<lambda>v. length k + length v) vs) \<and>
     t' \<le> maxHeaderBytes \<and> m' = fold (header_append k) vs m"
proof (induction k vs "(t, m)" arbitrary: t m rule: copy_values.induct)
  case (2 k v vs t m)
  show ?case
  proof (cases "value_ok v \<and> t + (length k + length v) \<le> maxHeaderBytes")
    case True
    with 2 show ?thesis by (simp add: value_ok_def Let_def add.assoc)
  next
    case False
    then show ?thesis by (auto simp: value_ok_def Let_def)
  qed
qed auto

lemma copy_headers_Inr:
  "t \<le> maxHeaderBytes \<Longrightarrow>
   copy_headers h (t, m) = Inr (t', m') \<longleftrightarrow>
     list_all (\<lambda>(k, vs). name_ok k \<and> list_all value_ok vs) h \<and>
     t' = t + normalizedHeaderBytes h \<and> t' \<le> maxHeaderBytes \<and> m' = copied h m"
proof (induction h arbitrary: t m)
  case (Cons kv h)
  obtain k vs where kv: "kv = (k, vs)" by (cases kv)
  have step: "copy_headers (kv # h) (t, m) = Inr (t', m') \<longleftrightarrow>
      name_ok k \<and> (\<exists>t1 m1. copy_values k vs (t, m) = Inr (t1, m1) \<and> copy_headers h (t1, m1) = Inr (t', m'))"
    by (auto simp: kv Let_def name_ok_def res_bind_Inr)
  show ?case
    unfolding step
    using Cons.prems Cons.IH
    by (auto simp: copy_values_Inr kv copied_def)
qed (auto simp: copied_def)

lemma normalizeHeaders_Inr: "normalizeHeaders h = Inr m \<longleftrightarrow> headers_valid h \<and> m = copied h []"
  by (auto simp: normalizeHeaders_def res_bind_Inr copy_headers_Inr headers_valid_def)

lemma header_values_copied:
  "distinct (map fst h) \<Longrightarrow> header_values (copied h m) k = header_values m k @ header_values h k"
  by (induction h arbitrary: m) (auto simp: copied_def header_values_absent)

lemma bytes_fold_append:
  "normalizedHeaderBytes (fold (header_append k) vs m) =
     normalizedHeaderBytes m + sum_list (map (\<lambda>v. length k + length v) vs)"
  by (induction vs arbitrary: m) auto

lemma bytes_copied: "normalizedHeaderBytes (copied h m) = normalizedHeaderBytes m + normalizedHeaderBytes h"
  by (induction h arbitrary: m) (auto simp: copied_def bytes_fold_append)

text \<open>
  The three errors of \<open>normalizeHeaders\<close>, each with the defect of the header that it reports.
\<close>

definition header_defect :: "header \<Rightarrow> go_error \<Rightarrow> bool" where
  "header_defect h e =
     (e = errors_new ''construct WebSocket client: headers must use canonical non-WebSocket names'' \<and>
        (\<exists>kv \<in> set h. \<not> name_ok (fst kv)) \<or>
      e = errors_new ''construct WebSocket client: header value is invalid'' \<and>
        (\<exists>kv \<in> set h. \<exists>v \<in> set (snd kv). \<not> value_ok v) \<or>
      e = Errorf ''construct WebSocket client: headers exceed %d bytes'' [AInt (int maxHeaderBytes)] [] \<and>
        normalizedHeaderBytes h > maxHeaderBytes)"

lemma copy_values_Inl:
  "copy_values k vs (t, m) = Inl e \<Longrightarrow>
     e = errors_new ''construct WebSocket client: header value is invalid'' \<and> (\<exists>v \<in> set vs. \<not> value_ok v) \<or>
     e = Errorf ''construct WebSocket client: headers exceed %d bytes'' [AInt (int maxHeaderBytes)] [] \<and>
       t + sum_list (map (\<lambda>v. length k + length v) vs) > maxHeaderBytes"
  by (induction k vs "(t, m)" arbitrary: t m rule: copy_values.induct)
    (auto simp: value_ok_def Let_def add.assoc split: if_splits)

lemma copy_headers_Inl:
  "t \<le> maxHeaderBytes \<Longrightarrow> copy_headers h (t, m) = Inl e \<Longrightarrow>
     e = errors_new ''construct WebSocket client: headers must use canonical non-WebSocket names'' \<and>
       (\<exists>kv \<in> set h. \<not> name_ok (fst kv)) \<or>
     e = errors_new ''construct WebSocket client: header value is invalid'' \<and>
       (\<exists>kv \<in> set h. \<exists>v \<in> set (snd kv). \<not> value_ok v) \<or>
     e = Errorf ''construct WebSocket client: headers exceed %d bytes'' [AInt (int maxHeaderBytes)] [] \<and>
       t + normalizedHeaderBytes h > maxHeaderBytes"
proof (induction h arbitrary: t m)
  case (Cons kv h)
  obtain k vs where kv: "kv = (k, vs)" by (cases kv)
  show ?case
  proof (cases "name_ok k")
    case False
    then show ?thesis using Cons.prems by (auto simp: kv Let_def name_ok_def split: if_splits)
  next
    case True
    show ?thesis
    proof (cases "copy_values k vs (t, m)")
      case (Inl e')
      with True Cons.prems have "e' = e" by (auto simp: kv Let_def name_ok_def res_bind_def)
      then show ?thesis using copy_values_Inl [OF Inl] by (auto simp: kv)
    next
      case (Inr st)
      obtain t1 m1 where st: "st = (t1, m1)" by (cases st)
      have t1: "t1 = t + sum_list (map (\<lambda>v. length k + length v) vs)" "t1 \<le> maxHeaderBytes"
        using Inr Cons.prems(1) by (simp_all add: st copy_values_Inr)
      have "copy_headers h (t1, m1) = Inl e"
        using True Inr Cons.prems(2) by (auto simp: kv st Let_def name_ok_def res_bind_def)
      from Cons.IH [OF t1(2) this] show ?thesis by (auto simp: kv t1(1) add.assoc)
    qed
  qed
qed simp

lemma normalizeHeaders_Inl: "normalizeHeaders h = Inl e \<Longrightarrow> header_defect h e"
  using copy_headers_Inl [of 0 h "[]" e]
  by (auto simp: normalizeHeaders_def header_defect_def res_bind_def split: sum.splits)

lemma header_defect_mset:
  assumes "mset h = mset h'"
  shows "header_defect h = header_defect h'"
proof -
  have "normalizedHeaderBytes h' = normalizedHeaderBytes h"
    unfolding normalizedHeaderBytes_def by (rule sum_list_mset_cong [OF assms(1) [symmetric]])
  then show ?thesis
    by (simp add: header_defect_def mset_eq_setD [OF assms] fun_eq_iff)
qed

lemma headers_valid_mset:
  assumes "mset h = mset h'"
  shows "headers_valid h = headers_valid h'"
proof -
  have "normalizedHeaderBytes h' = normalizedHeaderBytes h"
    unfolding normalizedHeaderBytes_def by (rule sum_list_mset_cong [OF assms(1) [symmetric]])
  then show ?thesis
    using mset_eq_setD [OF assms] by (simp add: headers_valid_def list_all_iff)
qed

text \<open>
  C2. Go iterates over the header map in an arbitrary order. Whether \<open>normalizeHeaders\<close> accepts a header does not depend
  on the order, and an accepted header is stored with exactly the caller's values under every name, whatever the
  order. Which error rejects a header may depend on it when there are several defects; but in every order the
  error is one that a defect of the header gives (a name, a value, or the total size), so
  a header with defects of one kind only is rejected with the same error in every order.
\<close>

theorem normalizeHeaders_any_order:
  assumes "distinct (map fst h)" and "mset h = mset h'"
  shows "case normalizeHeaders h of
      Inr m \<Rightarrow> (\<forall>k. header_values m k = header_values h k) \<and>
        (\<exists>m'. normalizeHeaders h' = Inr m' \<and> (\<forall>k. header_values m' k = header_values h k))
    | Inl e \<Rightarrow> header_defect h e \<and> (\<exists>e'. normalizeHeaders h' = Inl e' \<and> header_defect h e')"
proof -
  have dist': "distinct (map fst h')"
    using assms by (metis mset_eq_imp_distinct_iff mset_map)
  have "map_of h = map_of h'"
    using assms dist' by (metis map_of_inject_set mset_eq_setD)
  then have same: "header_values h k = header_values h' k" for k
    by (simp add: header_values_def)
  show ?thesis
  proof (cases "headers_valid h")
    case True
    then have "normalizeHeaders h = Inr (copied h [])" "normalizeHeaders h' = Inr (copied h' [])"
      by (simp_all add: normalizeHeaders_Inr headers_valid_mset [OF assms(2)])
    then show ?thesis
      using assms(1) dist' same by (simp add: header_values_copied)
  next
    case False
    then have "\<exists>e. normalizeHeaders h = Inl e" "\<exists>e. normalizeHeaders h' = Inl e"
      using headers_valid_mset [OF assms(2)] by (metis normalizeHeaders_Inr sum.exhaust)+
    then show ?thesis
      using normalizeHeaders_Inl header_defect_mset [OF assms(2)] by fastforce
  qed
qed

text \<open>A valid header, and one with two defects: its two orders give different errors.\<close>

theorem normalizeHeaders_any_order_witness:
  "(\<exists>m'. normalizeHeaders [(''X-B'', [''2'']), (''X-A'', [''1''])] = Inr m' \<and>
     (\<forall>k. header_values m' k = header_values [(''X-A'', [''1'']), (''X-B'', [''2''])] k)) \<and>
   (\<exists>e e'. normalizeHeaders [(''X-A'', [[CHR 0x0A]]), (''x-b'', [''2''])] = Inl e \<and>
      normalizeHeaders [(''x-b'', [''2'']), (''X-A'', [[CHR 0x0A]])] = Inl e' \<and> e \<noteq> e' \<and>
      header_defect [(''X-A'', [[CHR 0x0A]]), (''x-b'', [''2''])] e \<and>
      header_defect [(''X-A'', [[CHR 0x0A]]), (''x-b'', [''2''])] e')"
proof -
  let ?good = "[(''X-A'', [''1'']), (''X-B'', [''2''])]" and ?bad = "[(''X-A'', [[CHR 0x0A]]), (''x-b'', [''2''])]"
  have runs: "normalizeHeaders ?good = Inr ?good"
      "normalizeHeaders ?bad = Inl (errors_new ''construct WebSocket client: header value is invalid'')"
      "normalizeHeaders [(''x-b'', [''2'']), (''X-A'', [[CHR 0x0A]])] =
        Inl (errors_new ''construct WebSocket client: headers must use canonical non-WebSocket names'')"
    by code_simp+
  show ?thesis
    using normalizeHeaders_any_order [of ?good "[(''X-B'', [''2'']), (''X-A'', [''1''])]"]
      normalizeHeaders_any_order [of ?bad "[(''x-b'', [''2'']), (''X-A'', [[CHR 0x0A]])]"]
    by (simp add: runs errors_new_def)
qed

section \<open>The client contract\<close>

text \<open>RFC 7235 credentials as \<open>normalizeAuthorization\<close> accepts them: a token, one space, the rest.\<close>

definition credentials_ok :: "string \<Rightarrow> bool" where
  "credentials_ok v =
     (length v \<le> maxAuthorizationBytes \<and> trim_space v = v \<and>
      \<not> contains_any v [CHR 0x00, CHR 0x0D, CHR 0x0A, CHR 0x09] \<and>
      (\<exists>scheme credential. v = scheme @ CHR '' '' # credential \<and> token_matches scheme \<and>
         credential \<noteq> [] \<and> hd credential \<noteq> CHR '' ''))"

lemma token_no_space: "token_matches s \<Longrightarrow> CHR '' '' \<notin> set s"
proof
  assume "token_matches s" and "CHR '' '' \<in> set s"
  then have "token_char (CHR '' '')" by (auto simp: token_matches_def list_all_iff)
  then show False
    by (simp add: token_char_def is_upper_def is_lower_def is_digit_def less_eq_char_def)
qed

lemma normalizeAuthorization_Inr:
  "normalizeAuthorization v anon = Inr r \<longleftrightarrow>
     r = v \<and> (if v = [] then anon else \<not> anon \<and> credentials_ok v)"
proof (cases "v = [] \<or> anon")
  case True
  then show ?thesis by (auto simp: normalizeAuthorization_def)
next
  case False
  have first: "has_prefix c '' '' \<longleftrightarrow> c \<noteq> [] \<and> hd c = CHR '' ''" for c
    by (cases c) (auto simp: has_prefix_def)
  have cut: "(\<exists>s c. cut_at (CHR '' '') v = Some (s, c) \<and> token_matches s \<and> c \<noteq> [] \<and> hd c \<noteq> CHR '' '') \<longleftrightarrow>
      (\<exists>s c. v = s @ CHR '' '' # c \<and> token_matches s \<and> c \<noteq> [] \<and> hd c \<noteq> CHR '' '')"
    unfolding cut_at_Some by (metis token_no_space)
  show ?thesis
    using False cut
    by (cases "cut_at (CHR '' '') v")
      (auto simp: normalizeAuthorization_def credentials_ok_def first)
qed

lemma normalizeClientTLS_wss:
  "normalizeClientTLS src u = Inr r \<Longrightarrow> u_Scheme u \<noteq> ''ws'' \<Longrightarrow>
   \<exists>t. r = Some t \<and> \<not> tls_InsecureSkipVerify t \<and> tls12 \<le> tls_MinVersion t \<and>
     (case src of None \<Rightarrow> tls_ServerName t = url_hostname u
      | Some s \<Rightarrow> tls_ServerName t = tls_ServerName s \<and> tls_other t = tls_other s)"
  by (auto simp: normalizeClientTLS_def Let_def split: if_splits option.splits)

lemma normalizeClientTLS_ws:
  "u_Scheme u = ''ws'' \<Longrightarrow> normalizeClientTLS src u = Inr r \<longleftrightarrow> src = None \<and> r = None"
  by (auto simp: normalizeClientTLS_def)

lemma validateURLHost_None:
  "validateURLHost hp = None \<longleftrightarrow>
     (\<exists>h p port. split_host_port hp = Some (h, p) \<and> h \<noteq> [] \<and> parse_uint16 p = Some port \<and> 0 < port)"
  by (auto simp: validateURLHost_def split: option.splits)

lemma normalizeURL_Inr:
  "normalizeURL pu us t ins = Inr (s, u) \<longleftrightarrow>
     t \<noteq> [] \<and> trim_space t = t \<and> pu t = Some u \<and> s = us u \<and>
     u_User u = None \<and> u_Fragment u = [] \<and> u_Host u \<noteq> [] \<and>
     u_Scheme u = (if ins then ''ws'' else ''wss'') \<and>
     (ins \<longrightarrow> loopbackHost (url_hostname u)) \<and> validateURLHost (u_Host u) = None"
  by (auto simp: normalizeURL_def validateWebSocketScheme_def res_simps split: option.splits if_splits)

lemma with_authorization_Inr:
  "with_authorization a h = Inr h' \<Longrightarrow> normalizedHeaderBytes h \<le> maxHeaderBytes \<Longrightarrow>
   normalizedHeaderBytes h' \<le> maxHeaderBytes \<and>
   (\<forall>k. header_values h' k = (if k = ''Authorization'' \<and> a \<noteq> [] then [a] else header_values h k))"
proof -
  assume ok: "with_authorization a h = Inr h'" and le: "normalizedHeaderBytes h \<le> maxHeaderBytes"
  have canon: "canonical_header_key ''Authorization'' = ''Authorization''" by code_simp
  show ?thesis
    using ok le bytes_header_put_le [of "''Authorization''" a h]
    by (auto simp: with_authorization_def header_set_def canon split: if_splits)
qed

text \<open>A concrete secure endpoint, with \<open>url.Parse\<close> known on its one URL.\<close>

definition example_url :: url where
  "example_url = \<lparr>u_Scheme = ''wss'', u_User = None, u_Host = ''chat.example:443'', u_Fragment = [], u_rest = ''/ws''\<rparr>"

definition example_parse :: "string \<Rightarrow> url option" where
  "example_parse s = (if s = ''wss://chat.example:443/ws'' then Some example_url else None)"

definition example_transport :: transport where
  "example_transport = \<lparr>tr_Proxy = True, tr_TLSClientConfig = None, tr_other = []\<rparr>"

definition example_client :: client_config where
  "example_client =
     \<lparr>cc_URL = ''wss://chat.example:443/ws'', cc_Header = [(''X-Trace'', [''a'', ''b''])],
      cc_Subprotocols = [''chat.v1''], cc_TLSConfig = None, cc_MaxMessageBytes = 0, cc_Compression = True,
      cc_Authorization = ''Bearer t0ken'', cc_HandshakeTimeout = 0, cc_AllowInsecure = False,
      cc_AllowAnonymous = False\<rparr>"

lemma example_client_accepted:
  "\<exists>n. normalizeClientConfig example_parse u_Host (Some example_transport) example_client = Inr n"
proof -
  have "\<not> isl (normalizeClientConfig example_parse u_Host (Some example_transport) example_client)"
    by code_simp
  then show ?thesis by (auto simp: isl_def sum.case_eq_if) (metis sum.exhaust)
qed

text \<open>What an accepted client configuration has been through, and what it becomes.\<close>

lemma normalizeClientConfig_InrE:
  assumes "normalizeClientConfig pu us dt c = Inr n"
  obtains target parsed maximum subs hs a hs1 tls t where
    "normalizeURL pu us (cc_URL c) (cc_AllowInsecure c) = Inr (target, parsed)"
    "normalizeMessageLimit (cc_MaxMessageBytes c) = Inr maximum"
    "normalizeSubprotocols (cc_Subprotocols c) = Inr subs"
    "normalizeHeaders (cc_Header c) = Inr hs"
    "normalizeAuthorization (cc_Authorization c) (cc_AllowAnonymous c) = Inr a"
    "with_authorization a hs = Inr hs1"
    "normalizeClientTLS (cc_TLSConfig c) parsed = Inr tls"
    "n =
      \<lparr>nc_dial =
         \<lparr>do_HTTPClient =
            \<lparr>hc_Transport = t\<lparr>tr_Proxy := False, tr_TLSClientConfig := tls\<rparr>, hc_CheckRedirect = UseLastResponse\<rparr>,
          do_HTTPHeader = hs1, do_Host = [], do_Subprotocols = subs,
          do_CompressionMode = (if cc_Compression c then CompressionNoContextTakeover else CompressionDisabled),
          do_CompressionThreshold = 0\<rparr>,
       nc_url = target, nc_maxMessage = maximum,
       nc_handshakeTimeout = or_default defaultHandshakeTimeout (cc_HandshakeTimeout c)\<rparr>"
  using assms
  by (simp only: normalizeClientConfig_def or_default_def Let_def res_bind_Inr case_wrap_Inr if_Inl_Inr case_Some_Inr ex_pair
      sum.inject) (elim exE conjE, blast)

text \<open>
  C3. The client fails closed. Whatever \<open>url.Parse\<close>, \<open>URL.String\<close> and the default transport
  return, a configuration that \<open>normalizeClientConfig\<close> accepts dials either \<open>wss\<close> with a TLS
  configuration that verifies certificates and is at least TLS 1.2, or, with the explicit
  insecure flag and no TLS configuration, \<open>ws\<close> to a loopback host; the URL carries no user
  information and no fragment and has an explicit port; no proxy is used and no redirect is
  followed.
\<close>

theorem normalizeClientConfig_fails_closed:
  assumes "normalizeClientConfig pu us dt c = Inr n"
  shows "\<exists>u. pu (cc_URL c) = Some u \<and> nc_url n = us u \<and> u_User u = None \<and> u_Fragment u = [] \<and>
     validateURLHost (u_Host u) = None \<and>
     (let tr = hc_Transport (do_HTTPClient (nc_dial n)) in
      \<not> tr_Proxy tr \<and> hc_CheckRedirect (do_HTTPClient (nc_dial n)) = UseLastResponse \<and>
      (u_Scheme u = ''wss'' \<and> \<not> cc_AllowInsecure c \<and>
         (\<exists>t. tr_TLSClientConfig tr = Some t \<and> \<not> tls_InsecureSkipVerify t \<and> tls12 \<le> tls_MinVersion t)
       \<or> u_Scheme u = ''ws'' \<and> cc_AllowInsecure c \<and> loopbackHost (url_hostname u) \<and>
         cc_TLSConfig c = None \<and> tr_TLSClientConfig tr = None))"
proof -
  obtain s u tls where url: "normalizeURL pu us (cc_URL c) (cc_AllowInsecure c) = Inr (s, u)"
    and tls: "normalizeClientTLS (cc_TLSConfig c) u = Inr tls"
    and n: "nc_url n = s" "\<not> tr_Proxy (hc_Transport (do_HTTPClient (nc_dial n)))"
      "hc_CheckRedirect (do_HTTPClient (nc_dial n)) = UseLastResponse"
      "tr_TLSClientConfig (hc_Transport (do_HTTPClient (nc_dial n))) = tls"
    using assms by (auto elim!: normalizeClientConfig_InrE)
  show ?thesis
    using url tls n normalizeClientTLS_wss [OF tls] normalizeClientTLS_ws [of u "cc_TLSConfig c" tls]
    by (cases "cc_AllowInsecure c") (auto simp: normalizeURL_Inr Let_def)
qed

theorem normalizeClientConfig_fails_closed_witness:
  "\<exists>n. normalizeClientConfig example_parse u_Host (Some example_transport) example_client = Inr n \<and>
     (\<exists>t. tr_TLSClientConfig (hc_Transport (do_HTTPClient (nc_dial n))) = Some t \<and>
        \<not> tls_InsecureSkipVerify t \<and> tls12 \<le> tls_MinVersion t)"
proof -
  obtain n where n: "normalizeClientConfig example_parse u_Host (Some example_transport) example_client = Inr n"
    using example_client_accepted by blast
  from normalizeClientConfig_fails_closed [OF n] n show ?thesis
    by (auto simp: Let_def example_client_def)
qed

text \<open>
  C4. Credentials and headers of an accepted client configuration: exactly one of authorization
  and anonymous access is chosen; the handshake request carries the \<open>Authorization\<close> value of the
  configuration and nothing else under that name; no other reserved name (cookies, host, origin,
  upgrade and the WebSocket control headers) has a value; every other name has the caller's
  values; and the headers stay within 8 KiB. The caller's header is a map, so its names are
  distinct.
\<close>

theorem normalizeClientConfig_credentials:
  assumes "normalizeClientConfig pu us dt c = Inr n" and "distinct (map fst (cc_Header c))"
  shows "(cc_AllowAnonymous c \<longleftrightarrow> cc_Authorization c = []) \<and>
    (let h = do_HTTPHeader (nc_dial n) in
     normalizedHeaderBytes h \<le> maxHeaderBytes \<and>
     header_values h ''Authorization'' = (if cc_AllowAnonymous c then [] else [cc_Authorization c]) \<and>
     (\<forall>k. k \<noteq> ''Authorization'' \<longrightarrow>
        header_values h k = (if isReservedHeader k then [] else header_values (cc_Header c) k)))"
proof -
  obtain hs a h where hs: "normalizeHeaders (cc_Header c) = Inr hs"
    and a: "normalizeAuthorization (cc_Authorization c) (cc_AllowAnonymous c) = Inr a"
    and h: "with_authorization a hs = Inr h" "do_HTTPHeader (nc_dial n) = h"
    using assms(1) by (auto elim!: normalizeClientConfig_InrE)
  from hs have valid: "headers_valid (cc_Header c)" and hs_def: "hs = copied (cc_Header c) []"
    by (simp_all add: normalizeHeaders_Inr)
  have bytes: "normalizedHeaderBytes hs \<le> maxHeaderBytes"
    using valid by (simp add: hs_def bytes_copied headers_valid_def)
  have vals: "header_values hs k = header_values (cc_Header c) k" for k
    using assms(2) by (simp add: hs_def header_values_copied)
  have reserved: "header_values (cc_Header c) k = []" if "isReservedHeader k" for k
    using valid that by (auto simp: headers_valid_def list_all_iff name_ok_def intro!: header_values_absent)
  have auth_reserved: "isReservedHeader ''Authorization''"
    by (simp add: isReservedHeader_def)
  show ?thesis
    using with_authorization_Inr [OF h(1) bytes] a h(2) vals reserved auth_reserved
    by (auto simp: normalizeAuthorization_Inr Let_def split: if_splits)
qed

theorem normalizeClientConfig_credentials_witness:
  "\<exists>n. normalizeClientConfig example_parse u_Host (Some example_transport) example_client = Inr n \<and>
     header_values (do_HTTPHeader (nc_dial n)) ''Authorization'' = [''Bearer t0ken''] \<and>
     header_values (do_HTTPHeader (nc_dial n)) ''X-Trace'' = [''a'', ''b''] \<and>
     header_values (do_HTTPHeader (nc_dial n)) ''Cookie'' = []"
proof -
  obtain n where n: "normalizeClientConfig example_parse u_Host (Some example_transport) example_client = Inr n"
    using example_client_accepted by blast
  from normalizeClientConfig_credentials [OF n] n show ?thesis
    by (auto simp: Let_def example_client_def isReservedHeader_def)
qed

section \<open>What the checks let through\<close>

text \<open>
  Two inputs that the checks accept though their wording excludes them: \<open>strings.EqualFold\<close> folds the long s (U+017F)
  to \<open>s\<close>, so that a host name other than localhost counts as loopback, and \<open>http.CanonicalHeaderKey\<close>
  returns a name with a byte that no header name may have as it is, so that it counts as canonical.
\<close>

lemma loopback_accepts_long_s: "loopbackHost (''localho'' @ [CHR 0xC5, CHR 0xBF, CHR ''t''])"
  by code_simp

lemma headers_accept_no_token: "normalizeHeaders [(''x y'', [''v''])] = Inr [(''x y'', [''v''])]"
  by code_simp

end
