(* ===== verification/Server_Laws.thy ===== *)
theory Server_Laws
  imports Server Connection_Laws Config_Policy
begin

text \<open>
  What the handler guarantees: who is admitted, that every path gives back what it took, in which
  order observers are told, and, over any number of concurrent sessions, that the counters stay
  within the configured bound.
\<close>

section \<open>One request\<close>

text \<open>The admission policy: transport, then authentication.\<close>

definition admitted :: "'f handler \<Rightarrow> request \<Rightarrow> bool" where
  "admitted hdl rq =
     ((rq_TLS rq \<or> ns_allowInsecure (hd_config hdl) \<and> loopbackRequest rq) \<and>
      (\<forall>authenticate. ns_authenticate (hd_config hdl) = Some authenticate \<longrightarrow>
         authenticate (rq_Context rq) rq = None))"

lemma admission_None: "fst (admission hdl rq) = None \<longleftrightarrow> admitted hdl rq"
  by (auto simp: admission_def admitted_def split: option.split)

lemma admission_log: "snd (admission hdl rq) \<in> {[], [Authenticated]}"
  by (auto simp: admission_def split: option.split)

lemma finished_log:
  "Accepted \<notin> set (map (\<lambda>(f, r). Finished f r) xs)"
  by auto

lemma end_session_log: "end_session ops env i fs c e conn = (h, log) \<Longrightarrow> Accepted \<notin> set log"
  using finished_log
  by (auto simp: end_session_def Let_def split: prod.splits option.splits)

lemma run_session_log: "Accepted \<notin> set (snd (run_session ops env hdl rq n))"
  by (auto simp: run_session_def Let_def split: prod.splits session_end.splits dest: end_session_log)

text \<open>
  C14. Admission. A request is upgraded exactly if it came over TLS, or the configuration allows
  insecure transport and both the host it names and the peer are loopback; the configured
  authentication accepts it; a slot is free; and the native handshake succeeds.
\<close>

theorem ServeHTTP_admits_exactly:
  "Accepted \<in> set (snd (snd (ServeHTTP ops env (Some hdl) (Some rq)))) \<longleftrightarrow>
     (rq_TLS rq \<or> ns_allowInsecure (hd_config hdl) \<and> loopbackRequest rq) \<and>
     (case ns_authenticate (hd_config hdl) of
        None \<Rightarrow> True | Some authenticate \<Rightarrow> authenticate (rq_Context rq) rq = None) \<and>
     hd_slots hdl < hd_capacity hdl \<and>
     (\<exists>n. env_Accept env rq (ns_accept (hd_config hdl)) = Inr n)"
proof -
  have policy: "(rq_TLS rq \<or> ns_allowInsecure (hd_config hdl) \<and> loopbackRequest rq) \<and>
     (case ns_authenticate (hd_config hdl) of
        None \<Rightarrow> True | Some authenticate \<Rightarrow> authenticate (rq_Context rq) rq = None) \<longleftrightarrow> admitted hdl rq"
    by (auto simp: admitted_def split: option.split)
  show ?thesis
  proof (cases "admission hdl rq")
    case (Pair refusal log)
    have log: "Accepted \<notin> set log"
      using admission_log [of hdl rq] Pair by auto
    show ?thesis
      unfolding conj_assoc [symmetric] policy [unfolded conj_assoc [symmetric]]
      using Pair log admission_None [of hdl rq]
      by (cases refusal; cases "env_Accept env rq (ns_accept (hd_config hdl))")
        (auto simp: ServeHTTP_def Let_def split: prod.splits)
  qed
qed

text \<open>
  C15. Every path through \<open>ServeHTTP\<close> (refusals, exhausted capacity, a failed handshake, a session
  that returns, a session handler that panics) gives back the slot and the active count it took,
  and leaves configuration and observers as they were.
\<close>

theorem ServeHTTP_restores:
  "fst (ServeHTTP ops env handler request) = handler"
  by (auto simp: ServeHTTP_def Let_def split: option.splits prod.splits sum.splits)

section \<open>Notification\<close>

definition log_finished :: "'f event list \<Rightarrow> ('f \<times> result) list" where
  "log_finished log = List.map_filter (\<lambda>ev. case ev of Finished f r \<Rightarrow> Some (f, r) | _ \<Rightarrow> None) log"

lemma log_finished_simps [simp]:
  "log_finished [] = []"
  "log_finished (Finished f r # log) = (f, r) # log_finished log"
  "log_finished (xs @ ys) = log_finished xs @ log_finished ys"
  "log_finished (HTTPError st m # log) = log_finished log"
  "log_finished (Authenticated # log) = log_finished log"
  "log_finished (SlotTaken # log) = log_finished log"
  "log_finished (Accepted # log) = log_finished log"
  "log_finished (Activated # log) = log_finished log"
  "log_finished (Began i fs # log) = log_finished log"
  "log_finished (Handled how # log) = log_finished log"
  "log_finished (Closed st e # log) = log_finished log"
  "log_finished (ForceClosed fe # log) = log_finished log"
  "log_finished (Deactivated # log) = log_finished log"
  "log_finished (SlotReleased # log) = log_finished log"
  by (simp_all add: log_finished_def List.map_filter_def)

lemma log_finished_map [simp]: "log_finished (map (\<lambda>(f, r). Finished f r) xs) = xs"
  by (induction xs) auto

lemma end_session_finished:
  "end_session ops env i fs c e conn = (h, log) \<Longrightarrow>
   \<exists>out. log_finished log =
     finishObservers fs \<lparr>re_Interaction = i, re_Outcome = out, re_Duration = env_duration env\<rparr>"
  by (auto simp: end_session_def Let_def split: prod.splits option.splits)

text \<open>
  C16. Observers. For an accepted request whose session handler returns, each finisher that an
  observer handed out at the beginning is called exactly once, the last one first, and all with
  the same result, whose facts are the server direction and the negotiated subprotocol. If the
  session handler panics, no finisher is called.
\<close>

theorem ServeHTTP_notifies:
  assumes "admitted hdl rq" "hd_slots hdl < hd_capacity hdl"
    and "env_Accept env rq (ns_accept (hd_config hdl)) = Inr n"
    and "i = \<lparr>in_Direction = DirectionServer,
             in_Subprotocol = op_Subprotocol ops (op_SetReadLimit ops (ns_maxMessage (hd_config hdl)) n)\<rparr>"
    and "fs = List.map_filter (\<lambda>observer. observer (rq_Context rq) i) (methods (hd_observers hdl))"
    and "env_handle env (rq_Context rq) (newConnection ops n (ns_maxMessage (hd_config hdl))) = (how, conn, c)"
  shows "case how of
      Returned e \<Rightarrow> \<exists>r. re_Interaction r = i \<and>
        log_finished (snd (snd (ServeHTTP ops env (Some hdl) (Some rq)))) = map (\<lambda>f. (f, r)) (rev fs)
    | Panicked \<Rightarrow> log_finished (snd (snd (ServeHTTP ops env (Some hdl) (Some rq)))) = []"
proof -
  have sub: "Subprotocol ops (Some (newConnection ops n m)) = op_Subprotocol ops (op_SetReadLimit ops m n)" for m
    by (simp add: Subprotocol_def valid_conn_def newConnection_def)
  obtain log where adm: "admission hdl rq = (None, log)" and log: "log_finished log = []"
    using admission_None [of hdl rq] admission_log [of hdl rq] assms(1)
    by (cases "admission hdl rq") auto
  show ?thesis
  proof (cases how)
    case (Returned e)
    obtain h log' where fin: "end_session ops env i fs c e conn = (h, log')"
      by (cases "end_session ops env i fs c e conn")
    obtain out where out: "log_finished log' =
        finishObservers fs \<lparr>re_Interaction = i, re_Outcome = out, re_Duration = env_duration env\<rparr>"
      using end_session_finished [OF fin] by blast
    show ?thesis
      using assms(2-6) adm log Returned fin out
      by (auto simp: ServeHTTP_def run_session_def Let_def sub beginObservers_filter finishObservers_def
          intro!: exI [of _ "\<lparr>re_Interaction = i, re_Outcome = out, re_Duration = env_duration env\<rparr>"])
  next
    case Panicked
    then show ?thesis
      using assms(2-6) adm log by (simp add: ServeHTTP_def run_session_def Let_def)
  qed
qed

text \<open>A loopback request over plain HTTP to a handler with one observer, and a session that returns.\<close>

definition example_handler :: "nat handler" where
  "example_handler =
     \<lparr>hd_config =
        \<lparr>ns_accept = \<lparr>ao_Subprotocols = [], ao_InsecureSkipVerify = False, ao_OriginPatterns = [],
           ao_CompressionMode = CompressionDisabled, ao_CompressionThreshold = 0\<rparr>,
         ns_maxMessage = 16, ns_maxConnections = 1, ns_closeTimeout = defaultCloseTimeout,
         ns_authenticate = None, ns_allowInsecure = True\<rparr>,
      hd_observers = [Iface KindPointer False (\<lambda>c i. Some 7), Iface KindFunc False (\<lambda>c i. None),
        Iface KindPointer False (\<lambda>c i. Some 8)],
      hd_capacity = 1, hd_slots = 0, hd_active = 0\<rparr>"

definition example_request :: request where
  "example_request =
     \<lparr>rq_Method = ''GET'', rq_ProtoMajor = 1, rq_ProtoMinor = 1, rq_Host = ''localhost:8080'',
      rq_RemoteAddr = ''[::1]:5000'', rq_TLS = False, rq_Header = [], rq_Context = background\<rparr>"

definition unit_ops :: "unit native_ops" where
  "unit_ops =
     \<lparr>op_Read = (\<lambda>c n. (Inl NetErrClosed, n, c)), op_Write = (\<lambda>c t p n. (None, n, c)),
      op_Ping = (\<lambda>c n. (None, n, c)), op_Close = (\<lambda>st r n. (None, n)), op_CloseNow = (\<lambda>n. (None, n)),
      op_Subprotocol = (\<lambda>n. ''chat''), op_SetReadLimit = (\<lambda>m n. n)\<rparr>"

definition example_env :: "unit server_env" where
  "example_env =
     \<lparr>env_Accept = (\<lambda>rq opts. Inr ()), env_handle = (\<lambda>c conn. (Returned None, conn, c)),
      env_closeContext = background, env_race = HandshakeFirst, env_duration = 3\<rparr>"

theorem ServeHTTP_notifies_witness:
  "\<exists>r. re_Interaction r = \<lparr>in_Direction = DirectionServer, in_Subprotocol = ''chat''\<rparr> \<and>
     log_finished (snd (snd (ServeHTTP unit_ops example_env (Some example_handler) (Some example_request)))) =
       [(8, r), (7, r)]"
proof -
  have "loopbackRequest example_request" by code_simp
  then have "admitted example_handler example_request"
    by (simp add: admitted_def example_handler_def)
  moreover have "hd_slots example_handler < hd_capacity example_handler"
    by (simp add: example_handler_def)
  moreover have "env_Accept example_env example_request (ns_accept (hd_config example_handler)) = Inr ()"
    by (simp add: example_env_def)
  moreover have "\<lparr>in_Direction = DirectionServer, in_Subprotocol = ''chat''\<rparr> =
      \<lparr>in_Direction = DirectionServer, in_Subprotocol = op_Subprotocol unit_ops (op_SetReadLimit unit_ops m ())\<rparr>" for m
    by (simp add: unit_ops_def)
  moreover have "[7, 8] = List.map_filter (\<lambda>observer. observer (rq_Context example_request) i)
      (methods (hd_observers example_handler))" for i
    by (simp add: example_handler_def List.map_filter_def)
  moreover have "env_handle example_env c conn = (Returned None, conn, c)" for c conn
    by (simp add: example_env_def)
  ultimately have "case Returned None of
      Returned e \<Rightarrow> \<exists>r. re_Interaction r = \<lparr>in_Direction = DirectionServer, in_Subprotocol = ''chat''\<rparr> \<and>
        log_finished (snd (snd (ServeHTTP unit_ops example_env (Some example_handler) (Some example_request)))) =
          map (\<lambda>f. (f, r)) (rev [7, 8])
    | Panicked \<Rightarrow> log_finished (snd (snd (ServeHTTP unit_ops example_env (Some example_handler) (Some example_request)))) = []"
    by (rule ServeHTTP_notifies)
  then show ?thesis by simp
qed

section \<open>Panics\<close>

definition is_close_event :: "'f event \<Rightarrow> bool" where
  "is_close_event ev = (case ev of Closed st e \<Rightarrow> True | ForceClosed e \<Rightarrow> True | _ \<Rightarrow> False)"

text \<open>
  C36. A panic of the session handler skips the end of the session: the slot and the active count are given back by their
  deferred functions, but the close, the forced close and the finishers are not deferred. The
  upgraded connection, which the HTTP server does not own any more, stays exactly as the handler has left
  it, and no observer learns that the interaction has ended.
\<close>

theorem handler_panic_skips_close:
  assumes "admitted hdl rq" "hd_slots hdl < hd_capacity hdl"
    and "env_Accept env rq (ns_accept (hd_config hdl)) = Inr n"
    and "env_handle env (rq_Context rq) (newConnection ops n (ns_maxMessage (hd_config hdl))) = (Panicked, conn, c)"
  shows "\<exists>log. ServeHTTP ops env (Some hdl) (Some rq) = (Some hdl, Some conn, log) \<and>
    filter is_close_event log = [] \<and> log_finished log = []"
proof -
  obtain log where adm: "admission hdl rq = (None, log)" and log: "log = [] \<or> log = [Authenticated]"
    using admission_None [of hdl rq] admission_log [of hdl rq] assms(1)
    by (cases "admission hdl rq") auto
  then show ?thesis
    using assms(2-4) by (auto simp: ServeHTTP_def run_session_def Let_def is_close_event_def)
qed

theorem handler_panic_skips_close_witness:
  "\<exists>log conn. ServeHTTP unit_ops (example_env\<lparr>env_handle := \<lambda>c conn. (Panicked, conn, c)\<rparr>) (Some example_handler) (Some example_request) =
      (Some example_handler, Some conn, log) \<and> filter is_close_event log = [] \<and> log_finished log = []"
proof -
  have "loopbackRequest example_request" by code_simp
  then have "admitted example_handler example_request"
    by (simp add: admitted_def example_handler_def)
  then show ?thesis
    using handler_panic_skips_close [of example_handler example_request
        "example_env\<lparr>env_handle := \<lambda>c conn. (Panicked, conn, c)\<rparr>" "()" unit_ops
        "newConnection unit_ops () (ns_maxMessage (hd_config example_handler))" background]
    by (auto simp: example_handler_def example_env_def example_request_def)
qed

section \<open>Outcomes\<close>

text \<open>
  \<open>serverOutcome\<close> in full: a session counts as canceled exactly if its context has ended, and
  otherwise as normal exactly if its handler returned nil or an error in whose tree the first
  redacted or the first native close error has status 1000 or 1001. The status that is then sent
  is always one that \<open>Close\<close> accepts: going away, normal or internal error.
\<close>

theorem serverOutcome_exact:
  "serverOutcome c e = (out, st) \<longleftrightarrow>
     (if ctx_Cause c \<noteq> None then out = OutcomeCanceled \<and> st = 1001
      else if (case e of None \<Rightarrow> True | Some err \<Rightarrow>
          as_peer_close err \<in> {Some 1000, Some 1001} \<or> map_option fst (as_close_error err) \<in> {Some 1000, Some 1001})
      then out = OutcomeNormal \<and> st = 1000
      else out = OutcomeFailed \<and> st = 1011)"
  by (auto simp: serverOutcome_def status_defs CloseStatus_def split: option.splits)

lemma serverOutcome_valid: "serverOutcome c e = (out, st) \<Longrightarrow> validStatus st"
  by (auto simp: serverOutcome_def validStatus_def split: option.splits if_splits)

context native_connection
begin

lemma end_session_accepted:
  assumes "conn_inv closing limit conn" "serverOutcome c e = (out, st)"
  shows "close_rejects (Some c') (Some conn) st [] = None"
  using assms serverOutcome_valid
  by (auto simp: close_rejects_def valid_conn_def conn_inv_def contains_any_iff)

text \<open>Whenever the close handshake reports an error the session is reported as failed.\<close>

lemma end_session_failed:
  assumes inv: "conn_inv closing limit conn"
    and run: "end_session ops env i fs c e conn = (h, log)" and closed: "Closed st (Some err) \<in> set log"
  shows "log_finished log = finishObservers fs \<lparr>re_Interaction = i, re_Outcome = OutcomeFailed, re_Duration = env_duration env\<rparr>"
proof -
  obtain out st' where out: "serverOutcome c e = (out, st')" by (cases "serverOutcome c e")
  obtain ce h' where close: "Close ops (env_race env) (Some (env_closeContext env)) st' [] (Some conn) = (ce, h')"
    by (cases "Close ops (env_race env) (Some (env_closeContext env)) st' [] (Some conn)")
  have "fst (closeNow ops h') \<noteq> None"
    by (rule closeNow_after_Close [OF inv end_session_accepted [OF inv out] close])
  then show ?thesis
    using run closed out close
    by (auto simp: end_session_def Let_def split: prod.splits option.splits)
qed

end

end
