(* ===== verification/Server_Sessions.thy ===== *)
theory Server_Sessions
  imports Server_Laws
begin

text \<open>
  Many requests at once. Each request runs \<open>ServeHTTP\<close> in a goroutine of its own; the steps are the
  accesses to the shared channel \<open>slots\<close> and to the shared counter \<open>active\<close>, which are atomic in the
  code. A session may leave because its handler returned or because it panicked: both run the
  deferred functions.
\<close>

datatype phase =
    Arrived request
  | Holding request
  | Serving
  | Leaving
  | Gone

record 'f server_sys =
  sys_handler :: "'f handler"
  sys_sessions :: "phase list"

definition session_at :: "'f server_sys \<Rightarrow> nat \<Rightarrow> phase \<Rightarrow> bool" where
  "session_at s i ph = (i < length (sys_sessions s) \<and> sys_sessions s ! i = ph)"

definition set_session :: "nat \<Rightarrow> phase \<Rightarrow> 'f server_sys \<Rightarrow> 'f server_sys" where
  "set_session i ph s = s\<lparr>sys_sessions := (sys_sessions s)[i := ph]\<rparr>"

definition add_slots :: "int \<Rightarrow> 'f server_sys \<Rightarrow> 'f server_sys" where
  "add_slots k s = s\<lparr>sys_handler := (sys_handler s)\<lparr>hd_slots := hd_slots (sys_handler s) + k\<rparr>\<rparr>"

definition add_active :: "int \<Rightarrow> 'f server_sys \<Rightarrow> 'f server_sys" where
  "add_active k s = s\<lparr>sys_handler := (sys_handler s)\<lparr>hd_active := hd_active (sys_handler s) + k\<rparr>\<rparr>"

inductive serve_step :: "(request \<Rightarrow> accept_options \<Rightarrow> 'n res) \<Rightarrow> 'f server_sys \<Rightarrow> 'f server_sys \<Rightarrow> bool"
  for accept where
  arrive: "serve_step accept s (s\<lparr>sys_sessions := sys_sessions s @ [Arrived rq]\<rparr>)"
| refuse: "session_at s i (Arrived rq) \<Longrightarrow> fst (admission (sys_handler s) rq) \<noteq> None \<Longrightarrow>
    serve_step accept s (set_session i Gone s)"
| exhausted: "session_at s i (Arrived rq) \<Longrightarrow> fst (admission (sys_handler s) rq) = None \<Longrightarrow>
    \<not> hd_slots (sys_handler s) < hd_capacity (sys_handler s) \<Longrightarrow> serve_step accept s (set_session i Gone s)"
| take_slot: "session_at s i (Arrived rq) \<Longrightarrow> fst (admission (sys_handler s) rq) = None \<Longrightarrow>
    hd_slots (sys_handler s) < hd_capacity (sys_handler s) \<Longrightarrow>
    serve_step accept s (set_session i (Holding rq) (add_slots 1 s))"
| accept_fails: "session_at s i (Holding rq) \<Longrightarrow> accept rq (ns_accept (hd_config (sys_handler s))) = Inl err \<Longrightarrow>
    serve_step accept s (set_session i Gone (add_slots (-1) s))"
| activate: "session_at s i (Holding rq) \<Longrightarrow> accept rq (ns_accept (hd_config (sys_handler s))) = Inr n \<Longrightarrow>
    serve_step accept s (set_session i Serving (add_active 1 s))"
| deactivate: "session_at s i Serving \<Longrightarrow> serve_step accept s (set_session i Leaving (add_active (-1) s))"
| release: "session_at s i Leaving \<Longrightarrow> serve_step accept s (set_session i Gone (add_slots (-1) s))"

inductive_cases serve_stepE: "serve_step accept s s'"

inductive serve_reachable ::
  "(request \<Rightarrow> accept_options \<Rightarrow> 'n res) \<Rightarrow> authenticate server_config \<Rightarrow> 'f observer iface list \<Rightarrow> 'f server_sys \<Rightarrow> bool"
  for accept config observers where
  start: "NewHandler config False observers = Inr hdl \<Longrightarrow>
    serve_reachable accept config observers \<lparr>sys_handler = hdl, sys_sessions = []\<rparr>"
| more: "serve_reachable accept config observers s \<Longrightarrow> serve_step accept s s' \<Longrightarrow>
    serve_reachable accept config observers s'"

section \<open>The invariant\<close>

fun slots_of :: "phase \<Rightarrow> int" where
  "slots_of (Holding rq) = 1"
| "slots_of Serving = 1"
| "slots_of Leaving = 1"
| "slots_of ph = 0"

fun active_of :: "phase \<Rightarrow> int" where
  "active_of Serving = 1"
| "active_of ph = 0"

definition counts_ok :: "'f server_sys \<Rightarrow> bool" where
  "counts_ok s =
     (hd_slots (sys_handler s) = sum_list (map slots_of (sys_sessions s)) \<and>
      hd_active (sys_handler s) = sum_list (map active_of (sys_sessions s)) \<and>
      hd_slots (sys_handler s) \<le> hd_capacity (sys_handler s))"

lemma sum_list_phase_update:
  fixes f :: "phase \<Rightarrow> int"
  assumes "session_at s i ph"
  shows "sum_list (map f ((sys_sessions s)[i := ph'])) = sum_list (map f (sys_sessions s)) + f ph' - f ph"
  using assms by (simp add: session_at_def map_update sum_list_update_int)

lemma serve_step_counts: "serve_step accept s s' \<Longrightarrow> counts_ok s \<Longrightarrow> counts_ok s'"
  by (induction rule: serve_step.induct)
    (auto simp: counts_ok_def set_session_def add_slots_def add_active_def sum_list_phase_update)

lemma serve_step_config:
  "serve_step accept s s' \<Longrightarrow>
   hd_config (sys_handler s') = hd_config (sys_handler s) \<and> hd_capacity (sys_handler s') = hd_capacity (sys_handler s)"
  by (induction rule: serve_step.induct) (auto simp: set_session_def add_slots_def add_active_def)

lemma phase_bounds: "0 \<le> active_of ph \<and> active_of ph \<le> slots_of ph"
  by (cases ph) auto

lemma sessions_bounds:
  "0 \<le> sum_list (map active_of phs)"
  "sum_list (map active_of phs) \<le> sum_list (map slots_of phs)"
  using phase_bounds by (auto intro!: sum_list_nonneg sum_list_mono)

lemma serve_reachable_counts:
  "serve_reachable accept config observers s \<Longrightarrow>
   counts_ok s \<and> hd_capacity (sys_handler s) = or_default defaultMaxConnections (sc_MaxConnections config)"
proof (induction rule: serve_reachable.induct)
  case (start hdl)
  then have "hdl = \<lparr>hd_config = server_normal config, hd_observers = observers,
      hd_capacity = ns_maxConnections (server_normal config), hd_slots = 0, hd_active = 0\<rparr>"
      and valid: "server_valid config"
    by (auto simp: NewHandler_def res_simps normalizeServerConfig_Inr)
  moreover from valid have "0 \<le> or_default defaultMaxConnections (sc_MaxConnections config)"
    by (auto simp: server_valid_def or_default_def limit_defs)
  ultimately show ?case
    by (simp add: counts_ok_def server_normal_def)
next
  case (more s s')
  then show ?case using serve_step_counts serve_step_config by metis
qed

text \<open>
  C17. Bounded sessions. However requests arrive, are refused, upgraded, served, end or panic, and
  however their steps interleave, the number of sessions that \<open>Active\<close> reports is the number
  of sessions being served, it never exceeds the slots in use, and those never exceed the configured
  maximum (256 by default); once every request is gone both counters are zero again.
\<close>

theorem sessions_bounded:
  assumes "serve_reachable accept config observers s"
  shows "Active (Some (sys_handler s)) = int (count_list (sys_sessions s) Serving) \<and>
    0 \<le> Active (Some (sys_handler s)) \<and> Active (Some (sys_handler s)) \<le> hd_slots (sys_handler s) \<and>
    hd_slots (sys_handler s) \<le> (if sc_MaxConnections config = 0 then 256 else sc_MaxConnections config) \<and>
    (list_all (\<lambda>ph. ph = Gone) (sys_sessions s) \<longrightarrow>
       Active (Some (sys_handler s)) = 0 \<and> hd_slots (sys_handler s) = 0)"
proof -
  have inv: "counts_ok s" "hd_capacity (sys_handler s) = or_default defaultMaxConnections (sc_MaxConnections config)"
    using serve_reachable_counts [OF assms] by simp_all
  have serving: "sum_list (map active_of phs) = int (count_list phs Serving)" for phs
  proof (induction phs)
    case (Cons ph phs)
    then show ?case by (cases ph) auto
  qed simp
  have gone: "sum_list (map slots_of phs) = 0" if "list_all (\<lambda>ph. ph = Gone) phs" for phs
    using that by (induction phs) auto
  show ?thesis
    using inv sessions_bounds [of "sys_sessions s"] gone [of "sys_sessions s"]
    by (auto simp: counts_ok_def Active_def serving or_default_def limit_defs)
qed

definition example_server :: "authenticate server_config" where
  "example_server =
     \<lparr>sc_OriginPatterns = [], sc_Subprotocols = [''chat''], sc_MaxMessageBytes = 0, sc_MaxConnections = 2,
      sc_Compression = False, sc_CompressionAt = 0, sc_CloseTimeout = 0, sc_Authenticate = None,
      sc_AllowInsecure = True, sc_AllowAnonymous = True, sc_AllowAnyOrigin = False\<rparr>"

definition serving_one :: "unit server_sys" where
  "serving_one =
     \<lparr>sys_handler = \<lparr>hd_config = server_normal example_server, hd_observers = [], hd_capacity = 2,
        hd_slots = 1, hd_active = 1\<rparr>,
      sys_sessions = [Serving]\<rparr>"

lemma serving_one_reachable: "serve_reachable (\<lambda>rq opts. Inr ()) example_server [] serving_one"
proof -
  let ?sys = "\<lambda>slots act phs. \<lparr>sys_handler = \<lparr>hd_config = server_normal example_server, hd_observers = [],
      hd_capacity = 2, hd_slots = slots, hd_active = act\<rparr>, sys_sessions = phs\<rparr> :: unit server_sys"
  let ?reach = "serve_reachable (\<lambda>rq opts. Inr ()) example_server ([] :: unit observer iface list)"
  note upd = set_session_def add_slots_def add_active_def session_at_def
  have valid: "server_valid example_server" by code_simp
  then have "NewHandler example_server False [] = Inr (sys_handler (?sys 0 0 []))"
    unfolding NewHandler_def normalizeServerConfig_Inr [THEN iffD2, OF conjI [OF valid refl]]
    by (simp add: validateObservers_def server_normal_def example_server_def or_default_def)
  from serve_reachable.start [OF this, of "\<lambda>rq opts. Inr ()"] have 0: "?reach (?sys 0 0 [])"
    by simp
  have 1: "?reach (?sys 0 0 [Arrived example_request])"
    using serve_reachable.more [OF 0 arrive] by simp
  have "loopbackRequest example_request" by code_simp
  then have adm: "fst (admission (sys_handler (?sys 0 0 phs)) example_request) = None" for phs
    by (simp add: admission_def server_normal_def example_server_def)
  have 2: "?reach (?sys 1 0 [Holding example_request])"
    using serve_reachable.more [OF 1 take_slot [of _ 0, OF _ adm]] by (simp add: upd)
  show ?thesis
    using serve_reachable.more [OF 2 activate [of _ 0 example_request _ "()"]] by (simp add: upd serving_one_def)
qed

theorem sessions_bounded_witness:
  "Active (Some (sys_handler serving_one)) = int (count_list (sys_sessions serving_one) Serving) \<and>
   Active (Some (sys_handler serving_one)) = 1 \<and> hd_slots (sys_handler serving_one) \<le> 2"
  using sessions_bounded [OF serving_one_reachable]
  by (simp add: serving_one_def example_server_def Active_def)

end
