(* ===== verification/Client.thy ===== *)
theory Client
  imports Config_Policy Close_Concurrency Server
begin

text \<open>
  Model of \<open>client.go\<close>. \<open>Dial\<close> is a function of the caller's context and configuration;
  \<open>nativews.Dial\<close>, the context derived for the handshake and the parameters of the configuration are
  arguments. The closure \<open>cleanup\<close> is a function over the variables it captures, which are the
  record \<open>client_session\<close>.
\<close>

record ('n, 'f) client_session =
  cl_connection :: "'n connection"
  cl_interaction :: interaction
  cl_finishers :: "'f list"
  cl_finishOnce :: bool

text \<open>
  \<open>ce_handshake\<close> is the context that \<open>context.WithTimeout\<close> derives from the caller's;
  \<open>ce_Dial\<close> returns the response, if there is one, the connection or an error, and that context as
  it is then.
\<close>

record ('n, 'r) client_env =
  ce_parse :: "string \<Rightarrow> url option"
  ce_string :: "url \<Rightarrow> string"
  ce_transport :: "transport option"
  ce_handshake :: "ctx \<Rightarrow> int \<Rightarrow> ctx"
  ce_Dial :: "ctx \<Rightarrow> string \<Rightarrow> dial_options \<Rightarrow> 'r option \<times> 'n res \<times> ctx"

definition dial_error :: "ctx \<Rightarrow> go_error" where
  "dial_error handshakeContext =
     (case ctx_Cause handshakeContext of
        Some cause \<Rightarrow> wrap ''dial WebSocket: handshake failed: %w'' cause
      | None \<Rightarrow> errors_new ''dial WebSocket: handshake failed'')"

definition Dial ::
  "'n native_ops \<Rightarrow> ('n, 'r) client_env \<Rightarrow> ctx option \<Rightarrow> client_config \<Rightarrow> 'f observer iface list \<Rightarrow>
   'r option \<times> ('n, 'f) client_session res" where
  "Dial ops env ctx config observers =
     (case ctx of
        None \<Rightarrow> (None, Inl (errors_new ''dial WebSocket: context is nil''))
      | Some c \<Rightarrow>
          (case normalizeClientConfig (ce_parse env) (ce_string env) (ce_transport env) config of
             Inl err \<Rightarrow> (None, Inl err)
           | Inr normalized \<Rightarrow>
               (case validateObservers observers of
                  Some observerErr \<Rightarrow> (None, Inl observerErr)
                | None \<Rightarrow>
                    (case ce_Dial env (ce_handshake env c (nc_handshakeTimeout normalized))
                            (nc_url normalized) (nc_dial normalized) of
                       (response, Inl err, handshakeContext) \<Rightarrow> (response, Inl (dial_error handshakeContext))
                     | (response, Inr n, handshakeContext) \<Rightarrow>
                         let connection = newConnection ops n (nc_maxMessage normalized);
                             interaction = \<lparr>in_Direction = DirectionClient,
                                            in_Subprotocol = Subprotocol ops (Some connection)\<rparr> in
                         (response,
                          Inr \<lparr>cl_connection = connection,
                               cl_interaction = interaction,
                               cl_finishers = beginObservers c interaction (methods observers),
                               cl_finishOnce = False\<rparr>)))))"

text \<open>
  One call of \<open>cleanup\<close>: the race inside \<open>Close\<close>, the clock, the context and the same context once
  \<open>Close\<close> has returned.
\<close>

record cleanup_call =
  ca_race :: race
  ca_duration :: int
  ca_context :: "ctx option"
  ca_after :: ctx

definition cleanup ::
  "'n native_ops \<Rightarrow> cleanup_call \<Rightarrow> ('n, 'f) client_session \<Rightarrow>
   go_error option \<times> ('n, 'f) client_session \<times> ('f \<times> result) list" where
  "cleanup ops call sess =
     (case ca_context call of
        None \<Rightarrow> (Some (errors_new ''close WebSocket client: context is nil''), sess, [])
      | Some cleanupContext \<Rightarrow>
          let (closeErr, h) = Close ops (ca_race call) (Some cleanupContext) StatusNormalClosure [] (Some (cl_connection sess));
              outcome = (if closeErr \<noteq> None
                         then (if ctx_Cause (ca_after call) \<noteq> None then OutcomeCanceled else OutcomeFailed)
                         else OutcomeNormal);
              result = \<lparr>re_Interaction = cl_interaction sess, re_Outcome = outcome, re_Duration = ca_duration call\<rparr>;
              finished = (if cl_finishOnce sess then [] else finishObservers (cl_finishers sess) result)
          in (map_option (wrap ''close WebSocket client: %w'') closeErr,
              sess\<lparr>cl_connection := the h, cl_finishOnce := True\<rparr>,
              finished))"

text \<open>A sequence of calls, with everything the observers are told.\<close>

fun cleanups ::
  "'n native_ops \<Rightarrow> cleanup_call list \<Rightarrow> ('n, 'f) client_session \<Rightarrow>
   go_error option list \<times> ('n, 'f) client_session \<times> ('f \<times> result) list" where
  "cleanups ops [] sess = ([], sess, [])"
| "cleanups ops (call # calls) sess =
     (let (err, sess1, finished) = cleanup ops call sess;
          (errs, sess2, finished2) = cleanups ops calls sess1
      in (err # errs, sess2, finished @ finished2))"

section \<open>Properties\<close>

text \<open>
  C18. \<open>Dial\<close> does not disclose why the native handshake failed: for any two native libraries that
  fail, whatever their errors, the caller sees the same, namely the cause of the handshake context
  or a fixed message.
\<close>

theorem Dial_error_opaque:
  assumes "\<And>c u d. ce_Dial env c u d = (resp c u d, Inl (e c u d), ctx' c u d)"
    and "env' = env\<lparr>ce_Dial := \<lambda>c u d. (resp c u d, Inl (e' c u d), ctx' c u d)\<rparr>"
  shows "Dial ops env ctx config observers = Dial ops env' ctx config observers"
  using assms by (simp add: Dial_def split: option.split sum.split)

theorem Dial_error_opaque_witness:
  "Dial flag_ops
     \<lparr>ce_parse = example_parse, ce_string = u_Host, ce_transport = Some example_transport,
      ce_handshake = (\<lambda>c t. c), ce_Dial = (\<lambda>c u d. (None :: unit option, Inl (CloseError 1008 ''secret''), c))\<rparr>
     (Some background) example_client ([] :: unit observer iface list) =
   Dial flag_ops
     \<lparr>ce_parse = example_parse, ce_string = u_Host, ce_transport = Some example_transport,
      ce_handshake = (\<lambda>c t. c), ce_Dial = (\<lambda>c u d. (None :: unit option, Inl NetErrClosed, c))\<rparr>
     (Some background) example_client []"
  by (rule Dial_error_opaque
      [where resp = "\<lambda>c u d. None" and e = "\<lambda>c u d. CloseError 1008 ''secret''" and
        e' = "\<lambda>c u d. NetErrClosed" and ctx' = "\<lambda>c u d. c"]) simp_all

lemma cleanup_finishOnce:
  "cl_finishOnce sess \<Longrightarrow> cleanup ops call sess = (e, sess', fin) \<Longrightarrow> fin = [] \<and> cl_finishOnce sess'"
  by (auto simp: cleanup_def Let_def split: option.splits prod.splits)

lemma cleanups_finishOnce:
  "cl_finishOnce sess \<Longrightarrow> cleanups ops calls sess = (es, sess', fin) \<Longrightarrow> fin = []"
  by (induction calls arbitrary: sess es fin)
    (fastforce simp: Let_def split: prod.splits dest: cleanup_finishOnce)+

text \<open>
  C19. However often \<open>cleanup\<close> is called, with whatever contexts, each finisher of the session is
  called at most once: exactly once, the last observer first and all with the same result about
  the same session, if some call had a context, and not at all otherwise.
\<close>

theorem cleanups_finish_once:
  assumes "cleanups ops calls sess = (errs, sess', fin)" and "\<not> cl_finishOnce sess"
  shows "if list_all (\<lambda>call. ca_context call = None) calls then fin = []
    else \<exists>r. re_Interaction r = cl_interaction sess \<and> fin = map (\<lambda>f. (f, r)) (rev (cl_finishers sess))"
  using assms
proof (induction calls arbitrary: errs fin)
  case (Cons call calls)
  obtain err sess1 fin1 where first: "cleanup ops call sess = (err, sess1, fin1)"
    by (cases "cleanup ops call sess")
  obtain errs2 fin2 where rest: "cleanups ops calls sess1 = (errs2, sess', fin2)" and fin: "fin = fin1 @ fin2"
    using Cons.prems(1) first by (auto simp: Let_def split: prod.splits)
  show ?case
  proof (cases "ca_context call")
    case None
    then have "sess1 = sess" "fin1 = []"
      using first by (auto simp: cleanup_def)
    then show ?thesis using Cons.IH [of errs2 fin2] Cons.prems(2) rest fin None by simp
  next
    case (Some c)
    then obtain out where "cl_finishOnce sess1"
        "fin1 = finishObservers (cl_finishers sess) \<lparr>re_Interaction = cl_interaction sess, re_Outcome = out, re_Duration = ca_duration call\<rparr>"
      using first Cons.prems(2) by (auto simp: cleanup_def Let_def split: prod.splits)
    then show ?thesis
      using Some fin cleanups_finishOnce [OF _ rest]
      by (auto simp: finishObservers_def
          intro!: exI [of _ "\<lparr>re_Interaction = cl_interaction sess, re_Outcome = out, re_Duration = ca_duration call\<rparr>"])
  qed
qed simp

definition example_session :: "(bool, nat) client_session" where
  "example_session =
     \<lparr>cl_connection = flag_conn,
      cl_interaction = \<lparr>in_Direction = DirectionClient, in_Subprotocol = ''chat''\<rparr>,
      cl_finishers = [1, 2], cl_finishOnce = False\<rparr>"

definition example_calls :: "cleanup_call list" where
  "example_calls =
     [\<lparr>ca_race = HandshakeFirst, ca_duration = 4, ca_context = None, ca_after = background\<rparr>,
      \<lparr>ca_race = HandshakeFirst, ca_duration = 5, ca_context = Some background, ca_after = background\<rparr>,
      \<lparr>ca_race = HandshakeFirst, ca_duration = 6, ca_context = Some background, ca_after = background\<rparr>]"

theorem cleanups_finish_once_witness:
  "\<exists>r. re_Interaction r = \<lparr>in_Direction = DirectionClient, in_Subprotocol = ''chat''\<rparr> \<and>
     snd (snd (cleanups flag_ops example_calls example_session)) = [(2, r), (1, r)]"
proof -
  obtain errs sess fin where run: "cleanups flag_ops example_calls example_session = (errs, sess, fin)"
    by (cases "cleanups flag_ops example_calls example_session")
  have "\<not> list_all (\<lambda>call. ca_context call = None) example_calls"
    by (simp add: example_calls_def)
  then show ?thesis
    using cleanups_finish_once [OF run] run by (simp add: example_session_def)
qed

end
