(* ===== verification/Go_Binary.thy ===== *)
theory Go_Binary
  imports Go_Prelude
begin

text \<open>
  \<open>encoding/binary\<close>: big-endian numbers as byte lists, and little-endian words, with the round trips
  and the byte-wise reading of exclusive or that the frame codec and the mask need.
\<close>

unbundle bit_operations_syntax

section \<open>Big endian\<close>

fun get_be :: "bytes \<Rightarrow> nat" where
  "get_be [] = 0"
| "get_be (b # bs) = unat b * 256 ^ length bs + get_be bs"

fun put_be :: "nat \<Rightarrow> nat \<Rightarrow> bytes" where
  "put_be 0 x = []"
| "put_be (Suc k) x = word_of_nat (x div 256 ^ k) # put_be k x"

lemma length_put_be [simp]: "length (put_be k x) = k"
  by (induction k) auto

lemma byte_of_nat [simp]: "unat (word_of_nat x :: 8 word) = x mod 256"
  by (simp add: unat_of_nat)

lemma get_be_put_be: "get_be (put_be k x) = x mod 256 ^ k"
proof (induction k)
  case (Suc k)
  have "x mod (256 ^ k * 256) = 256 ^ k * (x div 256 ^ k mod 256) + x mod 256 ^ k"
    by (rule mod_mult2_eq)
  with Suc show ?case by (simp add: mult.commute)
qed simp

lemma get_be_bound: "get_be bs < 256 ^ length bs"
proof (induction bs)
  case (Cons b bs)
  have "unat b \<le> 255"
    using unsigned_less [of b, where ?'a = nat] by simp
  then have "unat b * 256 ^ length bs \<le> 255 * 256 ^ length bs"
    by (rule mult_right_mono) simp
  then have "unat b * 256 ^ length bs + get_be bs < 255 * 256 ^ length bs + 256 ^ length bs"
    using Cons by (rule add_le_less_mono)
  then show ?case by simp
qed simp

lemma put_be_high: "put_be k (x + y * 256 ^ k) = put_be k x"
proof (induction k arbitrary: y)
  case (Suc k)
  have "(x + y * 256 ^ Suc k) div 256 ^ k = x div 256 ^ k + y * 256"
    using div_mult_self1 [of "256 ^ k" x "y * 256"] by (simp add: ac_simps)
  moreover have "word_of_nat (z + y * 256) = (word_of_nat z :: 8 word)" for z
    by (rule unsigned_word_eqI [where ?'a = nat]) (simp only: byte_of_nat mod_mult_self1)
  moreover have "x + y * 256 ^ Suc k = x + (y * 256) * 256 ^ k"
    by simp
  ultimately show ?case
    by (simp only: put_be.simps Suc.IH)
qed simp

lemma put_be_get_be: "put_be (length bs) (get_be bs) = bs"
proof (induction bs)
  case (Cons b bs)
  have "(unat b * 256 ^ length bs + get_be bs) div 256 ^ length bs = unat b"
    using get_be_bound [of bs] by simp
  then show ?case
    using Cons put_be_high [of "length bs" "get_be bs" "unat b"] by (simp add: add.commute)
qed simp

section \<open>Little endian\<close>

fun get_le :: "bytes \<Rightarrow> 'a::len word" where
  "get_le [] = 0"
| "get_le (b # bs) = ucast b OR push_bit 8 (get_le bs)"

fun put_le :: "nat \<Rightarrow> 'a::len word \<Rightarrow> bytes" where
  "put_le 0 w = []"
| "put_le (Suc k) w = ucast w # put_le k (drop_bit 8 w)"

lemma length_put_le [simp]: "length (put_le k w) = k"
  by (induction k arbitrary: w) auto

lemma get_le_high:
  "8 * length bs \<le> n \<Longrightarrow> \<not> bit (get_le bs :: 'a::len word) n"
proof (induction bs arbitrary: n)
  case (Cons b bs)
  have "\<not> bit b n" if "8 \<le> n" for n
    using that by (auto dest: bit_imp_le_length)
  with Cons show ?case
    by (auto simp: bit_or_iff bit_push_bit_iff bit_unsigned_iff)
qed simp

lemma put_le_xor:
  "8 * length bs \<le> LENGTH('a::len) \<Longrightarrow>
   put_le (length bs) (get_le bs XOR k :: 'a word) = map2 (XOR) bs (put_le (length bs) k)"
proof (induction bs arbitrary: k)
  case (Cons b bs)
  have low: "ucast (get_le (b # bs) XOR k) = b XOR ucast k" for k :: "'a word"
    using Cons.prems
    by (intro bit_word_eqI) (auto simp: bit_xor_iff bit_or_iff bit_push_bit_iff bit_unsigned_iff bit_imp_le_length)
  have high: "drop_bit 8 (get_le (b # bs) XOR k) = get_le bs XOR drop_bit 8 k" for k :: "'a word"
  proof (intro bit_word_eqI)
    fix n
    assume n: "n < LENGTH('a)"
    have byte: "\<not> bit b (8 + n)" by (auto dest: bit_imp_le_length)
    have "\<not> bit (get_le bs :: 'a word) n" if "LENGTH('a) \<le> 8 + n"
      using that Cons.prems by (intro get_le_high) simp
    then show "bit (drop_bit 8 (get_le (b # bs) XOR k)) n \<longleftrightarrow> bit (get_le bs XOR drop_bit 8 k) n"
      using n byte
      by (cases "LENGTH('a) \<le> 8 + n")
        (auto simp: bit_xor_iff bit_or_iff bit_push_bit_iff bit_unsigned_iff bit_drop_bit_eq dest: bit_imp_le_length)
  qed
  show ?case
    using Cons.IH [of "drop_bit 8 k"] Cons.prems unfolding length_Cons put_le.simps low high by simp
qed simp

lemma put_le_get_le:
  assumes "8 * length bs \<le> LENGTH('a::len)"
  shows "put_le (length bs) (get_le bs :: 'a word) = bs"
proof -
  have zero: "put_le k (0 :: 'a word) = replicate k 0" for k
    by (induction k) auto
  have "map2 (XOR) bs (replicate (length bs) 0) = bs"
    by (induction bs) auto
  then show ?thesis
    using put_le_xor [OF assms, of 0] by (simp add: zero)
qed

lemma get_le_put_le: "8 * k = LENGTH('a::len) \<Longrightarrow> get_le (put_le k w) = (w :: 'a word)"
proof -
  have "bit (get_le (put_le k w) :: 'a word) n \<longleftrightarrow> n < 8 * k \<and> bit w n" if "8 * k \<le> LENGTH('a)" for k n and w :: "'a word"
    using that
  proof (induction k arbitrary: w n)
    case (Suc k)
    show ?case
      using Suc.prems
      by (auto simp: Suc.IH bit_or_iff bit_push_bit_iff bit_unsigned_iff bit_drop_bit_eq not_less dest: bit_imp_le_length)
  qed simp
  then show "8 * k = LENGTH('a) \<Longrightarrow> ?thesis"
    by (intro bit_word_eqI) simp
qed

end
