(* ===== verification/Ws_Frame.thy ===== *)
theory Ws_Frame
  imports Go_Binary
begin

text \<open>
  Model of \<open>frame.go\<close> of the native library: the frame header and its codec. The reader is the list
  of the bytes that are still to come before the end of the stream; a read returns what is left.
\<close>

unbundle bit_operations_syntax

section \<open>Reading bytes\<close>

text \<open>\<open>bufio.Reader.ReadByte\<close> and \<open>io.ReadFull\<close> on a stream that ends after the given bytes.\<close>

fun ReadByte :: "bytes \<Rightarrow> 8 word res \<times> bytes" where
  "ReadByte [] = (Inl ErrEOF, [])"
| "ReadByte (b # rest) = (Inr b, rest)"

definition ReadFull :: "nat \<Rightarrow> bytes \<Rightarrow> bytes res \<times> bytes" where
  "ReadFull n r =
     (if n \<le> length r then (Inr (take n r), drop n r)
      else if r = [] then (Inl ErrEOF, [])
      else (Inl ErrUnexpectedEOF, []))"

section \<open>Headers\<close>

definition opContinuation :: int where "opContinuation = 0"
definition opText :: int where "opText = 1"
definition opBinary :: int where "opBinary = 2"
definition opClose :: int where "opClose = 8"
definition opPing :: int where "opPing = 9"
definition opPong :: int where "opPong = 10"

lemmas opcode_defs = opContinuation_def opText_def opBinary_def opClose_def opPing_def opPong_def

record frame_header =
  fin :: bool
  rsv1 :: bool
  rsv2 :: bool
  rsv3 :: bool
  opcode :: int
  payloadLength :: int
  masked :: bool
  maskKey :: "32 word"

definition maxControlPayload :: int where "maxControlPayload = 125"

text \<open>The length field: the length from the 7-bit code, with two or eight more bytes if it says so.\<close>

definition read_length :: "8 word \<Rightarrow> bytes \<Rightarrow> int res \<times> bytes" where
  "read_length code r =
     (if code < 126 then (Inr (uint code), r)
      else if code = 126 then
        (case ReadFull 2 r of
           (Inl e, r') \<Rightarrow> (Inl e, r')
         | (Inr buf, r') \<Rightarrow> (Inr (int (get_be buf)), r'))
      else
        (case ReadFull 8 r of
           (Inl e, r') \<Rightarrow> (Inl e, r')
         | (Inr buf, r') \<Rightarrow> (Inr (sint (word_of_nat (get_be buf) :: 64 word)), r')))"

definition read_header_body :: "8 word \<Rightarrow> 8 word \<Rightarrow> bytes \<Rightarrow> frame_header res \<times> bytes" where
  "read_header_body b0 b1 r =
     (case read_length (b1 AND NOT (push_bit 7 1)) r of
        (Inl e, r1) \<Rightarrow> (Inl e, r1)
      | (Inr n, r1) \<Rightarrow>
          if n < 0 then (Inl (Errorf ''received negative payload length: %v'' [AInt n] []), r1)
          else
            let h = \<lparr>fin = bit b0 7, rsv1 = bit b0 6, rsv2 = bit b0 5, rsv3 = bit b0 4,
                     opcode = uint (b0 AND 15), payloadLength = n, masked = bit b1 7, maskKey = 0\<rparr> in
            if masked h then
              (case ReadFull 4 r1 of
                 (Inl e, r2) \<Rightarrow> (Inl e, r2)
               | (Inr buf, r2) \<Rightarrow> (Inr (h\<lparr>maskKey := get_le buf\<rparr>), r2))
            else (Inr h, r1))"

definition readFrameHeader :: "bytes \<Rightarrow> frame_header res \<times> bytes" where
  "readFrameHeader r =
     (let (result, r') =
        (case ReadByte r of
           (Inl e, r1) \<Rightarrow> (Inl e, r1)
         | (Inr b0, r1) \<Rightarrow>
             (case ReadByte r1 of
                (Inl e, r2) \<Rightarrow> (Inl e, r2)
              | (Inr b1, r2) \<Rightarrow> read_header_body b0 b1 r2))
      in (case result of
            Inl e \<Rightarrow> (Inl (wrap ''failed to read frame header: %w'' e), r')
          | Inr h \<Rightarrow> (Inr h, r')))"

definition flag :: "bool \<Rightarrow> nat \<Rightarrow> 8 word" where
  "flag b n = (if b then push_bit n 1 else 0)"

definition writeFrameHeader :: "frame_header \<Rightarrow> bytes" where
  "writeFrameHeader h =
     [flag (fin h) 7 OR flag (rsv1 h) 6 OR flag (rsv2 h) 5 OR flag (rsv3 h) 4 OR word_of_int (opcode h)] @
     [flag (masked h) 7 OR
        (if payloadLength h > 65535 then 127
         else if payloadLength h > 125 then 126
         else if payloadLength h \<ge> 0 then word_of_int (payloadLength h)
         else 0)] @
     (if payloadLength h > 65535 then put_be 8 (unat (word_of_int (payloadLength h) :: 64 word))
      else if payloadLength h > 125 then put_be 2 (unat (word_of_int (payloadLength h) :: 16 word))
      else []) @
     (if masked h then put_le 4 (maskKey h) else [])"

section \<open>Round trip\<close>

text \<open>The headers the library can write: what fits the fields of the wire format.\<close>

definition header_ok :: "frame_header \<Rightarrow> bool" where
  "header_ok h =
     (0 \<le> opcode h \<and> opcode h < 16 \<and> 0 \<le> payloadLength h \<and> payloadLength h < 2 ^ 63 \<and>
      (\<not> masked h \<longrightarrow> maskKey h = 0))"

lemma ReadFull_append [simp]: "length xs = n \<Longrightarrow> ReadFull n (xs @ ys) = (Inr xs, ys)"
  by (auto simp: ReadFull_def)

lemma bit_flag [simp]: "n < 8 \<Longrightarrow> bit (flag b n) m \<longleftrightarrow> b \<and> m = n"
  by (auto simp: flag_def bit_simps)

lemma bit_small: "0 \<le> x \<Longrightarrow> x < 2 ^ k \<Longrightarrow> k \<le> n \<Longrightarrow> \<not> bit (word_of_int x :: 8 word) n"
  by (metis bit_take_bit_iff bit_word_of_int_iff linorder_not_less take_bit_int_eq_self)

lemma first_byte:
  fixes op :: int and f r1 r2 r3 :: bool
  assumes "0 \<le> op" "op < 16"
  defines "b \<equiv> flag f 7 OR flag r1 6 OR flag r2 5 OR flag r3 4 OR word_of_int op"
  shows "bit b 7 = f" "bit b 6 = r1" "bit b 5 = r2" "bit b 4 = r3" "uint (b AND 15) = op"
proof -
  have high: "\<not> bit (word_of_int op :: 8 word) n" if "4 \<le> n" for n
    using bit_small [of op 4 n] assms that by simp
  show "bit b 7 = f" "bit b 6 = r1" "bit b 5 = r2" "bit b 4 = r3"
    using high by (auto simp: b_def bit_or_iff)
  have "b AND 15 = word_of_int op"
  proof (rule bit_word_eqI)
    fix n
    assume "n < LENGTH(8)"
    have fifteen: "(15 :: 8 word) = mask 4" by (simp add: mask_eq_exp_minus_1)
    have "bit (15 :: 8 word) n \<longleftrightarrow> n < 4"
      unfolding fifteen bit_mask_iff possible_bit_word using \<open>n < LENGTH(8)\<close> by simp
    then show "bit (b AND 15) n = bit (word_of_int op :: 8 word) n"
      using high [of n] by (auto simp: b_def bit_and_iff bit_or_iff)
  qed
  then show "uint (b AND 15) = op"
    using assms by (simp add: unsigned_of_int take_bit_int_eq_self)
qed

lemma second_byte:
  fixes code :: "8 word"
  assumes "code < 128"
  shows "bit (flag m 7 OR code) 7 = m" "(flag m 7 OR code) AND NOT (push_bit 7 1) = code"
proof -
  have "code = word_of_int (uint code)" "uint code < 2 ^ 7"
    using assms by (simp_all add: word_less_def)
  then have high: "\<not> bit code n" if "7 \<le> n" for n
    using bit_small [of "uint code" 7 n] that by simp
  then show "bit (flag m 7 OR code) 7 = m"
    by (simp add: bit_or_iff)
  have top: "push_bit 7 1 = flag True 7" by (simp add: flag_def)
  show "(flag m 7 OR code) AND NOT (push_bit 7 1) = code"
    unfolding top using high by (intro bit_word_eqI) (auto simp: bit_and_iff bit_or_iff bit_not_iff)
qed

lemma read_length_short:
  "0 \<le> n \<Longrightarrow> n \<le> 125 \<Longrightarrow> read_length (word_of_int n) r = (Inr n, r)"
  by (simp add: read_length_def word_less_def unsigned_of_int take_bit_int_eq_self)

lemma read_length_medium:
  "0 \<le> n \<Longrightarrow> n \<le> 65535 \<Longrightarrow> read_length 126 (put_be 2 (unat (word_of_int n :: 16 word)) @ r) = (Inr n, r)"
proof -
  assume "0 \<le> n" "n \<le> 65535"
  then have "unat (word_of_int n :: 16 word) = nat n"
    by (simp add: unsigned_of_int take_bit_int_eq_self)
  with \<open>0 \<le> n\<close> \<open>n \<le> 65535\<close> show ?thesis
    by (simp add: read_length_def get_be_put_be)
qed

lemma read_length_long:
  "0 \<le> n \<Longrightarrow> n < 2 ^ 63 \<Longrightarrow> read_length 127 (put_be 8 (unat (word_of_int n :: 64 word)) @ r) = (Inr n, r)"
proof -
  assume n: "0 \<le> n" "n < 2 ^ 63"
  then have u: "unat (word_of_int n :: 64 word) = nat n"
    by (simp add: unsigned_of_int take_bit_int_eq_self)
  have "sint (word_of_nat (nat n) :: 64 word) = n"
    using n by (simp add: signed_of_int signed_take_bit_int_eq_self)
  then show ?thesis
    using n by (simp add: read_length_def get_be_put_be u)
qed

lemma frame_header_read:
  assumes "header_ok h"
  shows "readFrameHeader (writeFrameHeader h @ rest) = (Inr h, rest)"
proof -
  note ok = assms [unfolded header_ok_def]
  note b0 = first_byte [of "opcode h" "fin h" "rsv1 h" "rsv2 h" "rsv3 h"]
  have key: "get_le (put_le 4 (maskKey h)) = maskKey h"
    by (rule get_le_put_le) simp
  have body: "read_header_body
      (flag (fin h) 7 OR flag (rsv1 h) 6 OR flag (rsv2 h) 5 OR flag (rsv3 h) 4 OR word_of_int (opcode h))
      (flag (masked h) 7 OR code) (enc @ (if masked h then put_le 4 (maskKey h) else []) @ rest) = (Inr h, rest)"
    if "code < 128" "\<And>r. read_length code (enc @ r) = (Inr (payloadLength h), r)" for code enc
    using ok b0 second_byte [OF that(1)] that(2) key
    by (cases h) (auto simp: read_header_body_def Let_def)
  consider "payloadLength h \<le> 125" | "125 < payloadLength h" "payloadLength h \<le> 65535" | "65535 < payloadLength h"
    by linarith
  then show ?thesis
  proof cases
    case 1
    moreover have "word_of_int (payloadLength h) < (128 :: 8 word)"
      using 1 ok by (simp add: word_less_def unsigned_of_int take_bit_int_eq_self)
    ultimately show ?thesis
      using body [of "word_of_int (payloadLength h)" "[]"] ok
      by (simp add: readFrameHeader_def writeFrameHeader_def read_length_short)
  next
    case 2
    then show ?thesis
      using body [of 126 "put_be 2 (unat (word_of_int (payloadLength h) :: 16 word))"] ok
      by (simp add: readFrameHeader_def writeFrameHeader_def read_length_medium)
  next
    case 3
    then show ?thesis
      using body [of 127 "put_be 8 (unat (word_of_int (payloadLength h) :: 64 word))"] ok
      by (simp add: readFrameHeader_def writeFrameHeader_def read_length_long)
  qed
qed

text \<open>
  C21. Frame headers survive the wire: for every header that fits the wire format (opcode of four
  bits, length below 2 to the 63, a mask key only if masked), the library reads back exactly the
  header it wrote, in the short, the 16-bit and the 64-bit length encoding, and leaves the rest of
  the stream untouched.
\<close>

theorem frame_header_roundtrip:
  assumes "header_ok h"
  shows "readFrameHeader (writeFrameHeader h @ rest) = (Inr h, rest)"
  using assms by (rule frame_header_read)

definition example_header :: frame_header where
  "example_header = \<lparr>fin = True, rsv1 = False, rsv2 = False, rsv3 = False, opcode = 2, payloadLength = 70000,
     masked = True, maskKey = 0x1234ABCD\<rparr>"

theorem frame_header_roundtrip_witness:
  "readFrameHeader (writeFrameHeader example_header @ [1, 2]) = (Inr example_header, [1, 2])"
  by (rule frame_header_roundtrip) (simp add: header_ok_def example_header_def)

end
