(* ===== verification/Ws_Close.thy ===== *)
theory Ws_Close
  imports Ws_Frame Connection
begin

text \<open>
  Model of the close payload in \<open>close.go\<close> of the native library: which status codes may travel,
  marshalling and parsing. A Go \<open>uint16\<close> conversion is the reduction modulo 65536 that \<open>put_be 2\<close>
  makes.
\<close>

definition statusReserved :: int where "statusReserved = 1004"
definition StatusNoStatusRcvd :: int where "StatusNoStatusRcvd = 1005"
definition StatusAbnormalClosure :: int where "StatusAbnormalClosure = 1006"
definition StatusProtocolError :: int where "StatusProtocolError = 1002"
definition StatusMessageTooBig :: int where "StatusMessageTooBig = 1009"
definition StatusBadGateway :: int where "StatusBadGateway = 1014"
definition StatusTLSHandshake :: int where "StatusTLSHandshake = 1015"

lemmas native_status_defs = statusReserved_def StatusNoStatusRcvd_def StatusAbnormalClosure_def
  StatusProtocolError_def StatusMessageTooBig_def StatusBadGateway_def StatusTLSHandshake_def

definition validWireCloseCode :: "int \<Rightarrow> bool" where
  "validWireCloseCode code =
     (if code \<in> {statusReserved, StatusNoStatusRcvd, StatusAbnormalClosure, StatusTLSHandshake} then False
      else if StatusNormalClosure \<le> code \<and> code \<le> StatusBadGateway then True
      else if 3000 \<le> code \<and> code \<le> 4999 then True
      else False)"

definition parseClosePayload :: "bytes \<Rightarrow> (int \<times> string) res" where
  "parseClosePayload p =
     (if length p = 0 then Inr (StatusNoStatusRcvd, [])
      else if length p < 2 then
        Inl (Errorf ''close payload %q too small, cannot even contain the 2 byte status code'' [AStr (string_of p)] [])
      else
        let code = int (get_be (take 2 p)); reason = string_of (drop 2 p) in
        if \<not> validWireCloseCode code then Inl (Errorf ''invalid status code %v'' [AInt code] [])
        else Inr (code, reason))"

definition maxCloseReason :: int where "maxCloseReason = maxControlPayload - 2"

definition bytesErr :: "int \<Rightarrow> string \<Rightarrow> bytes res" where
  "bytesErr code reason =
     (if int (length reason) > maxCloseReason then
        Inl (Errorf ''reason string max is %v but got %q with length %v''
               [AInt maxCloseReason, AStr reason, AInt (int (length reason))] [])
      else if \<not> validWireCloseCode code then Inl (Errorf ''status code %v cannot be set'' [AInt code] [])
      else Inr (put_be 2 (nat code) @ bytes_of reason))"

text \<open>\<open>CloseError.bytes\<close>: on an error it returns both the error and the payload of an internal error.\<close>

definition close_bytes :: "int \<Rightarrow> string \<Rightarrow> bytes \<times> go_error option" where
  "close_bytes code reason =
     (case bytesErr code reason of
        Inr p \<Rightarrow> (p, None)
      | Inl err \<Rightarrow>
          ((case bytesErr StatusInternalError [] of Inr p \<Rightarrow> p | Inl e \<Rightarrow> []),
           Some (wrap ''failed to marshal close frame: %w'' err)))"

lemma validWireCloseCode_range: "validWireCloseCode code \<Longrightarrow> 1000 \<le> code \<and> code < 5000"
  by (auto simp: validWireCloseCode_def status_defs native_status_defs split: if_splits)

lemma bytesErr_Inr:
  "bytesErr code reason = Inr p \<longleftrightarrow>
     length reason \<le> 123 \<and> validWireCloseCode code \<and> p = put_be 2 (nat code) @ bytes_of reason"
  by (auto simp: bytesErr_def maxCloseReason_def maxControlPayload_def)

lemma parse_marshalled:
  "validWireCloseCode code \<Longrightarrow> parseClosePayload (put_be 2 (nat code) @ bytes_of reason) = Inr (code, reason)"
proof -
  assume valid: "validWireCloseCode code"
  then have "int (nat code mod 65536) = code"
    using validWireCloseCode_range [of code] by (simp add: nat_less_iff)
  with valid show ?thesis
    by (simp add: parseClosePayload_def Let_def get_be_put_be)
qed

lemma parseClosePayload_status: "parseClosePayload p = Inr (code, reason) \<Longrightarrow> 1000 \<le> code"
  using validWireCloseCode_range [of code]
  by (auto simp: parseClosePayload_def Let_def native_status_defs split: if_splits)

text \<open>
  C22. Close payloads survive the wire, and nothing else is accepted: marshalling succeeds exactly
  for a legal wire status with a reason of at most 123 bytes, the payload then fits a control frame
  and parses back to the same status and reason; and every payload of at most 125 bytes that parses to
  a status other than \<open>StatusNoStatusRcvd\<close> is the marshalling of what it parses to.
\<close>

theorem close_payload_roundtrip:
  "(bytesErr code reason = Inr p \<longleftrightarrow>
      int (length p) \<le> maxControlPayload \<and> code \<noteq> StatusNoStatusRcvd \<and> parseClosePayload p = Inr (code, reason))"
proof
  assume "bytesErr code reason = Inr p"
  then show "int (length p) \<le> maxControlPayload \<and> code \<noteq> StatusNoStatusRcvd \<and> parseClosePayload p = Inr (code, reason)"
    using parse_marshalled [of code reason]
    by (auto simp: bytesErr_Inr maxControlPayload_def validWireCloseCode_def)
next
  assume ok: "int (length p) \<le> maxControlPayload \<and> code \<noteq> StatusNoStatusRcvd \<and> parseClosePayload p = Inr (code, reason)"
  then have p: "2 \<le> length p" "code = int (get_be (take 2 p))" "reason = string_of (drop 2 p)" "validWireCloseCode code"
    by (auto simp: parseClosePayload_def Let_def split: if_splits)
  have "put_be 2 (get_be (take 2 p)) = take 2 p"
    using put_be_get_be [of "take 2 p"] p(1) by simp
  then have "p = put_be 2 (nat code) @ bytes_of reason"
    using p(2,3) append_take_drop_id [of 2 p] by simp
  moreover have "length reason \<le> 123"
    using ok p(3) by (simp add: maxControlPayload_def) linarith
  ultimately show "bytesErr code reason = Inr p"
    using p(4) by (simp add: bytesErr_Inr)
qed

end
