(* ===== verification/Ws_Mask.thy ===== *)
theory Ws_Mask
  imports Go_Binary
begin

text \<open>
  Model of \<open>mask.go\<close> of the native library: the unrolled, word-at-a-time masking of a payload and
  the byte-at-a-time definition of RFC 6455 that it implements. A slice that the code overwrites in
  place is the list of its bytes before, and the result starts with the bytes after.
\<close>

unbundle bit_operations_syntax

section \<open>The code\<close>

text \<open>The body of an unrolled loop: \<open>n\<close> loads, exclusive ors and stores of eight bytes each.\<close>

fun xor64s :: "nat \<Rightarrow> 64 word \<Rightarrow> bytes \<Rightarrow> bytes" where
  "xor64s 0 key64 b = []"
| "xor64s (Suc n) key64 b = put_le 8 (get_le (take 8 b) XOR key64) @ xor64s n key64 (drop 8 b)"

text \<open>The loop around it: the masked bytes and the rest of the slice.\<close>

function mask_loop64 :: "nat \<Rightarrow> 64 word \<Rightarrow> bytes \<Rightarrow> bytes \<times> bytes" where
  "mask_loop64 n key64 b =
     (if 0 < n \<and> 8 * n \<le> length b then
        let (masked, rest) = mask_loop64 n key64 (drop (8 * n) b) in
        (xor64s n key64 (take (8 * n) b) @ masked, rest)
      else ([], b))"
  by pat_completeness auto
termination by (relation "measure (\<lambda>(n, key64, b). length b)") auto

function mask_loop32 :: "32 word \<Rightarrow> bytes \<Rightarrow> bytes \<times> bytes" where
  "mask_loop32 key b =
     (if 4 \<le> length b then
        let (masked, rest) = mask_loop32 key (drop 4 b) in
        (put_le 4 (get_le (take 4 b) XOR key) @ masked, rest)
      else ([], b))"
  by pat_completeness auto
termination by (relation "measure (\<lambda>(key, b). length b)") auto

declare mask_loop64.simps [simp del] mask_loop32.simps [simp del]

text \<open>The last loop; it is also the masking of RFC 6455 on any number of bytes.\<close>

fun mask_bytes :: "bytes \<Rightarrow> 32 word \<Rightarrow> bytes \<times> 32 word" where
  "mask_bytes [] key = ([], key)"
| "mask_bytes (x # b) key =
     (let (masked, key') = mask_bytes b (word_rotr 8 key) in ((x XOR ucast key) # masked, key'))"

definition mask_words :: "bytes \<Rightarrow> 32 word \<Rightarrow> bytes \<times> bytes" where
  "mask_words b key =
     (if 8 \<le> length b then
        let key64 = push_bit 32 (ucast key) OR ucast key;
            (m16, b1) = mask_loop64 16 key64 b;
            (m8, b2) = mask_loop64 8 key64 b1;
            (m4, b3) = mask_loop64 4 key64 b2;
            (m2, b4) = mask_loop64 2 key64 b3;
            (m1, b5) = mask_loop64 1 key64 b4
        in (m16 @ m8 @ m4 @ m2 @ m1, b5)
      else ([], b))"

definition maskGo :: "bytes \<Rightarrow> 32 word \<Rightarrow> bytes \<times> 32 word" where
  "maskGo b key =
     (let (m64, b1) = mask_words b key;
          (m32, b2) = mask_loop32 key b1;
          (m, key') = mask_bytes b2 key
      in (m64 @ m32 @ m, key'))"

section \<open>The reference\<close>

lemma length_mask_bytes [simp]: "length (fst (mask_bytes b key)) = length b"
  by (induction b arbitrary: key) (auto simp: split_beta Let_def)

lemma mask_bytes_append:
  "mask_bytes (a @ b) key =
     (let (ma, k) = mask_bytes a key; (mb, k') = mask_bytes b k in (ma @ mb, k'))"
  by (induction a arbitrary: key) (auto simp: split_beta Let_def)

lemma word_rotr_add: "word_rotr m (word_rotr n w) = word_rotr (m + n) (w :: 'a::len word)"
  by (intro bit_word_eqI) (simp add: bit_word_rotr_iff mod_simps ac_simps)

lemma word_rotr_full: "word_rotr LENGTH('a) w = (w :: 'a::len word)"
  by (intro bit_word_eqI) (simp add: bit_word_rotr_iff)

lemma put_le_4: "put_le 4 w = [ucast w, ucast (drop_bit 8 w), ucast (drop_bit 16 w), ucast (drop_bit 24 w)]"
proof -
  have "put_le 4 w = put_le (Suc (Suc (Suc (Suc 0)))) w" by (simp add: eval_nat_numeral)
  then show ?thesis by simp
qed

lemma put_le_8: "put_le 8 w = put_le 4 w @ put_le 4 (drop_bit 32 w)"
proof -
  have "put_le (Suc (Suc (Suc (Suc 4)))) w = put_le 4 w @ put_le 4 (drop_bit 32 w)"
    unfolding put_le.simps by (simp add: put_le_4)
  then show ?thesis by simp
qed

text \<open>The key returns to itself after four bytes.\<close>

lemma mask_bytes_4:
  assumes "length b = 4"
  shows "mask_bytes b key = (map2 (XOR) b (put_le 4 key), key)"
proof -
  obtain w x y z where b: "b = [w, x, y, z]"
    using assms by (auto simp: length_Suc_conv numeral_eq_Suc)
  have rot: "ucast (word_rotr m key) = (ucast (drop_bit m key) :: 8 word)" if "m \<le> 24" for m
    using that by (intro bit_word_eqI) (auto simp: bit_unsigned_iff bit_word_rotr_iff bit_drop_bit_eq ac_simps dest: bit_imp_le_length)
  show ?thesis
    using rot [of 8] rot [of 16] rot [of 24] word_rotr_full [of key]
    by (simp add: b put_le_4 word_rotr_add Let_def)
qed

definition key64_of :: "32 word \<Rightarrow> 64 word" where
  "key64_of key = push_bit 32 (ucast key) OR ucast key"

lemma key64_bytes: "put_le 8 (key64_of key) = put_le 4 key @ put_le 4 key"
proof -
  have lo: "ucast (drop_bit m (key64_of key)) = (ucast (drop_bit m key) :: 8 word)" if "m \<le> 24" for m
    using that by (intro bit_word_eqI)
      (auto simp: key64_of_def bit_unsigned_iff bit_drop_bit_eq bit_or_iff bit_push_bit_iff dest: bit_imp_le_length)
  have hi: "ucast (drop_bit (m + 32) (key64_of key)) = (ucast (drop_bit m key) :: 8 word)" if "m \<le> 24" for m
    using that by (intro bit_word_eqI)
      (auto simp: key64_of_def bit_unsigned_iff bit_drop_bit_eq bit_or_iff bit_push_bit_iff ac_simps dest: bit_imp_le_length)
  show ?thesis
    using lo [of 0] lo [of 8] lo [of 16] lo [of 24] hi [of 0] hi [of 8] hi [of 16] hi [of 24]
    by (simp add: put_le_8 put_le_4)
qed

lemma mask_bytes_8:
  assumes "length b = 8"
  shows "mask_bytes b key = (put_le 8 (get_le b XOR key64_of key), key)"
proof -
  have split: "mask_bytes (take 4 b @ drop 4 b) key =
      (map2 (XOR) (take 4 b) (put_le 4 key) @ map2 (XOR) (drop 4 b) (put_le 4 key), key)"
    using assms by (simp only: mask_bytes_append) (simp add: mask_bytes_4)
  have "put_le 8 (get_le b XOR key64_of key) = map2 (XOR) b (put_le 4 key @ put_le 4 key)"
    using put_le_xor [of b "key64_of key"] assms by (simp add: key64_bytes)
  also have "\<dots> = map2 (XOR) (take 4 b @ drop 4 b) (put_le 4 key @ put_le 4 key)"
    by simp
  also have "\<dots> = map2 (XOR) (take 4 b) (put_le 4 key) @ map2 (XOR) (drop 4 b) (put_le 4 key)"
    using assms by (subst zip_append) simp_all
  finally show ?thesis using split by simp
qed

lemma mask_bytes_cut:
  assumes "mask_bytes (take n b) key = (m, key)"
  shows "mask_bytes b key = (let (m', k) = mask_bytes (drop n b) key in (m @ m', k))"
  using mask_bytes_append [of "take n b" "drop n b" key] assms by (simp add: split_beta Let_def)

lemma xor64s_mask: "length b = 8 * n \<Longrightarrow> mask_bytes b key = (xor64s n (key64_of key) b, key)"
proof (induction n arbitrary: b)
  case (Suc n)
  have "mask_bytes (take 8 b) key = (put_le 8 (get_le (take 8 b) XOR key64_of key), key)"
    using Suc.prems by (intro mask_bytes_8) simp
  from mask_bytes_cut [OF this] Suc show ?case by simp
qed simp

lemma mask_loop64_mask:
  "mask_loop64 n (key64_of key) b = (m, rest) \<Longrightarrow>
   mask_bytes b key = (let (m', k) = mask_bytes rest key in (m @ m', k))"
proof (induction "length b" arbitrary: b m rule: less_induct)
  case less
  show ?case
  proof (cases "0 < n \<and> 8 * n \<le> length b")
    case True
    obtain m1 where loop: "mask_loop64 n (key64_of key) (drop (8 * n) b) = (m1, rest)"
      and m: "m = xor64s n (key64_of key) (take (8 * n) b) @ m1"
      using less.prems True by (subst (asm) mask_loop64.simps) (auto simp: Let_def split: prod.splits)
    have "mask_bytes (take (8 * n) b) key = (xor64s n (key64_of key) (take (8 * n) b), key)"
      using True by (intro xor64s_mask) simp
    moreover have "length (drop (8 * n) b) < length b"
      using True by (simp only: length_drop) linarith
    ultimately show ?thesis
      using mask_bytes_cut [of "8 * n" b key] less.hyps [OF _ loop]
      by (simp add: m split_beta Let_def)
  next
    case False
    then show ?thesis using less.prems by (subst (asm) mask_loop64.simps) (auto simp: Let_def)
  qed
qed

lemma mask_loop32_mask:
  "mask_loop32 key b = (m, rest) \<Longrightarrow> mask_bytes b key = (let (m', k) = mask_bytes rest key in (m @ m', k))"
proof (induction "length b" arbitrary: b m rule: less_induct)
  case less
  show ?case
  proof (cases "4 \<le> length b")
    case True
    obtain m1 where loop: "mask_loop32 key (drop 4 b) = (m1, rest)"
      and m: "m = put_le 4 (get_le (take 4 b) XOR key) @ m1"
      using less.prems True by (subst (asm) mask_loop32.simps) (auto simp: Let_def split: prod.splits)
    have "mask_bytes (take 4 b) key = (put_le 4 (get_le (take 4 b) XOR key), key)"
      using True mask_bytes_4 [of "take 4 b" key] put_le_xor [of "take 4 b" key] by simp
    from mask_bytes_cut [OF this] less.hyps [OF _ loop] True show ?thesis
      by (simp add: m split_beta Let_def)
  next
    case False
    then show ?thesis using less.prems by (subst (asm) mask_loop32.simps) (auto simp: Let_def)
  qed
qed

lemma mask_words_mask:
  "mask_words b key = (m, rest) \<Longrightarrow> mask_bytes b key = (let (m', k) = mask_bytes rest key in (m @ m', k))"
proof (cases "8 \<le> length b")
  case True
  assume run: "mask_words b key = (m, rest)"
  let ?loop = "\<lambda>n. mask_loop64 n (key64_of key)"
  obtain m1 b1 m2 b2 m3 b3 m4 b4 m5 b5 where
      loops: "?loop 16 b = (m1, b1)" "?loop 8 b1 = (m2, b2)" "?loop 4 b2 = (m3, b3)" "?loop 2 b3 = (m4, b4)"
        "?loop 1 b4 = (m5, b5)"
    by (metis surj_pair)
  then have "m = m1 @ m2 @ m3 @ m4 @ m5" "rest = b5"
    using run True by (simp_all add: mask_words_def key64_of_def)
  then show ?thesis
    using loops [THEN mask_loop64_mask] by (simp add: split_beta Let_def)
qed (simp add: mask_words_def split_beta)

lemma maskGo_mask_bytes: "maskGo b key = mask_bytes b key"
proof -
  obtain m1 b1 where words: "mask_words b key = (m1, b1)" by (cases "mask_words b key")
  obtain m2 b2 where quads: "mask_loop32 key b1 = (m2, b2)" by (cases "mask_loop32 key b1")
  show ?thesis
    using mask_words_mask [OF words] mask_loop32_mask [OF quads] words quads
    by (simp add: maskGo_def split_beta Let_def)
qed

lemma mask_bytes_involution: "mask_bytes (fst (mask_bytes b key)) key = (b, snd (mask_bytes b key))"
  by (induction b arbitrary: key) (auto simp: split_beta Let_def xor.assoc)

text \<open>Masking in pieces, with the key that each piece returns, is masking the whole.\<close>

lemma maskGo_append:
  "maskGo (a @ b) key = (let (ma, k) = maskGo a key; (mb, k') = maskGo b k in (ma @ mb, k'))"
  by (simp add: maskGo_mask_bytes mask_bytes_append)

lemma mask_bytes_nth:
  "mask_bytes b key =
     (map (\<lambda>i. b ! i XOR ucast (word_rotr (8 * i) key)) [0..<length b], word_rotr (8 * length b) key)"
proof (induction b arbitrary: key)
  case Nil
  have "word_rotr 0 key = key" by (intro bit_word_eqI) (simp add: bit_word_rotr_iff)
  then show ?case by simp
next
  case (Cons x b)
  have zero: "word_rotr 0 key = key" by (intro bit_word_eqI) (simp add: bit_word_rotr_iff)
  have "map f [0..<Suc n] = f 0 # map (\<lambda>i. f (Suc i)) [0..<n]" for f :: "nat \<Rightarrow> 8 word" and n
    by (simp add: upt_conv_Cons map_Suc_upt [symmetric] del: upt_Suc)
  with Cons zero show ?case by (simp add: word_rotr_add add.commute del: upt_Suc)
qed

lemma rotated_byte: "ucast (word_rotr (8 * i) key) = put_le 4 key ! (i mod 4)" for key :: "32 word"
proof -
  have "(8 * i) mod 32 = 8 * (i mod 4)"
    using mult_mod_right [of 8 i 4] by simp
  then have "word_rotr (8 * i) key = word_rotr (8 * (i mod 4)) key"
    by (intro bit_word_eqI) (simp add: bit_word_rotr_iff, metis mod_add_right_eq)
  moreover have rot: "ucast (word_rotr m key) = (ucast (drop_bit m key) :: 8 word)" if "m \<le> 24" for m
    using that by (intro bit_word_eqI) (auto simp: bit_unsigned_iff bit_word_rotr_iff bit_drop_bit_eq ac_simps dest: bit_imp_le_length)
  moreover have "i mod 4 = 0 \<or> i mod 4 = 1 \<or> i mod 4 = 2 \<or> i mod 4 = 3"
    by linarith
  ultimately show ?thesis
    using rot [of 0] rot [of 8] rot [of 16] rot [of 24] by (auto simp: put_le_4)
qed

section \<open>Properties\<close>

text \<open>
  C20. The unrolled masking of the native library is the masking of RFC 6455 for every payload
  length: byte \<open>i\<close> of the payload is combined with byte \<open>i mod 4\<close> of the key, and the key that is
  returned is the key rotated by the number of bytes masked, ready for the next fragment.
\<close>

theorem maskGo_is_rfc_masking:
  "maskGo b key =
     (map (\<lambda>i. b ! i XOR put_le 4 key ! (i mod 4)) [0..<length b], word_rotr (8 * length b) key)"
  by (simp add: maskGo_mask_bytes mask_bytes_nth rotated_byte)

end
