(* ===== verification/Ws_Compress.thy ===== *)
theory Ws_Compress
  imports Go_Prelude "HOL-Library.Sublist"
begin

text \<open>
  Model of the streams of \<open>compress.go\<close>, and the part of a connection that only compression uses.
  \<open>compress/flate\<close> is an argument, the record \<open>flate_lib\<close>; what the code relies on is \<open>flate_ok\<close>.
\<close>

section \<open>Options\<close>

record compression_options =
  co_clientNoContextTakeover :: bool
  co_serverNoContextTakeover :: bool

text \<open>Whether the writer of a side keeps its window from message to message, and whether its reader does.\<close>

definition flateContextTakeover :: "bool \<Rightarrow> compression_options \<Rightarrow> bool" where
  "flateContextTakeover client copts =
     (if client then \<not> co_clientNoContextTakeover copts else \<not> co_serverNoContextTakeover copts)"

definition mr_flateContextTakeover :: "bool \<Rightarrow> compression_options \<Rightarrow> bool" where
  "mr_flateContextTakeover client copts =
     (if client then \<not> co_serverNoContextTakeover copts else \<not> co_clientNoContextTakeover copts)"

section \<open>The trimming writer\<close>

definition deflateMessageTail :: bytes where
  "deflateMessageTail = [0x00, 0x00, 0xFF, 0xFF]"

text \<open>
  \<open>trimLastFourBytesWriter.Write\<close> over a buffer, whose writes succeed: what it passes on, and the tail that it keeps.
\<close>

definition tw_write :: "bytes \<Rightarrow> bytes \<Rightarrow> bytes \<times> bytes" where
  "tw_write tail p =
     (let extra = int (length tail) + int (length p) - 4 in
      if extra \<le> 0 then ([], tail @ p)
      else
        let n = nat (if extra > int (length tail) then int (length tail) else extra);
            passed = take n tail; tail1 = drop n tail in
        if length p \<le> 4 then (passed, tail1 @ p)
        else (passed @ take (length p - 4) p, tail1 @ drop (length p - 4) p))"

fun tw_writes :: "bytes \<Rightarrow> bytes list \<Rightarrow> bytes \<times> bytes" where
  "tw_writes tail [] = ([], tail)"
| "tw_writes tail (p # ps) =
     (let (passed, tail1) = tw_write tail p; (rest, tail2) = tw_writes tail1 ps in (passed @ rest, tail2))"

text \<open>All but the last \<open>n\<close> elements, and the last \<open>n\<close>.\<close>

definition but_last :: "nat \<Rightarrow> 'a list \<Rightarrow> 'a list" where
  "but_last n xs = take (length xs - n) xs"

definition last_n :: "nat \<Rightarrow> 'a list \<Rightarrow> 'a list" where
  "last_n n xs = drop (length xs - n) xs"

lemma but_last_n [simp]: "but_last n xs @ last_n n xs = xs"
  by (simp add: but_last_def last_n_def)

lemma length_last_n [simp]: "length (last_n n xs) = min n (length xs)"
  by (simp add: last_n_def)

lemma but_last_append: "length ys = n \<Longrightarrow> but_last n (xs @ ys) = xs"
  by (simp add: but_last_def)

lemma last_n_last_n: "last_n n (last_n n xs @ ys) = last_n n (xs @ ys)"
proof (cases "length xs \<le> n")
  case False
  then have "length xs + length ys - (length xs - n + n) + (length xs - n) = length xs + length ys - n" by simp
  then show ?thesis by (simp add: last_n_def)
qed (simp add: last_n_def)

lemma tw_write_trims:
  assumes "length tail \<le> 4"
  shows "tw_write tail p = (but_last 4 (tail @ p), last_n 4 (tail @ p))"
proof -
  have "nat (int (length tail) + int (length p)) - 4 = length tail + length p - 4" by (simp add: nat_int_add)
  with assms show ?thesis
    by (auto simp: tw_write_def but_last_def last_n_def Let_def not_le nat_diff_distrib)
qed

lemma tw_writes_trim:
  "length tail \<le> 4 \<Longrightarrow> tw_writes tail ps = (but_last 4 (tail @ concat ps), last_n 4 (tail @ concat ps))"
proof (induction ps arbitrary: tail)
  case Nil
  then show ?case by (simp add: but_last_def last_n_def)
next
  case (Cons p ps)
  have "but_last 4 (tail @ p) @ but_last 4 (last_n 4 (tail @ p) @ concat ps) = but_last 4 (tail @ p @ concat ps)"
  proof -
    have "but_last 4 (xs @ last_n 4 ys @ zs) = xs @ but_last 4 (last_n 4 ys @ zs)"
      if "xs @ last_n 4 ys = ys" for xs ys zs :: bytes
    proof (cases "length ys \<le> 4")
      case True
      with that have "xs = []" by (metis append_self_conv2 diff_is_0_eq drop_0 last_n_def)
      then show ?thesis by simp
    qed (simp add: but_last_def)
    from this [of "but_last 4 (tail @ p)" "tail @ p" "concat ps"] show ?thesis
      by (metis append.assoc but_last_n)
  qed
  then show ?case
    using Cons.IH [of "last_n 4 (tail @ p)"] tw_write_trims [OF Cons.prems] last_n_last_n [of 4 "tail @ p" "concat ps"]
    by simp
qed

section \<open>The sliding window\<close>

text \<open>\<open>slidingWindow.write\<close>; \<open>n\<close> is the capacity of the buffer, which the two copies move within.\<close>

definition sw_write :: "nat \<Rightarrow> bytes \<Rightarrow> bytes \<Rightarrow> bytes" where
  "sw_write n buf p =
     (if length p \<ge> n then drop (length p - n) p
      else
        let left = n - length buf;
            buf1 = (if left < length p then
                      let spaceNeeded = length p - left;
                          moved = drop spaceNeeded buf @ drop (length buf - spaceNeeded) buf in
                      take (length buf - spaceNeeded) moved
                    else buf)
        in buf1 @ p)"

lemma sw_write_window:
  assumes "length buf \<le> n"
  shows "sw_write n buf p = last_n n (buf @ p)"
  using assms by (auto simp: sw_write_def last_n_def Let_def not_le add.commute)

lemma sw_writes_window: "foldl (sw_write n) (last_n n xs) ps = last_n n (xs @ concat ps)"
proof (induction ps arbitrary: xs)
  case (Cons p ps)
  have "sw_write n (last_n n xs) p = last_n n (xs @ p)"
    using sw_write_window [of "last_n n xs" n p] last_n_last_n [of n xs p] by simp
  then show ?case using Cons.IH [of "xs @ p"] by simp
qed simp

text \<open>
  C24. The buffers of compression do what they are for, in whatever pieces the bytes come: the trimming writer passes on all that it
  gets but for the last four bytes and keeps those, and the sliding window holds the last bytes, as many as it has room for.
\<close>

theorem compression_buffers_exact:
  "tw_writes [] ps = (but_last 4 (concat ps), last_n 4 (concat ps)) \<and> foldl (sw_write n) [] ps = last_n n (concat ps)"
  using tw_writes_trim [of "[]" ps] sw_writes_window [of n "[]" ps] by (simp add: last_n_def)

definition windowSize :: nat where "windowSize = 32768"

section \<open>The flate library\<close>

text \<open>
  A reader that has consumed some bytes: what it can deliver, what it has decoded (it delivers that only when
  an error ends it), and the error, \<open>io.EOF\<close> after a final block.
\<close>

record inflated =
  in_ready :: bytes
  in_decoded :: bytes
  in_err :: "go_error option"

text \<open>
  \<open>fl_flush hs p\<close> is what a \<open>flate.Writer\<close> that has written and flushed the messages \<open>hs\<close> passes on, in pieces, when
  it writes and flushes \<open>p\<close>. \<open>fl_inflate d q\<close> is the state of a reader with the dictionary \<open>d\<close> after \<open>q\<close>.
\<close>

record flate_lib =
  fl_flush :: "bytes list \<Rightarrow> bytes \<Rightarrow> bytes list"
  fl_inflate :: "bytes \<Rightarrow> bytes \<Rightarrow> inflated"

text \<open>A reader turns \<open>w\<close> into \<open>p\<close>, without an end, and on the way has nothing but parts of \<open>p\<close> to deliver.\<close>

definition inflates :: "flate_lib \<Rightarrow> bytes \<Rightarrow> bytes \<Rightarrow> bytes \<Rightarrow> bool" where
  "inflates lib d w p =
     ((\<forall>q. prefix q w \<longrightarrow> in_err (fl_inflate lib d q) = None \<and> prefix (in_ready (fl_inflate lib d q)) p) \<and>
      in_ready (fl_inflate lib d w) = p \<and> in_decoded (fl_inflate lib d w) = p)"

text \<open>
  What \<open>Flush\<close> is documented to do: it ends with the marker of a synchronising flush, and lets a
  reader that has seen the last 32768 bytes of the messages before reconstruct the whole message.
\<close>

definition flate_ok :: "flate_lib \<Rightarrow> bool" where
  "flate_ok lib =
     (\<forall>hs p. last_n 4 (concat (fl_flush lib hs p)) = deflateMessageTail \<and>
        inflates lib (last_n windowSize (concat hs)) (concat (fl_flush lib hs p)) p)"

section \<open>The compression state of a connection\<close>

text \<open>
  Of the connection: the options, nil without compression, and the threshold. Of \<open>msgWriter\<close>: \<open>fs_history\<close>, the
  messages its \<open>flateWriter\<close> has written, if it has one. Of \<open>msgReader\<close>: \<open>fs_on\<close> (\<open>flate\<close>), \<open>fs_tail\<close> (\<open>flateTail\<close>),
  \<open>fs_buf\<close> and \<open>fs_buferr\<close> (\<open>flateBufio\<close>), \<open>fs_dict\<close> (\<open>dict\<close>), and the \<open>flateReader\<close>: its dictionary, what it has
  consumed, how much it has delivered, and the error of its source.
\<close>

record flate_state =
  fs_copts :: "compression_options option"
  fs_threshold :: int
  fs_lib :: flate_lib
  fs_history :: "bytes list option"
  fs_on :: bool
  fs_tail :: bytes
  fs_buf :: bytes
  fs_buferr :: "go_error option"
  fs_dict :: "bytes option"
  fs_dictionary :: bytes
  fs_consumed :: bytes
  fs_taken :: nat
  fs_err :: "go_error option"

definition new_flate :: "compression_options option \<Rightarrow> int \<Rightarrow> flate_lib \<Rightarrow> flate_state" where
  "new_flate copts threshold lib =
     \<lparr>fs_copts = copts, fs_threshold = threshold, fs_lib = lib, fs_history = None, fs_on = False, fs_tail = [],
      fs_buf = [], fs_buferr = None, fs_dict = None, fs_dictionary = [], fs_consumed = [], fs_taken = 0, fs_err = None\<rparr>"

text \<open>What no operation changes.\<close>

definition same_codec :: "flate_state \<Rightarrow> flate_state \<Rightarrow> bool" where
  "same_codec f f' = (fs_copts f' = fs_copts f \<and> fs_threshold f' = fs_threshold f \<and> fs_lib f' = fs_lib f)"

lemma same_codec_refl [simp]: "same_codec f f"
  by (simp add: same_codec_def)

lemma same_codec_trans: "same_codec f g \<Longrightarrow> same_codec g h \<Longrightarrow> same_codec f h"
  by (simp add: same_codec_def)

section \<open>A library of stored blocks\<close>

text \<open>
  An inflater for stored blocks, to which every other block is corrupt and which delivers at a flush or an error, and
  a writer that makes a block of every byte. It is no part of the program: it shows that a library can be what
  \<open>flate_ok\<close> says.
\<close>

function stored_inflate :: "bytes \<Rightarrow> bytes \<times> go_error option" where
  "stored_inflate q =
     (case q of
        h # a # b # c # d # rest \<Rightarrow>
          let n = unat a + 256 * unat b in
          if h \<notin> {0, 1} \<or> a + c \<noteq> 0xFF \<or> b + d \<noteq> 0xFF then ([], Some (errors_new ''flate: corrupt input''))
          else if length rest < n then (rest, None)
          else if h = 1 then (take n rest, Some ErrEOF)
          else let (out, e) = stored_inflate (drop n rest) in (take n rest @ out, e)
      | _ \<Rightarrow> ([], None))"
  by pat_completeness auto
termination
  by (relation "measure length") auto

declare stored_inflate.simps [simp del]

definition stored_byte :: "8 word \<Rightarrow> bytes" where
  "stored_byte x = [0x00, 0x01, 0x00, 0xFE, 0xFF, x]"

definition stored_lib :: flate_lib where
  "stored_lib =
     \<lparr>fl_flush = (\<lambda>hs p. map stored_byte p @ [[0x00], deflateMessageTail]),
      fl_inflate = (\<lambda>d q. let (out, e) = stored_inflate q in
        \<lparr>in_ready = (if e \<noteq> None \<or> last_n 4 q = deflateMessageTail then out else []), in_decoded = out, in_err = e\<rparr>)\<rparr>"

lemma stored_inflate_short: "length q < 6 \<Longrightarrow> prefix q (stored_byte x @ w) \<Longrightarrow> stored_inflate q = ([], None)"
  by (subst stored_inflate.simps) (auto simp: stored_byte_def prefix_Cons split: list.split)

lemma stored_inflate_byte:
  "stored_inflate (stored_byte x @ q) = (x # fst (stored_inflate q), snd (stored_inflate q))"
  by (subst stored_inflate.simps) (simp add: stored_byte_def case_prod_beta)

lemma stored_inflate_end: "prefix q (0x00 # deflateMessageTail) \<Longrightarrow> stored_inflate q = ([], None)"
  by (subst stored_inflate.simps)
    (auto simp: deflateMessageTail_def prefix_Cons split: list.split, subst stored_inflate.simps, simp)

lemma stored_inflates:
  assumes "prefix q (concat (map stored_byte p) @ 0x00 # deflateMessageTail)"
  shows "snd (stored_inflate q) = None \<and> prefix (fst (stored_inflate q)) p"
  using assms
proof (induction p arbitrary: q)
  case Nil
  then show ?case by (simp add: stored_inflate_end)
next
  case (Cons x p)
  let ?w = "concat (map stored_byte p) @ 0x00 # deflateMessageTail"
  show ?case
  proof (cases "length q < 6")
    case True
    then show ?thesis using Cons.prems stored_inflate_short [of q x ?w] by simp
  next
    case False
    moreover have "length (stored_byte x) = 6" by (simp add: stored_byte_def)
    moreover have "prefix q (stored_byte x @ ?w)" using Cons.prems by simp
    ultimately have "prefix (stored_byte x) q"
      by (metis not_less prefix_length_prefix prefixI)
    then obtain q' where q: "q = stored_byte x @ q'" by (auto simp: prefix_def)
    then have "prefix q' ?w" using Cons.prems by simp
    then show ?thesis using Cons.IH by (simp add: q stored_inflate_byte)
  qed
qed

lemma stored_inflate_whole:
  "stored_inflate (concat (map stored_byte p) @ 0x00 # deflateMessageTail) = (p, None)"
  by (induction p) (simp_all add: stored_inflate_byte stored_inflate_end)

lemma stored_lib_ok: "flate_ok stored_lib"
proof -
  have flush: "concat (fl_flush stored_lib hs p) = concat (map stored_byte p) @ 0x00 # deflateMessageTail" for hs p
    by (simp add: stored_lib_def)
  have "last_n 4 (concat (map stored_byte p) @ 0x00 # deflateMessageTail) = deflateMessageTail" for p
    by (simp add: last_n_def deflateMessageTail_def)
  then show ?thesis
    using stored_inflates stored_inflate_whole
    by (simp add: flate_ok_def inflates_def flush) (simp add: stored_lib_def case_prod_beta)
qed

end
