(* ===== verification/Ws_Conn.thy ===== *)
theory Ws_Conn
  imports Ws_Close Ws_Mask Ws_Compress
begin

text \<open>
  Model of the native connection: \<open>conn.go\<close>, \<open>read.go\<close>, \<open>write.go\<close> and \<open>close.go\<close> of the native
  library, with and without negotiated compression.

  The network is part of the state: the bytes that the peer will still send before the stream ends,
  the bytes sent so far, and, for every blocking operation, how long it takes. A context is a
  function from the time in milliseconds to its end, so the timeouts of the library are
  definitions. When a context has ended by the time an input or output operation completes, the
  operation counts as interrupted, and the function that the code registers with
  \<open>context.AfterFunc\<close> has closed the connection. One operation runs at a time, so the internal locks
  are free; what a lock attempt still checks is the closed connection and the context.
\<close>

section \<open>State\<close>

type_synonym tctx = "nat \<Rightarrow> ctx_end"

record wsconn =
  c_subprotocol :: string
  c_client :: bool
  c_now :: nat
  c_delays :: "nat list"
  c_in :: bytes
  c_sent :: bytes
  c_buffered :: bytes
  c_bwsize :: nat
  c_werrs :: "go_error option list"
  c_werr :: "go_error option"
  c_keys :: "32 word list"
  c_rwcerr :: "go_error option"
  c_render :: "go_error \<Rightarrow> string"
  c_chunk :: "nat \<Rightarrow> nat"
  c_closing :: bool
  c_closed :: bool
  c_closeReceivedErr :: "go_error option"
  c_closeSentErr :: "go_error option"
  c_pingCounter :: int
  mr_fin :: bool
  mr_payloadLength :: nat
  mr_maskKey :: "32 word"
  lr_limit :: int
  lr_n :: int
  c_fl :: flate_state

type_synonym 'a io = "wsconn \<Rightarrow> 'a res \<times> wsconn"

definition io_return :: "'a \<Rightarrow> 'a io" where
  "io_return x st = (Inr x, st)"

definition io_fail :: "go_error \<Rightarrow> 'a io" where
  "io_fail e st = (Inl e, st)"

definition io_bind :: "'a io \<Rightarrow> ('a \<Rightarrow> 'b io) \<Rightarrow> 'b io" where
  "io_bind m f st = (case m st of (Inl e, st') \<Rightarrow> (Inl e, st') | (Inr x, st') \<Rightarrow> f x st')"

text \<open>A deferred function that rewrites the returned error.\<close>

definition io_wrap :: "string \<Rightarrow> 'a io \<Rightarrow> 'a io" where
  "io_wrap fmt m st = (case m st of (Inl e, st') \<Rightarrow> (Inl (wrap fmt e), st') | (Inr x, st') \<Rightarrow> (Inr x, st'))"

section \<open>Time and contexts\<close>

definition tctx_background :: tctx where
  "tctx_background t = None"

text \<open>\<open>context.WithTimeout\<close> at time \<open>now\<close>.\<close>

definition with_timeout :: "nat \<Rightarrow> nat \<Rightarrow> tctx \<Rightarrow> tctx" where
  "with_timeout now d c t =
     (case c t of
        Some e \<Rightarrow> Some e
      | None \<Rightarrow> if now + d \<le> t then Some (DeadlineExceeded, DeadlineExceeded) else None)"

text \<open>A blocking operation takes the next delay.\<close>

definition elapse :: "wsconn \<Rightarrow> wsconn" where
  "elapse st =
     (case c_delays st of
        [] \<Rightarrow> st
      | d # ds \<Rightarrow> st\<lparr>c_now := c_now st + d, c_delays := ds\<rparr>)"

section \<open>conn.go\<close>

definition isClosed :: "wsconn \<Rightarrow> bool" where
  "isClosed st = c_closed st"

definition conn_close :: "wsconn \<Rightarrow> go_error option \<times> wsconn" where
  "conn_close st =
     (if isClosed st then (Some NetErrClosed, st) else (c_rwcerr st, st\<lparr>c_closed := True\<rparr>))"

definition casClosing :: "wsconn \<Rightarrow> bool \<times> wsconn" where
  "casClosing st = (c_closing st, st\<lparr>c_closing := True\<rparr>)"

definition mu_lock :: "tctx \<Rightarrow> unit io" where
  "mu_lock c st =
     (if c_closed st then (Inl NetErrClosed, st)
      else
        (case c (c_now st) of
           Some (err, cause) \<Rightarrow> (Inl (wrap ''failed to acquire lock: %w'' err), st)
         | None \<Rightarrow> (Inr (), st)))"

text \<open>
  An input or output operation bounded by a context: time passes; if the context has ended by then,
  its \<open>AfterFunc\<close> has closed the connection and the operation fails.
\<close>

definition bounded_io :: "tctx \<Rightarrow> unit io" where
  "bounded_io c st =
     (let st1 = elapse st in
      (case c (c_now st1) of
         Some (err, cause) \<Rightarrow> (Inl err, snd (conn_close st1))
       | None \<Rightarrow> (Inr (), st1)))"

section \<open>write.go\<close>

text \<open>
  \<open>writeFramePayload\<close>. The buffered writer holds \<open>c_buffered\<close> of \<open>c_bwsize\<close> bytes; a full buffer is
  flushed. The client masks each piece in place in the buffer and carries the key along.
\<close>

definition bw_flush :: "wsconn \<Rightarrow> wsconn" where
  "bw_flush st = st\<lparr>c_sent := c_sent st @ c_buffered st, c_buffered := []\<rparr>"

definition bw_write :: "bytes \<Rightarrow> wsconn \<Rightarrow> wsconn" where
  "bw_write p st = st\<lparr>c_buffered := c_buffered st @ p\<rparr>"

definition bw_available :: "wsconn \<Rightarrow> nat" where
  "bw_available st = c_bwsize st - length (c_buffered st)"

function write_masked :: "bytes \<Rightarrow> 32 word \<Rightarrow> wsconn \<Rightarrow> wsconn" where
  "write_masked p key st =
     (if p = [] \<or> c_bwsize st = 0 then st
      else
        let st1 = (if bw_available st = 0 then bw_flush st else st);
            j = min (length p) (bw_available st1);
            (piece, key') = maskGo (take j p) key
        in write_masked (drop j p) key' (bw_write piece st1))"
  by pat_completeness auto
termination
  by (relation "measure (\<lambda>(p, key, st). length p)") (auto simp: bw_available_def bw_flush_def Let_def)

text \<open>The mask key of a client frame comes from the random source.\<close>

definition next_key :: "wsconn \<Rightarrow> 32 word \<times> wsconn" where
  "next_key st =
     (if c_client st then (case c_keys st of [] \<Rightarrow> (0, st) | k # ks \<Rightarrow> (k, st\<lparr>c_keys := ks\<rparr>)) else (0, st))"

definition next_werr :: "wsconn \<Rightarrow> go_error option \<times> wsconn" where
  "next_werr st =
     (case c_werr st of
        Some e \<Rightarrow> (Some e, st)
      | None \<Rightarrow> (case c_werrs st of
                   [] \<Rightarrow> (None, st)
                 | e # es \<Rightarrow> (e, st\<lparr>c_werrs := es, c_werr := e\<rparr>)))"

text \<open>\<open>Conn.flate\<close>.\<close>

definition conn_flate :: "wsconn \<Rightarrow> bool" where
  "conn_flate st = (fs_copts (c_fl st) \<noteq> None)"

text \<open>
  Header, payload and flush of one frame. A write error of the socket sticks to the buffered writer; what
  part of the frame was sent before it is left out.
\<close>

definition put_frame :: "tctx \<Rightarrow> bool \<Rightarrow> bool \<Rightarrow> int \<Rightarrow> bytes \<Rightarrow> unit io" where
  "put_frame c final flate op p st =
     (case bounded_io c st of
        (Inl e, st1) \<Rightarrow> (Inl e, st1)
      | (Inr u, st1) \<Rightarrow>
          (case next_werr st1 of
             (Some e, st2) \<Rightarrow> (Inl e, st2)
           | (None, st2) \<Rightarrow>
               let (key, st3) = next_key st2;
                   h = \<lparr>fin = final, rsv1 = (flate \<and> (op = opText \<or> op = opBinary)), rsv2 = False, rsv3 = False, opcode = op,
                        payloadLength = int (length p), masked = c_client st, maskKey = key\<rparr>;
                   st4 = bw_write (writeFrameHeader h) st3;
                   st5 = (if c_client st then write_masked p key st4 else bw_write p st4)
               in (Inr (), if final then bw_flush st5 else st5)))"

text \<open>The part of \<open>writeFrame\<close> under the lock, before its deferred functions.\<close>

definition write_frame_body :: "tctx \<Rightarrow> bool \<Rightarrow> bool \<Rightarrow> int \<Rightarrow> bytes \<Rightarrow> unit io" where
  "write_frame_body c final flate op p st =
     (if c_closeSentErr st \<noteq> None then (Inl NetErrClosed, st)
      else if c_closed st then (Inl NetErrClosed, st)
      else
        (case put_frame c final flate op p st of
           (Inl e, st1) \<Rightarrow> (Inl e, st1)
         | (Inr u, st1) \<Rightarrow>
             if op = opClose then
               let st2 = st1\<lparr>c_closeSentErr := Some (wrap ''sent close frame: %w'' NetErrClosed)\<rparr> in
               if c_closeReceivedErr st2 \<noteq> None then
                 let (was, st3) = casClosing st2 in
                 (Inr (), if was then st3 else snd (conn_close st3))
               else (Inr (), st2)
             else (Inr (), st1)))"

definition writeFrame :: "tctx \<Rightarrow> bool \<Rightarrow> bool \<Rightarrow> int \<Rightarrow> bytes \<Rightarrow> unit io" where
  "writeFrame c final flate op p st =
     (case mu_lock c st of
        (Inl e, st1) \<Rightarrow> (Inl e, st1)
      | (Inr u, st1) \<Rightarrow>
          (case write_frame_body c final flate op p st1 of
             (Inr v, st2) \<Rightarrow> (Inr v, st2)
           | (Inl e, st2) \<Rightarrow>
               if isClosed st2 \<and> op = opClose then (Inr (), st2)
               else
                 let e1 = (case c (c_now st2) of
                             Some (err, cause) \<Rightarrow> err
                           | None \<Rightarrow> if isClosed st2 then NetErrClosed else e)
                 in (Inl (wrap ''failed to write frame: %w'' e1), st2)))"

definition writeControl :: "tctx \<Rightarrow> int \<Rightarrow> bytes \<Rightarrow> unit io" where
  "writeControl c op p st =
     (case writeFrame (with_timeout (c_now st) 5000 c) True False op p st of
        (Inl e, st1) \<Rightarrow> (Inl (Errorf ''failed to write control frame %v: %w'' [AInt op] [e]), st1)
      | (Inr u, st1) \<Rightarrow> (Inr (), st1))"

text \<open>
  \<open>msgWriter.writeCompressedFrame\<close>: one frame with all that the flate writer passes on, but for the last four
  bytes. A writer that does not keep its window goes back to the pool, where it is reset.
\<close>

definition writeCompressedFrame :: "tctx \<Rightarrow> int \<Rightarrow> bytes \<Rightarrow> unit io" where
  "writeCompressedFrame c op p =
     io_bind (io_wrap ''failed to write: %w'' (mu_lock c)) (\<lambda>u st.
       let f = c_fl st;
           hs = (case fs_history f of None \<Rightarrow> [] | Some hs \<Rightarrow> hs);
           takeover = (case fs_copts f of None \<Rightarrow> False | Some copts \<Rightarrow> flateContextTakeover (c_client st) copts);
           (buf, tail) = tw_writes [] (fl_flush (fs_lib f) hs p)
       in writeFrame c True True op buf
            (st\<lparr>c_fl := f\<lparr>fs_history := (if takeover then Some (hs @ [p]) else None)\<rparr>\<rparr>))"

definition conn_write :: "tctx \<Rightarrow> int \<Rightarrow> bytes \<Rightarrow> unit io" where
  "conn_write c ty p =
     io_bind (mu_lock c) (\<lambda>u st.
       if \<not> conn_flate st \<or> int (length p) < fs_threshold (c_fl st) then writeFrame c True False ty p st
       else writeCompressedFrame c ty p st)"

definition conn_Write :: "tctx \<Rightarrow> int \<Rightarrow> bytes \<Rightarrow> unit io" where
  "conn_Write c ty p = io_wrap ''failed to write msg: %w'' (conn_write c ty p)"

definition writeClose :: "int \<Rightarrow> string \<Rightarrow> unit io" where
  "writeClose code reason st =
     (let (p, err) = (if code \<noteq> StatusNoStatusRcvd then close_bytes code reason else ([], None)) in
      case err of
        Some e \<Rightarrow> (Inl e, st)
      | None \<Rightarrow>
          (case writeControl (with_timeout (c_now st) 5000 tctx_background) opClose p st of
             (Inl e, st1) \<Rightarrow> if errors_is e NetErrClosed then (Inr (), st1) else (Inl e, st1)
           | (Inr u, st1) \<Rightarrow> (Inr (), st1)))"

definition writeError :: "int \<Rightarrow> go_error \<Rightarrow> wsconn \<Rightarrow> wsconn" where
  "writeError code err st = snd (writeClose code (c_render st err) st)"

section \<open>read.go: frames\<close>

definition prepareRead :: "unit io" where
  "prepareRead st =
     (if c_closed st then (Inl NetErrClosed, st)
      else (case c_closeReceivedErr st of Some e \<Rightarrow> (Inl e, st) | None \<Rightarrow> (Inr (), st)))"

definition conn_readFrameHeader :: "tctx \<Rightarrow> frame_header io" where
  "conn_readFrameHeader c =
     io_bind prepareRead (\<lambda>u. io_bind (bounded_io c) (\<lambda>v st.
       let (r, rest) = readFrameHeader (c_in st) in (r, st\<lparr>c_in := rest\<rparr>)))"

text \<open>A read returns the bytes it has put into its buffer, with an error or without one.\<close>

type_synonym reads = "wsconn \<Rightarrow> (bytes \<times> go_error option) \<times> wsconn"

definition readFramePayload :: "tctx \<Rightarrow> nat \<Rightarrow> reads" where
  "readFramePayload c n st =
     (case prepareRead st of
        (Inl e, st1) \<Rightarrow> (([], Some e), st1)
      | (Inr u, st1) \<Rightarrow>
          (case bounded_io c st1 of
             (Inl e, st2) \<Rightarrow> (([], Some e), st2)
           | (Inr v, st2) \<Rightarrow>
               (case ReadFull n (c_in st2) of
                  (Inl e, rest) \<Rightarrow>
                    ((c_in st2, Some (wrap ''failed to read frame payload: %w'' e)), st2\<lparr>c_in := rest\<rparr>)
                | (Inr b, rest) \<Rightarrow> ((b, None), st2\<lparr>c_in := rest\<rparr>))))"

text \<open>The close frame branch of \<open>handleControl\<close>.\<close>

definition handle_close :: "bytes \<Rightarrow> unit io" where
  "handle_close b st =
     (case parseClosePayload b of
        Inl e \<Rightarrow>
          let err = wrap ''received invalid close payload: %w'' e in
          (Inl err, writeError StatusProtocolError err st)
      | Inr (code, reason) \<Rightarrow>
          let err = wrap ''received close frame: %w'' (CloseError code reason);
              closeSent = (c_closeSentErr st \<noteq> None);
              st1 = st\<lparr>c_closeReceivedErr := Some err\<rparr>;
              st2 = (if closeSent then st1 else snd (writeClose code reason st1));
              (was, st3) = casClosing st2
          in (Inl err, if was then st3 else snd (conn_close st3)))"

definition handleControl :: "tctx \<Rightarrow> frame_header \<Rightarrow> unit io" where
  "handleControl c h st =
     (if payloadLength h < 0 \<or> payloadLength h > maxControlPayload then
        let err = Errorf ''received control frame payload with invalid length: %d'' [AInt (payloadLength h)] [] in
        (Inl err, writeError StatusProtocolError err st)
      else if \<not> fin h then
        let err = errors_new ''received fragmented control frame'' in
        (Inl err, writeError StatusProtocolError err st)
      else
        let c5 = with_timeout (c_now st) 5000 c in
        (case readFramePayload c5 (nat (payloadLength h)) st of
           ((b0, Some e), st1) \<Rightarrow> (Inl e, st1)
         | ((b0, None), st1) \<Rightarrow>
             let b = (if masked h then fst (maskGo b0 (maskKey h)) else b0) in
             if opcode h = opPing then writeControl c5 opPong b st1
             else if opcode h = opPong then (Inr (), st1)
             else handle_close b st1))"

text \<open>The first reserved bit is legal on the first frame of a message, with compression.\<close>

definition readRSV1Illegal :: "wsconn \<Rightarrow> frame_header \<Rightarrow> bool" where
  "readRSV1Illegal st h =
     (if \<not> conn_flate st then True else if opcode h \<noteq> opText \<and> opcode h \<noteq> opBinary then True else False)"

definition rsv_illegal :: "wsconn \<Rightarrow> frame_header \<Rightarrow> bool" where
  "rsv_illegal st h = (rsv1 h \<and> readRSV1Illegal st h \<or> rsv2 h \<or> rsv3 h)"

definition go_bool :: "bool \<Rightarrow> err_arg" where
  "go_bool b = AStr (if b then ''true'' else ''false'')"

text \<open>One turn of \<open>readLoop\<close>: an error, a data frame, or a control frame that has been handled.\<close>

definition read_turn :: "tctx \<Rightarrow> frame_header option io" where
  "read_turn c =
     io_bind (conn_readFrameHeader c) (\<lambda>h st.
       if rsv_illegal st h then
         let err = Errorf ''received header with unexpected rsv bits set: %v:%v:%v''
                     [go_bool (rsv1 h), go_bool (rsv2 h), go_bool (rsv3 h)] [] in
         (Inl err, writeError StatusProtocolError err st)
       else if \<not> c_client st \<and> \<not> masked h then
         (Inl (errors_new ''received unmasked frame from client''), st)
       else if opcode h = opClose \<or> opcode h = opPing \<or> opcode h = opPong then
         (case handleControl c h st of
            (Inl e, st1) \<Rightarrow>
              if opcode h = opClose \<and> CloseStatus e \<noteq> -1 then (Inl e, st1)
              else (Inl (Errorf ''failed to handle control frame %v: %w'' [AInt (opcode h)] [e]), st1)
          | (Inr u, st1) \<Rightarrow> (Inr None, st1))
       else if opcode h = opContinuation \<or> opcode h = opText \<or> opcode h = opBinary then (Inr (Some h), st)
       else
         let err = Errorf ''received unknown opcode %v'' [AInt (opcode h)] [] in
         (Inl err, writeError StatusProtocolError err st))"

section \<open>Reading consumes the stream\<close>

lemma ReadFull_in: "ReadFull n r = (x, r') \<Longrightarrow> length r' \<le> length r"
  by (auto simp: ReadFull_def split: if_splits)

lemma readFrameHeader_in: "readFrameHeader r = (Inr h, r') \<Longrightarrow> length r' < length r"
proof -
  assume run: "readFrameHeader r = (Inr h, r')"
  obtain b0 b1 rest where r: "r = b0 # b1 # rest" and body: "read_header_body b0 b1 rest = (Inr h, r')"
    using run by (cases r; cases "tl r") (auto simp: readFrameHeader_def Let_def split: sum.splits prod.splits)
  have "length r' \<le> length rest"
    using body
    by (auto simp: read_header_body_def read_length_def Let_def split: if_splits sum.splits prod.splits dest!: ReadFull_in)
  with r show ?thesis by simp
qed

text \<open>
  What no operation changes or undoes, and, for operations that only write, the read side they leave
  alone.
\<close>

definition evolves :: "wsconn \<Rightarrow> wsconn \<Rightarrow> bool" where
  "evolves st st' =
     (c_subprotocol st' = c_subprotocol st \<and> c_client st' = c_client st \<and> lr_limit st' = lr_limit st \<and>
      c_chunk st' = c_chunk st \<and> c_render st' = c_render st \<and> c_now st \<le> c_now st' \<and>
      (c_closing st \<longrightarrow> c_closing st') \<and> (c_closed st \<longrightarrow> c_closed st') \<and>
      ((c_closing st \<longrightarrow> c_closed st) \<longrightarrow> c_closing st' \<longrightarrow> c_closed st') \<and>
      length (c_in st') \<le> length (c_in st) \<and> lr_n st' = lr_n st \<and> c_fl st' = c_fl st)"

definition writes :: "wsconn \<Rightarrow> wsconn \<Rightarrow> bool" where
  "writes st st' =
     (evolves st st' \<and> c_in st' = c_in st \<and> mr_fin st' = mr_fin st \<and>
      mr_payloadLength st' = mr_payloadLength st \<and> mr_maskKey st' = mr_maskKey st)"

lemma evolves_refl [simp]: "evolves st st"
  by (simp add: evolves_def)

lemma evolves_trans: "evolves st st1 \<Longrightarrow> evolves st1 st2 \<Longrightarrow> evolves st st2"
  by (auto simp: evolves_def)

lemma writes_refl [simp]: "writes st st"
  by (simp add: writes_def)

lemma writes_trans: "writes st st1 \<Longrightarrow> writes st1 st2 \<Longrightarrow> writes st st2"
  by (auto simp: writes_def intro: evolves_trans)

lemma writes_evolves: "writes st st' \<Longrightarrow> evolves st st'"
  by (simp add: writes_def)

lemma writes_basic:
  "writes st (elapse st)"
  "writes st (snd (conn_close st))"
  "writes st (bw_flush st)"
  "writes st (bw_write p st)"
  "writes st (st\<lparr>c_closeReceivedErr := x\<rparr>)"
  "writes st (st\<lparr>c_closeSentErr := x\<rparr>)"
  "writes st (snd (next_key st))"
  "writes st (snd (next_werr st))"
  by (auto simp: writes_def evolves_def elapse_def conn_close_def isClosed_def bw_flush_def bw_write_def
      next_key_def next_werr_def split: list.split option.split)

text \<open>The swap of the closing flag together with the close that follows it if it was not set.\<close>

lemma writes_cas_close:
  "casClosing st = (True, st') \<Longrightarrow> writes st st'"
  "casClosing st = (False, st') \<Longrightarrow> writes st (snd (conn_close st'))"
  by (auto simp: writes_def evolves_def casClosing_def conn_close_def isClosed_def)

lemma mu_lock_state: "mu_lock c st = (r, st') \<Longrightarrow> st' = st"
  by (auto simp: mu_lock_def split: if_splits option.splits)

lemma bounded_io_writes: "bounded_io c st = (r, st') \<Longrightarrow> writes st st'"
  using writes_basic(1) [of st] writes_basic(2) [of "elapse st"]
  by (auto simp: bounded_io_def Let_def split: option.splits intro: writes_trans)

lemma write_masked_writes: "writes st (write_masked p key st)"
proof (induction p key st rule: write_masked.induct)
  case (1 p key st)
  show ?case
  proof (cases "p = [] \<or> c_bwsize st = 0")
    case False
    let ?st1 = "if bw_available st = 0 then bw_flush st else st"
    let ?j = "min (length p) (bw_available ?st1)"
    obtain piece key' where m: "maskGo (take ?j p) key = (piece, key')" by (cases "maskGo (take ?j p) key")
    have "writes (bw_write piece ?st1) (write_masked (drop ?j p) key' (bw_write piece ?st1))"
      by (rule "1.IH" [OF False refl refl m [symmetric] refl])
    moreover have "writes st (bw_write piece ?st1)"
      by (cases "bw_available st = 0") (auto intro: writes_basic writes_trans [OF writes_basic(3) writes_basic(4)])
    ultimately have "writes st (write_masked (drop ?j p) key' (bw_write piece ?st1))"
      by (blast intro: writes_trans)
    then show ?thesis
      using False m by (subst write_masked.simps) (simp add: Let_def)
  qed simp
qed

declare write_masked.simps [simp del]

lemma next_key_writes: "next_key st = (k, st') \<Longrightarrow> writes st st'"
  using writes_basic(7) [of st] by simp

lemma next_werr_writes: "next_werr st = (e, st') \<Longrightarrow> writes st st'"
  using writes_basic(8) [of st] by simp

lemma put_frame_writes: "put_frame c final flate op p st = (r, st') \<Longrightarrow> writes st st'"
proof -
  assume run: "put_frame c final flate op p st = (r, st')"
  obtain r1 st1 where io: "bounded_io c st = (r1, st1)" by (cases "bounded_io c st")
  obtain e st2 where werr: "next_werr st1 = (e, st2)" by (cases "next_werr st1")
  obtain k st3 where key: "next_key st2 = (k, st3)" by (cases "next_key st2")
  have to3: "writes st st1" "writes st st2" "writes st st3"
    using bounded_io_writes [OF io] next_werr_writes [OF werr] next_key_writes [OF key]
    by (blast intro: writes_trans)+
  have frame: "writes st (bw_write p (bw_write q st3))" "writes st (write_masked p k (bw_write q st3))"
      "writes st (bw_flush (bw_write p (bw_write q st3)))" "writes st (bw_flush (write_masked p k (bw_write q st3)))" for q
    using to3(3) writes_basic(3,4) write_masked_writes by (blast intro: writes_trans)+
  show ?thesis
    using run io werr key to3 frame
    by (cases r1; cases e) (auto simp: put_frame_def Let_def split: if_splits)
qed

lemma write_frame_body_writes: "write_frame_body c final flate op p st = (r, st') \<Longrightarrow> writes st st'"
proof -
  assume run: "write_frame_body c final flate op p st = (r, st')"
  obtain r1 st1 where put: "put_frame c final flate op p st = (r1, st1)" by (cases "put_frame c final flate op p st")
  note w1 = put_frame_writes [OF put]
  have sent: "writes st (st1\<lparr>c_closeSentErr := x\<rparr>)" for x
    using w1 writes_basic(6) by (blast intro: writes_trans)
  show ?thesis
    using run put w1 sent
    by (auto simp: write_frame_body_def Let_def split: if_splits sum.splits prod.splits
        dest!: writes_cas_close intro: writes_trans)
qed

lemma writeFrame_writes: "writeFrame c final flate op p st = (r, st') \<Longrightarrow> writes st st'"
  by (auto simp: writeFrame_def Let_def split: sum.splits prod.splits if_splits
      dest!: mu_lock_state dest: write_frame_body_writes)

lemma writeControl_writes: "writeControl c op p st = (r, st') \<Longrightarrow> writes st st'"
  by (auto simp: writeControl_def split: sum.splits prod.splits dest: writeFrame_writes)

lemma writeClose_writes: "writeClose code reason st = (r, st') \<Longrightarrow> writes st st'"
  by (auto simp: writeClose_def Let_def split: sum.splits prod.splits option.splits if_splits dest: writeControl_writes)

lemma writeError_writes: "writes st (writeError code e st)"
  by (cases "writeClose code (c_render st e) st") (simp add: writeError_def writeClose_writes)

lemma prepareRead_state: "prepareRead st = (r, st') \<Longrightarrow> st' = st"
  by (auto simp: prepareRead_def split: if_splits option.splits)

lemma evolves_in: "length rest \<le> length (c_in st) \<Longrightarrow> evolves st (st\<lparr>c_in := rest\<rparr>)"
  by (simp add: evolves_def)

lemma readFrameHeader_in_le: "readFrameHeader r = (x, r') \<Longrightarrow> length r' \<le> length r"
proof (cases x)
  case (Inl e)
  assume "readFrameHeader r = (x, r')"
  then show ?thesis
    by (cases r; cases "tl r")
      (auto simp: readFrameHeader_def read_header_body_def read_length_def Let_def
        split: sum.splits prod.splits if_splits dest!: ReadFull_in)
qed (auto dest: readFrameHeader_in)

lemma conn_readFrameHeader_evolves:
  assumes "conn_readFrameHeader c st = (r, st')"
  shows "evolves st st' \<and> (\<forall>h. r = Inr h \<longrightarrow> length (c_in st') < length (c_in st))"
proof -
  obtain r1 st1 where pre: "prepareRead st = (r1, st1)" by (cases "prepareRead st")
  obtain r2 st2 where io: "bounded_io c st = (r2, st2)" by (cases "bounded_io c st")
  obtain r3 rest where hd: "readFrameHeader (c_in st2) = (r3, rest)" by (cases "readFrameHeader (c_in st2)")
  note w = bounded_io_writes [OF io]
  have in2: "c_in st2 = c_in st" using w by (simp add: writes_def)
  have "evolves st (st2\<lparr>c_in := rest\<rparr>)"
    using writes_evolves [OF w] evolves_in [OF readFrameHeader_in_le [OF hd]] by (rule evolves_trans)
  then show ?thesis
    using assms pre io hd prepareRead_state [OF pre] writes_evolves [OF w] in2 readFrameHeader_in [of "c_in st2" _ rest]
    by (cases r1; cases r2) (auto simp: conn_readFrameHeader_def io_bind_def)
qed

text \<open>The bytes a read returns are bytes it has taken from the stream.\<close>

lemma readFramePayload_reads:
  assumes "readFramePayload c n st = ((b, e), st')"
  shows "evolves st st'" and "length b \<le> n" and "length b + length (c_in st') \<le> length (c_in st)"
    and "e = None \<Longrightarrow> length b = n" and "\<And>x. e = Some x \<Longrightarrow> errors_is x ErrEOF \<Longrightarrow> b = []"
proof -
  obtain r1 where pre: "prepareRead st = (r1, st)"
    using prepareRead_state by (cases "prepareRead st") blast
  obtain r2 st2 where io: "bounded_io c st = (r2, st2)" by (cases "bounded_io c st")
  obtain r3 rest where full: "ReadFull n (c_in st2) = (r3, rest)" by (cases "ReadFull n (c_in st2)")
  note w = bounded_io_writes [OF io]
  have e2: "evolves st (st2\<lparr>c_in := rest\<rparr>)"
    using writes_evolves [OF w] evolves_in [OF ReadFull_in [OF full]] by (rule evolves_trans)
  have same: "c_in st2 = c_in st" using w by (simp add: writes_def)
  note run = assms [unfolded readFramePayload_def pre prod.case]
  show "evolves st st'"
    using run io full e2 writes_evolves [OF w] by (auto split: sum.splits)
  show "length b \<le> n" and "length b + length (c_in st') \<le> length (c_in st)" and "e = None \<Longrightarrow> length b = n"
    using run io full same by (auto simp: ReadFull_def split: sum.splits if_splits)
  show "\<And>x. e = Some x \<Longrightarrow> errors_is x ErrEOF \<Longrightarrow> b = []"
    using run io full by (auto simp: ReadFull_def errors_is_def err_simps wrap_def split: sum.splits if_splits)
qed

lemma handle_close_writes: "handle_close b st = (r, st') \<Longrightarrow> writes st st'"
proof -
  assume run: "handle_close b st = (r, st')"
  have received: "writes st (snd (writeClose code reason (st\<lparr>c_closeReceivedErr := x\<rparr>)))" for code reason x
    by (cases "writeClose code reason (st\<lparr>c_closeReceivedErr := x\<rparr>)")
      (auto intro: writes_trans [OF writes_basic(5)] dest: writeClose_writes)
  show ?thesis
    using run received writes_basic(5) [of st]
    by (auto simp: handle_close_def Let_def split: sum.splits prod.splits if_splits
        intro: writeError_writes writes_trans [OF writes_basic(5)] writes_trans dest!: writes_cas_close)
qed

lemma handleControl_evolves: "handleControl c h st = (r, st') \<Longrightarrow> evolves st st'"
  by (auto simp: handleControl_def Let_def split: if_splits sum.splits prod.splits option.splits
      dest!: writes_evolves [OF handle_close_writes] writes_evolves [OF writeControl_writes] readFramePayload_reads(1)
      intro: writes_evolves [OF writeError_writes] evolves_trans)

lemma read_turn_evolves:
  assumes "read_turn c st = (r, st')"
  shows "evolves st st' \<and> (\<forall>x. r = Inr x \<longrightarrow> length (c_in st') < length (c_in st))"
proof -
  obtain r1 st1 where hd: "conn_readFrameHeader c st = (r1, st1)" by (cases "conn_readFrameHeader c st")
  note e1 = conn_readFrameHeader_evolves [OF hd]
  have after: "evolves st st2 \<and> (\<forall>h. r1 = Inr h \<longrightarrow> length (c_in st2) < length (c_in st))" if "evolves st1 st2" for st2
    using e1 that by (auto intro: evolves_trans) (meson evolves_def le_less_trans)
  show ?thesis
  proof (cases r1)
    case (Inl e)
    then show ?thesis using assms hd e1 by (auto simp: read_turn_def io_bind_def)
  next
    case (Inr h)
    have "evolves st1 st'"
      using assms hd Inr
      by (auto simp: read_turn_def io_bind_def Let_def split: if_splits sum.splits prod.splits
          intro: writes_evolves [OF writeError_writes] dest: handleControl_evolves)
    with after Inr show ?thesis by blast
  qed
qed

section \<open>read.go: messages\<close>

function readLoop :: "tctx \<Rightarrow> wsconn \<Rightarrow> frame_header res \<times> wsconn" where
  "readLoop c st =
     (case read_turn c st of
        (Inl e, st') \<Rightarrow> (Inl e, st')
      | (Inr (Some h), st') \<Rightarrow> (Inr h, st')
      | (Inr None, st') \<Rightarrow> readLoop c st')"
  by pat_completeness auto
termination
  by (relation "measure (\<lambda>(c, st). length (c_in st))") (auto dest: read_turn_evolves [OF sym])

declare readLoop.simps [simp del]

lemma readLoop_evolves:
  "readLoop c st = (r, st') \<Longrightarrow> evolves st st' \<and> (\<forall>h. r = Inr h \<longrightarrow> length (c_in st') < length (c_in st))"
proof (induction c st rule: readLoop.induct)
  case (1 c st)
  obtain r1 st1 where turn: "read_turn c st = (r1, st1)" by (cases "read_turn c st")
  note e1 = read_turn_evolves [OF turn]
  show ?case
  proof (cases "r1 = Inr None")
    case True
    then have "readLoop c st1 = (r, st')"
      using "1.prems" turn by (subst (asm) readLoop.simps) simp
    then show ?thesis
      using "1.IH" [OF turn [symmetric] True refl] e1 True by (auto intro: evolves_trans)
  next
    case False
    then have "st' = st1 \<and> (\<forall>h. r = Inr h \<longrightarrow> r1 = Inr (Some h))"
      using "1.prems" turn by (subst (asm) readLoop.simps) (auto split: sum.splits option.splits)
    then show ?thesis using e1 by blast
  qed
qed

definition setFrame :: "frame_header \<Rightarrow> wsconn \<Rightarrow> wsconn" where
  "setFrame h st =
     st\<lparr>mr_fin := fin h, mr_payloadLength := nat (payloadLength h), mr_maskKey := maskKey h\<rparr>"

lemma setFrame_evolves: "evolves st (setFrame h st)" "c_in (setFrame h st) = c_in st"
  by (simp_all add: evolves_def setFrame_def)

end
