(* ===== verification/Ws_Reader.thy ===== *)
theory Ws_Reader
  imports Ws_Conn
begin

text \<open>
  The rest of \<open>read.go\<close>: messages. A message is read through the limit, and, if its first frame has the first
  reserved bit, through the flate reader before that, which takes its bytes one at a time from a buffered reader.
\<close>

section \<open>Frames of a message\<close>

text \<open>
  \<open>msgReader.read\<close> into a buffer of \<open>len\<close> bytes; the end of the message is \<open>io.EOF\<close>, for a compressed one after
  the four bytes that the sender has left out.
\<close>

function mr_read :: "tctx \<Rightarrow> nat \<Rightarrow> reads" where
  "mr_read c len st =
     (if mr_payloadLength st = 0 then
        if mr_fin st then
          (if fs_on (c_fl st) then
             (let tail = fs_tail (c_fl st) in
              if tail = [] then (([], Some ErrEOF), st)
              else ((take len tail, None), st\<lparr>c_fl := (c_fl st)\<lparr>fs_tail := drop len tail\<rparr>\<rparr>))
           else (([], Some ErrEOF), st))
        else
          (case readLoop c st of
             (Inl e, st1) \<Rightarrow> (([], Some e), st1)
           | (Inr h, st1) \<Rightarrow>
               if opcode h \<noteq> opContinuation then
                 let err = errors_new ''received new data message without finishing the previous message'' in
                 (([], Some err), writeError StatusProtocolError err st1)
               else mr_read c len (setFrame h st1))
      else
        (case readFramePayload c (min len (mr_payloadLength st)) st of
           ((b, Some e), st1) \<Rightarrow> ((b, Some e), st1)
         | ((b, None), st1) \<Rightarrow>
             let st2 = st1\<lparr>mr_payloadLength := mr_payloadLength st1 - length b\<rparr> in
             if c_client st2 then ((b, None), st2)
             else let (p, key) = maskGo b (mr_maskKey st2) in ((p, None), st2\<lparr>mr_maskKey := key\<rparr>)))"
  by pat_completeness auto
termination
  by (relation "measure (\<lambda>(c, len, st). length (c_in st))")
    (auto simp: setFrame_evolves dest: readLoop_evolves [OF sym])

declare mr_read.simps [simp del]

section \<open>The flate reader\<close>

text \<open>\<open>bufio.Reader.ReadByte\<close> of \<open>flateBufio\<close>, whose buffer has 4096 bytes.\<close>

definition flate_ReadByte :: "tctx \<Rightarrow> wsconn \<Rightarrow> 8 word res \<times> wsconn" where
  "flate_ReadByte c st =
     (case fs_buf (c_fl st) of
        x # xs \<Rightarrow> (Inr x, st\<lparr>c_fl := (c_fl st)\<lparr>fs_buf := xs\<rparr>\<rparr>)
      | [] \<Rightarrow>
          (case fs_buferr (c_fl st) of
             Some e \<Rightarrow> (Inl e, st\<lparr>c_fl := (c_fl st)\<lparr>fs_buferr := None\<rparr>\<rparr>)
           | None \<Rightarrow>
               (case mr_read c 4096 st of
                  ((x # xs, e), st1) \<Rightarrow> (Inr x, st1\<lparr>c_fl := (c_fl st1)\<lparr>fs_buf := xs, fs_buferr := e\<rparr>\<rparr>)
                | (([], Some e), st1) \<Rightarrow> (Inl e, st1)
                | (([], None), st1) \<Rightarrow> (Inl (errors_new ''multiple Read calls return no data or error''), st1))))"

text \<open>\<open>noEOF\<close> of \<open>compress/flate\<close>.\<close>

definition noEOF :: "go_error \<Rightarrow> go_error" where
  "noEOF e = (if e = ErrEOF then ErrUnexpectedEOF else e)"

text \<open>What the flate reader has for its caller, and the error it ends with.\<close>

definition flate_error :: "flate_state \<Rightarrow> go_error option" where
  "flate_error f =
     (case fs_err f of
        Some e \<Rightarrow> Some e
      | None \<Rightarrow> in_err (fl_inflate (fs_lib f) (fs_dictionary f) (fs_consumed f)))"

definition flate_left :: "flate_state \<Rightarrow> bytes" where
  "flate_left f =
     (let z = fl_inflate (fs_lib f) (fs_dictionary f) (fs_consumed f) in
      drop (fs_taken f) (if flate_error f = None then in_ready z else in_decoded z))"

definition flate_give :: "nat \<Rightarrow> reads" where
  "flate_give len st =
     (let f = c_fl st; left = flate_left f in
      ((take len left, if length left \<le> len then flate_error f else None),
       st\<lparr>c_fl := f\<lparr>fs_taken := fs_taken f + min len (length left)\<rparr>\<rparr>))"

text \<open>\<open>pending\<close> is what of a compressed message has not been inflated yet.\<close>

definition pending :: "wsconn \<Rightarrow> nat" where
  "pending st = length (c_in st) + length (fs_tail (c_fl st)) + length (fs_buf (c_fl st))"

definition reader_state :: "flate_state \<Rightarrow> flate_state \<Rightarrow> bool" where
  "reader_state f f' =
     (\<exists>tail buf buferr. f' = f\<lparr>fs_tail := tail, fs_buf := buf, fs_buferr := buferr\<rparr>)"

lemma reader_state_refl [simp]: "reader_state f f"
  unfolding reader_state_def by (rule exI [of _ "fs_tail f"], rule exI [of _ "fs_buf f"], rule exI [of _ "fs_buferr f"]) simp

lemma reader_stateD:
  "reader_state f f' \<Longrightarrow> same_codec f f' \<and> fs_on f' = fs_on f \<and> fs_err f' = fs_err f \<and> flate_error f' = flate_error f \<and>
   flate_left f' = flate_left f \<and> fs_consumed f' = fs_consumed f \<and> fs_taken f' = fs_taken f \<and>
   fs_dictionary f' = fs_dictionary f \<and> fs_dict f' = fs_dict f \<and> fs_history f' = fs_history f"
proof -
  assume "reader_state f f'"
  then obtain t b e where f': "f' = f\<lparr>fs_tail := t, fs_buf := b, fs_buferr := e\<rparr>" by (auto simp: reader_state_def)
  have "flate_error f' = flate_error f" by (simp add: f' flate_error_def split: option.split)
  then show ?thesis by (simp add: flate_left_def Let_def same_codec_def) (simp add: f')
qed

text \<open>Everything but the compression state, the limit and what only grows is left alone.\<close>

definition moves :: "wsconn \<Rightarrow> wsconn \<Rightarrow> bool" where
  "moves st st' = (evolves st (st'\<lparr>lr_n := lr_n st, c_fl := c_fl st\<rparr>) \<and> same_codec (c_fl st) (c_fl st'))"

lemma evolves_moves: "evolves st st' \<Longrightarrow> moves st st'"
  by (simp add: moves_def evolves_def)

lemma moves_refl [simp]: "moves st st"
  by (simp add: moves_def evolves_def)

lemma moves_trans: "moves st st1 \<Longrightarrow> moves st1 st2 \<Longrightarrow> moves st st2"
  by (auto simp: moves_def evolves_def intro: same_codec_trans)

lemma moves_lr: "moves st (st\<lparr>lr_n := m\<rparr>)"
  by (simp add: moves_def evolves_def)

lemma moves_fl: "same_codec (c_fl st) f \<Longrightarrow> moves st (st\<lparr>c_fl := f\<rparr>)"
  by (simp add: moves_def evolves_def)

lemma moves_flate: "moves st st' \<Longrightarrow> conn_flate st' = conn_flate st \<and> c_client st' = c_client st"
  by (simp add: moves_def evolves_def conn_flate_def same_codec_def)

lemma evolves_mr: "evolves st (st\<lparr>mr_payloadLength := n\<rparr>)" "evolves st (st\<lparr>mr_payloadLength := n, mr_maskKey := k\<rparr>)"
  by (simp_all add: evolves_def)

lemma mr_read_moves:
  assumes "mr_read c len st = ((b, e), st')"
  shows "moves st st' \<and> lr_n st' = lr_n st \<and> length b \<le> len \<and>
    reader_state (c_fl st) (c_fl st') \<and> fs_buf (c_fl st') = fs_buf (c_fl st) \<and> fs_buferr (c_fl st') = fs_buferr (c_fl st) \<and>
    length b + length (c_in st') + length (fs_tail (c_fl st')) \<le> length (c_in st) + length (fs_tail (c_fl st)) \<and>
    (0 < len \<longrightarrow> b = [] \<longrightarrow> e \<noteq> None) \<and>
    (\<not> fs_on (c_fl st) \<longrightarrow> (\<forall>x. e = Some x \<longrightarrow> errors_is x ErrEOF \<longrightarrow> b = []))"
  using assms
proof (induction c len st rule: mr_read.induct)
  case (1 c len st)
  consider "mr_payloadLength st = 0" "mr_fin st" | "mr_payloadLength st = 0" "\<not> mr_fin st" | "mr_payloadLength st \<noteq> 0"
    by blast
  then show ?case
  proof cases
    case 1
    have "reader_state (c_fl st) ((c_fl st)\<lparr>fs_tail := t\<rparr>)" for t
      unfolding reader_state_def by (rule exI [of _ t], rule exI [of _ "fs_buf (c_fl st)"], rule exI [of _ "fs_buferr (c_fl st)"]) simp
    then show ?thesis
      using "1.prems" 1 by (auto simp: mr_read.simps Let_def moves_def evolves_def same_codec_def split: if_splits)
  next
    case 2
    obtain r1 st1 where loop: "readLoop c st = (r1, st1)" by (cases "readLoop c st")
    note e1 = readLoop_evolves [OF loop]
    show ?thesis
    proof (cases "\<exists>h. r1 = Inr h \<and> opcode h = opContinuation")
      case True
      then obtain h where h: "r1 = Inr h" "opcode h = opContinuation" by blast
      then have rec: "mr_read c len (setFrame h st1) = ((b, e), st')"
        using "1.prems" 2 loop by (subst (asm) mr_read.simps) simp
      have keep: "evolves st (setFrame h st1)" "c_fl (setFrame h st1) = c_fl st" "lr_n (setFrame h st1) = lr_n st"
        "length (c_in (setFrame h st1)) \<le> length (c_in st)"
        using e1 setFrame_evolves [where st = st1 and h = h] by (auto simp: evolves_def)
      show ?thesis
        using "1.IH" [OF 2 loop [symmetric] h(1)] h(2) rec keep(2-4) evolves_moves [OF keep(1)]
        by (auto intro: moves_trans)
    next
      case False
      then have "evolves st st' \<and> b = [] \<and> e \<noteq> None"
        using "1.prems" 2 loop e1
        by (subst (asm) mr_read.simps)
          (auto simp: Let_def split: sum.splits if_splits intro: evolves_trans writes_evolves [OF writeError_writes])
      then show ?thesis by (auto simp: evolves_moves) (auto simp: evolves_def)
    qed
  next
    case 3
    obtain b1 e1 st1 where pay: "readFramePayload c (min len (mr_payloadLength st)) st = ((b1, e1), st1)"
      by (metis surj_pair)
    note r = readFramePayload_reads [OF pay]
    have mask: "length (fst (maskGo b1 k)) = length b1" for k
      by (simp add: maskGo_mask_bytes)
    have "evolves st st' \<and> length b = length b1 \<and> e = e1 \<and> length (c_in st') = length (c_in st1) \<and> (e1 \<noteq> None \<longrightarrow> b = b1)"
      using "1.prems" 3 pay mask [of "mr_maskKey st1"] evolves_trans [OF r(1) evolves_mr(1)] evolves_trans [OF r(1) evolves_mr(2)] r(1)
      by (subst (asm) mr_read.simps) (cases e1; auto simp: Let_def split: if_splits prod.splits)
    moreover from this have "moves st st'" "c_fl st' = c_fl st" "lr_n st' = lr_n st"
      by (auto simp: evolves_moves) (auto simp: evolves_def)
    ultimately show ?thesis using r 3 by (cases e1) auto
  qed
qed

lemma flate_ReadByte_moves:
  assumes "flate_ReadByte c st = (r, st')"
  shows "moves st st'" and "lr_n st' = lr_n st" and "reader_state (c_fl st) (c_fl st')"
    and "pending st' \<le> pending st" and "\<And>x. r = Inr x \<Longrightarrow> pending st' < pending st"
proof -
  have buffered: "reader_state f (g\<lparr>fs_buf := xs, fs_buferr := e\<rparr>)" if "reader_state f g" for f g xs e
  proof -
    obtain t b e' where "g = f\<lparr>fs_tail := t, fs_buf := b, fs_buferr := e'\<rparr>"
      using \<open>reader_state f g\<close> by (auto simp: reader_state_def)
    then have "g\<lparr>fs_buf := xs, fs_buferr := e\<rparr> = f\<lparr>fs_tail := t, fs_buf := xs, fs_buferr := e\<rparr>" by simp
    then show ?thesis unfolding reader_state_def by blast
  qed
  have taken: "reader_state f (f\<lparr>fs_buf := xs\<rparr>)" "reader_state f (f\<lparr>fs_buferr := e\<rparr>)" for f xs e
    by (cases f; auto simp: reader_state_def)+
  have codec: "moves st1 (st1\<lparr>c_fl := g\<rparr>)" if "reader_state (c_fl st1) g" for st1 g
    using reader_stateD [OF that] by (simp add: moves_fl)
  have facts: "moves st st' \<and> lr_n st' = lr_n st \<and> reader_state (c_fl st) (c_fl st') \<and> pending st' \<le> pending st \<and>
      ((\<exists>x. r = Inr x) \<longrightarrow> pending st' < pending st)"
  proof (cases "fs_buf (c_fl st)")
    case (Cons x xs)
    then show ?thesis
      using assms taken(1) [of "c_fl st" xs] codec by (auto simp: flate_ReadByte_def pending_def)
  next
    case Nil
    show ?thesis
    proof (cases "fs_buferr (c_fl st)")
      case (Some e)
      then show ?thesis
        using assms Nil taken(2) [of "c_fl st" None] codec by (auto simp: flate_ReadByte_def pending_def)
    next
      case None
      obtain b e st1 where fill: "mr_read c 4096 st = ((b, e), st1)" by (metis surj_pair)
      note m = mr_read_moves [OF fill]
      have "moves st (st1\<lparr>c_fl := (c_fl st1)\<lparr>fs_buf := xs, fs_buferr := e\<rparr>\<rparr>)" for xs
        using m by (auto intro!: moves_trans [of st st1] codec buffered)
      then show ?thesis
        using assms Nil None fill m
        by (cases b; cases e) (auto simp: flate_ReadByte_def pending_def intro: buffered)
    qed
  qed
  then show "moves st st'" "lr_n st' = lr_n st" "reader_state (c_fl st) (c_fl st')" "pending st' \<le> pending st"
    "\<And>x. r = Inr x \<Longrightarrow> pending st' < pending st"
    by auto
qed

text \<open>\<open>Read\<close> of the flate reader: it consumes bytes until it has something for its caller, or an error.\<close>

function flate_read :: "tctx \<Rightarrow> nat \<Rightarrow> reads" where
  "flate_read c len st =
     (if flate_left (c_fl st) \<noteq> [] \<or> flate_error (c_fl st) \<noteq> None then flate_give len st
      else
        (case flate_ReadByte c st of
           (Inl e, st1) \<Rightarrow> flate_give len (st1\<lparr>c_fl := (c_fl st1)\<lparr>fs_err := Some (noEOF e)\<rparr>\<rparr>)
         | (Inr x, st1) \<Rightarrow>
             flate_read c len (st1\<lparr>c_fl := (c_fl st1)\<lparr>fs_consumed := fs_consumed (c_fl st1) @ [x]\<rparr>\<rparr>)))"
  by pat_completeness auto
termination
  by (relation "measure (\<lambda>(c, len, st). pending st)")
    (auto simp: pending_def dest: flate_ReadByte_moves(5) [OF sym, OF _ refl, unfolded pending_def])

declare flate_read.simps [simp del]

section \<open>Messages\<close>

text \<open>The reader behind the limit: the frames of the message or the flate reader.\<close>

definition raw_read :: "tctx \<Rightarrow> nat \<Rightarrow> reads" where
  "raw_read c len st = (if fs_on (c_fl st) then flate_read c len st else mr_read c len st)"

text \<open>\<open>limitReader.Read\<close>.\<close>

definition limit_read :: "tctx \<Rightarrow> nat \<Rightarrow> reads" where
  "limit_read c len st =
     (if lr_n st < 0 then raw_read c len st
      else if lr_n st = 0 then
        let reason = Errorf ''read limited at %d bytes'' [AInt (lr_limit st)] [] in
        (([], Some (Errorf ''%w: %v'' [AStr (c_render st reason)] [ErrMessageTooBig])),
         writeError StatusMessageTooBig reason st)
      else
        (case raw_read c (if int len > lr_n st then nat (lr_n st) else len) st of
           ((b, e), st1) \<Rightarrow> ((b, e), st1\<lparr>lr_n := max 0 (lr_n st1 - int (length b))\<rparr>)))"

text \<open>
  \<open>msgReader.Read\<close>. An end of file anywhere in the error tree ends the message, and so does an unexpected one in
  the last frame of a compressed message.
\<close>

definition mr_takeover :: "wsconn \<Rightarrow> bool" where
  "mr_takeover st =
     (case fs_copts (c_fl st) of None \<Rightarrow> False | Some copts \<Rightarrow> mr_flateContextTakeover (c_client st) copts)"

definition keep_window :: "bytes \<Rightarrow> wsconn \<Rightarrow> wsconn" where
  "keep_window b st =
     (let f = c_fl st in
      if fs_on f \<and> mr_takeover st then
        st\<lparr>c_fl := f\<lparr>fs_dict := map_option (\<lambda>d. sw_write windowSize d b) (fs_dict f)\<rparr>\<rparr>
      else st)"

definition msg_Read :: "tctx \<Rightarrow> nat \<Rightarrow> reads" where
  "msg_Read c len st =
     (case mu_lock c st of
        (Inl e, st1) \<Rightarrow> (([], Some (wrap ''failed to read: %w'' e)), st1)
      | (Inr u, st1) \<Rightarrow>
          (case limit_read c len st1 of
             ((b, e), st2) \<Rightarrow>
               let st3 = keep_window b st2 in
               (case e of
                  None \<Rightarrow> ((b, None), st3)
                | Some err \<Rightarrow>
                    if errors_is err ErrEOF \<or> errors_is err ErrUnexpectedEOF \<and> mr_fin st3 \<and> fs_on (c_fl st3)
                    then ((b, Some ErrEOF), st3)
                    else ((b, Some (wrap ''failed to read: %w'' err)), st3))))"

lemma flate_give_moves:
  "flate_give len st = ((b, e), st') \<Longrightarrow>
   moves st st' \<and> lr_n st' = lr_n st \<and> length b \<le> len \<and> pending st' = pending st \<and> fs_on (c_fl st') = fs_on (c_fl st) \<and>
   fs_err (c_fl st') = fs_err (c_fl st) \<and>
   (0 < len \<longrightarrow> flate_left (c_fl st) \<noteq> [] \<longrightarrow> length (flate_left (c_fl st')) < length (flate_left (c_fl st))) \<and>
   (b = [] \<longrightarrow> 0 < len \<longrightarrow> e = flate_error (c_fl st)) \<and> (e = None \<or> length (flate_left (c_fl st)) \<le> len)"
proof -
  have err: "flate_error (f\<lparr>fs_taken := n\<rparr>) = flate_error f" for f n
    by (simp add: flate_error_def split: option.split)
  have left: "flate_left (f\<lparr>fs_taken := fs_taken f + n\<rparr>) = drop n (flate_left f)" for f n
    using err [of "fs_taken f + n" f] by (simp add: flate_left_def Let_def add.commute)
  show "flate_give len st = ((b, e), st') \<Longrightarrow> ?thesis"
    by (auto simp: flate_give_def Let_def pending_def left moves_fl same_codec_def)
qed

text \<open>What every turn of \<open>io.ReadAll\<close> decreases.\<close>

definition read_rank :: "(wsconn \<times> wsconn) set" where
  "read_rank = inv_image (less_than <*lex*> less_than <*lex*> less_than)
     (\<lambda>st. (pending st, if fs_err (c_fl st) = None then 1 else 0 :: nat, length (flate_left (c_fl st))))"

lemma wf_read_rank [simp]: "wf read_rank"
  by (simp add: read_rank_def wf_lex_prod)

lemma flate_read_moves:
  assumes "flate_read c len st = ((b, e), st')" and "0 < len"
  shows "moves st st' \<and> lr_n st' = lr_n st \<and> length b \<le> len \<and> fs_on (c_fl st') = fs_on (c_fl st) \<and>
    (e = None \<longrightarrow> (st', st) \<in> read_rank)"
  using assms
proof (induction c len st rule: flate_read.induct)
  case (1 c len st)
  show ?case
  proof (cases "flate_left (c_fl st) \<noteq> [] \<or> flate_error (c_fl st) \<noteq> None")
    case True
    then have "flate_give len st = ((b, e), st')"
      using "1.prems"(1) by (subst (asm) flate_read.simps) simp
    note g = flate_give_moves [OF this]
    have "(st', st) \<in> read_rank" if "e = None"
    proof -
      have "flate_left (c_fl st) \<noteq> []"
      proof
        assume "flate_left (c_fl st) = []"
        then have "b = []" using "1.prems"(1) True by (subst (asm) flate_read.simps) (simp add: flate_give_def Let_def)
        then show False using g that True \<open>flate_left (c_fl st) = []\<close> "1.prems"(2) by simp
      qed
      then show ?thesis using g "1.prems"(2) by (simp add: read_rank_def)
    qed
    then show ?thesis using g by blast
  next
    case False
    obtain r st1 where byte: "flate_ReadByte c st = (r, st1)" by (cases "flate_ReadByte c st")
    note m = flate_ReadByte_moves [OF byte]
    have on: "fs_on (c_fl st1) = fs_on (c_fl st)" "fs_err (c_fl st1) = fs_err (c_fl st)" "fs_err (c_fl st) = None"
      using reader_stateD [OF m(3)] False by (auto simp: flate_error_def split: option.splits)
    show ?thesis
    proof (cases r)
      case (Inl x)
      let ?st2 = "st1\<lparr>c_fl := (c_fl st1)\<lparr>fs_err := Some (noEOF x)\<rparr>\<rparr>"
      have "flate_give len ?st2 = ((b, e), st')"
        using "1.prems"(1) False byte Inl by (subst (asm) flate_read.simps) simp
      note g = flate_give_moves [OF this]
      have "moves st1 ?st2" by (intro moves_fl) (simp add: same_codec_def)
      then have "moves st ?st2" using m(1) by (blast intro: moves_trans)
      moreover have "pending ?st2 = pending st1" by (simp add: pending_def)
      ultimately show ?thesis
        using g m(2,4) on by (auto simp: read_rank_def intro: moves_trans)
    next
      case (Inr x)
      let ?st2 = "st1\<lparr>c_fl := (c_fl st1)\<lparr>fs_consumed := fs_consumed (c_fl st1) @ [x]\<rparr>\<rparr>"
      have rec: "flate_read c len ?st2 = ((b, e), st')"
        using "1.prems"(1) False byte Inr by (subst (asm) flate_read.simps) simp
      note IH = "1.IH" [OF False byte [symmetric] Inr rec "1.prems"(2)]
      have "moves st1 ?st2" by (intro moves_fl) (simp add: same_codec_def)
      then have "moves st ?st2" using m(1) by (blast intro: moves_trans)
      moreover have "pending ?st2 < pending st" using m(5) [OF Inr] by (simp add: pending_def)
      ultimately show ?thesis
        using IH m(2) on by (auto simp: read_rank_def intro: moves_trans)
    qed
  qed
qed

lemma raw_read_moves:
  assumes "raw_read c len st = ((b, e), st')" and "0 < len"
  shows "moves st st'" and "lr_n st' = lr_n st" and "length b \<le> len" and "fs_on (c_fl st') = fs_on (c_fl st)"
    and "e = None \<Longrightarrow> (st', st) \<in> read_rank"
    and "\<And>x. \<not> fs_on (c_fl st) \<Longrightarrow> e = Some x \<Longrightarrow> errors_is x ErrEOF \<Longrightarrow> b = []"
proof -
  have "moves st st' \<and> lr_n st' = lr_n st \<and> length b \<le> len \<and> fs_on (c_fl st') = fs_on (c_fl st) \<and>
      (e = None \<longrightarrow> (st', st) \<in> read_rank) \<and>
      (\<not> fs_on (c_fl st) \<longrightarrow> (\<forall>x. e = Some x \<longrightarrow> errors_is x ErrEOF \<longrightarrow> b = []))"
  proof (cases "fs_on (c_fl st)")
    case True
    then show ?thesis using assms flate_read_moves [of c len st b e st'] by (simp add: raw_read_def)
  next
    case False
    then have "mr_read c len st = ((b, e), st')" using assms(1) by (simp add: raw_read_def)
    note m = mr_read_moves [OF this]
    have "pending st' < pending st" if "e = None"
      using m that assms(2) by (cases b) (auto simp: pending_def)
    then show ?thesis
      using m False reader_stateD [of "c_fl st" "c_fl st'"] by (auto simp: read_rank_def)
  qed
  then show "moves st st'" "lr_n st' = lr_n st" "length b \<le> len" "fs_on (c_fl st') = fs_on (c_fl st)"
    "e = None \<Longrightarrow> (st', st) \<in> read_rank"
    "\<And>x. \<not> fs_on (c_fl st) \<Longrightarrow> e = Some x \<Longrightarrow> errors_is x ErrEOF \<Longrightarrow> b = []"
    by auto
qed

lemma read_rank_lr [simp]: "(st\<lparr>lr_n := m\<rparr>, st0) \<in> read_rank \<longleftrightarrow> (st, st0) \<in> read_rank"
  by (simp add: read_rank_def pending_def)

lemma limit_read_moves:
  assumes "limit_read c len st = ((b, e), st')" and "0 < len"
  shows "moves st st'" and "fs_on (c_fl st') = fs_on (c_fl st)"
    and "e = None \<Longrightarrow> (st', st) \<in> read_rank"
    and "0 \<le> lr_n st \<Longrightarrow> lr_n st' = lr_n st - int (length b) \<and> 0 \<le> lr_n st'"
    and "\<And>x. \<not> fs_on (c_fl st) \<Longrightarrow> e = Some x \<Longrightarrow> errors_is x ErrEOF \<Longrightarrow> b = []"
    and "\<And>x. e = Some x \<Longrightarrow> errors_is x ErrEOF \<or> errors_is x ErrUnexpectedEOF \<Longrightarrow> lr_n st \<noteq> 0"
proof -
  consider "lr_n st < 0" | "lr_n st = 0" | "0 < lr_n st" by linarith
  then have "moves st st' \<and> fs_on (c_fl st') = fs_on (c_fl st) \<and> (e = None \<longrightarrow> (st', st) \<in> read_rank) \<and>
      (0 \<le> lr_n st \<longrightarrow> lr_n st' = lr_n st - int (length b) \<and> 0 \<le> lr_n st') \<and>
      (\<forall>x. \<not> fs_on (c_fl st) \<longrightarrow> e = Some x \<longrightarrow> errors_is x ErrEOF \<longrightarrow> b = []) \<and>
      (\<forall>x. e = Some x \<longrightarrow> errors_is x ErrEOF \<or> errors_is x ErrUnexpectedEOF \<longrightarrow> lr_n st \<noteq> 0)"
  proof cases
    case 1
    then have "raw_read c len st = ((b, e), st')" using assms(1) by (simp add: limit_read_def)
    from raw_read_moves [OF this assms(2)] 1 show ?thesis by auto
  next
    case 2
    have w: "evolves st (writeError code x st)" for code x
      using writes_evolves [OF writeError_writes] .
    show ?thesis
      using assms(1) 2 evolves_moves [OF w]
      by (auto simp: limit_read_def Let_def errors_is_def err_simps) (use w in \<open>auto simp: evolves_def\<close>)
  next
    case 3
    let ?len = "if int len > lr_n st then nat (lr_n st) else len"
    obtain st1 where read: "raw_read c ?len st = ((b, e), st1)" and st': "st' = st1\<lparr>lr_n := max 0 (lr_n st1 - int (length b))\<rparr>"
      using assms(1) 3 by (auto simp: limit_read_def split: prod.splits)
    have "0 < ?len" using 3 assms(2) by simp
    note r = raw_read_moves [OF read this]
    have "int (length b) \<le> lr_n st" using r(3) 3 by (simp split: if_splits)
    then show ?thesis
      using r 3 moves_lr [of st1] by (auto simp: st' intro: moves_trans)
  qed
  then show "moves st st'" "fs_on (c_fl st') = fs_on (c_fl st)"
    "e = None \<Longrightarrow> (st', st) \<in> read_rank"
    "0 \<le> lr_n st \<Longrightarrow> lr_n st' = lr_n st - int (length b) \<and> 0 \<le> lr_n st'"
    "\<And>x. \<not> fs_on (c_fl st) \<Longrightarrow> e = Some x \<Longrightarrow> errors_is x ErrEOF \<Longrightarrow> b = []"
    "\<And>x. e = Some x \<Longrightarrow> errors_is x ErrEOF \<or> errors_is x ErrUnexpectedEOF \<Longrightarrow> lr_n st \<noteq> 0"
    by auto
qed

lemma keep_window_moves:
  "moves st (keep_window b st)" "lr_n (keep_window b st) = lr_n st" "fs_on (c_fl (keep_window b st)) = fs_on (c_fl st)"
  "(keep_window b st, st0) \<in> read_rank \<longleftrightarrow> (st, st0) \<in> read_rank"
proof -
  have left: "flate_left (f\<lparr>fs_dict := d\<rparr>) = flate_left f" for f d
  proof -
    have "flate_error (f\<lparr>fs_dict := d\<rparr>) = flate_error f" by (simp add: flate_error_def split: option.split)
    then show ?thesis by (simp add: flate_left_def Let_def)
  qed
  have same: "pending (keep_window b st) = pending st" "fs_err (c_fl (keep_window b st)) = fs_err (c_fl st)"
    "flate_left (c_fl (keep_window b st)) = flate_left (c_fl st)"
    by (simp_all add: keep_window_def Let_def pending_def left)
  show "moves st (keep_window b st)" "lr_n (keep_window b st) = lr_n st" "fs_on (c_fl (keep_window b st)) = fs_on (c_fl st)"
    by (simp_all add: keep_window_def Let_def moves_fl same_codec_def)
  show "(keep_window b st, st0) \<in> read_rank \<longleftrightarrow> (st, st0) \<in> read_rank"
    unfolding read_rank_def in_inv_image same ..
qed

lemma msg_Read_moves:
  assumes "msg_Read c len st = ((b, e), st')" and "0 < len"
  shows "moves st st'" and "fs_on (c_fl st') = fs_on (c_fl st)"
    and "e = None \<Longrightarrow> (st', st) \<in> read_rank"
    and "0 \<le> lr_n st \<Longrightarrow> lr_n st' = lr_n st - int (length b) \<and> 0 \<le> lr_n st'"
    and "\<not> fs_on (c_fl st) \<Longrightarrow> e = Some ErrEOF \<Longrightarrow> b = [] \<and> lr_n st \<noteq> 0"
proof -
  obtain r0 where lock: "mu_lock c st = (r0, st)" by (cases "mu_lock c st") (auto dest: mu_lock_state)
  obtain b1 e1 st1 where read: "limit_read c len st = ((b1, e1), st1)" by (metis surj_pair)
  note l = limit_read_moves [OF read assms(2)] and k = keep_window_moves
  have "moves st st' \<and> fs_on (c_fl st') = fs_on (c_fl st) \<and> (e = None \<longrightarrow> (st', st) \<in> read_rank) \<and>
      (0 \<le> lr_n st \<longrightarrow> lr_n st' = lr_n st - int (length b) \<and> 0 \<le> lr_n st') \<and>
      (\<not> fs_on (c_fl st) \<longrightarrow> e = Some ErrEOF \<longrightarrow> b = [] \<and> lr_n st \<noteq> 0)"
  proof (cases r0)
    case (Inl x)
    then show ?thesis using assms(1) lock by (auto simp: msg_Read_def wrap_def)
  next
    case (Inr u)
    then have st': "st' = keep_window b1 st1" "b = b1"
      and e: "e = (case e1 of None \<Rightarrow> None | Some x \<Rightarrow>
        Some (if errors_is x ErrEOF \<or> errors_is x ErrUnexpectedEOF \<and> mr_fin st' \<and> fs_on (c_fl st') then ErrEOF
              else wrap ''failed to read: %w'' x))"
      using assms(1) lock read by (auto simp: msg_Read_def Let_def split: option.splits if_splits)
    show ?thesis
    proof (cases e1)
      case None
      then show ?thesis using l k by (auto simp: st' e intro: moves_trans)
    next
      case (Some x)
      have "b = [] \<and> lr_n st \<noteq> 0" if "\<not> fs_on (c_fl st)" "e = Some ErrEOF"
        using that e Some l(5) [OF that(1) Some] l(6) [OF Some] l(2) k(3) by (auto simp: st' wrap_def split: if_splits)
      then show ?thesis using l(1,2,4) k Some e by (auto simp: st' intro: moves_trans)
    qed
  qed
  then show "moves st st'" "fs_on (c_fl st') = fs_on (c_fl st)" "e = None \<Longrightarrow> (st', st) \<in> read_rank"
    "0 \<le> lr_n st \<Longrightarrow> lr_n st' = lr_n st - int (length b) \<and> 0 \<le> lr_n st'"
    "\<not> fs_on (c_fl st) \<Longrightarrow> e = Some ErrEOF \<Longrightarrow> b = [] \<and> lr_n st \<noteq> 0"
    by auto
qed

text \<open>\<open>io.ReadAll\<close>; \<open>c_chunk\<close> is the room its buffer has after so many bytes, at least one byte.\<close>

function read_all :: "tctx \<Rightarrow> bytes \<Rightarrow> wsconn \<Rightarrow> bytes res \<times> wsconn" where
  "read_all c acc st =
     (case msg_Read c (max 1 (c_chunk st (length acc))) st of
        ((b, Some e), st1) \<Rightarrow> if e = ErrEOF then (Inr (acc @ b), st1) else (Inl e, st1)
      | ((b, None), st1) \<Rightarrow> read_all c (acc @ b) st1)"
  by pat_completeness auto
termination
  by (relation "inv_image read_rank (\<lambda>(c, acc, st). st)") (auto dest: msg_Read_moves(3) [OF sym])

declare read_all.simps [simp del]

text \<open>A compressed message may exceed the limit by the one byte that is there to detect the excess.\<close>

lemma read_all_moves:
  "read_all c acc st = (r, st') \<Longrightarrow>
   moves st st' \<and> (\<forall>b. r = Inr b \<longrightarrow> 0 \<le> lr_n st \<longrightarrow>
     int (length b) \<le> int (length acc) + lr_n st \<and> (\<not> fs_on (c_fl st) \<longrightarrow> int (length b) < int (length acc) + lr_n st))"
proof (induction c acc st rule: read_all.induct)
  case (1 c acc st)
  let ?n = "max 1 (c_chunk st (length acc))"
  obtain b1 e1 st1 where read: "msg_Read c ?n st = ((b1, e1), st1)" by (metis surj_pair)
  have "0 < ?n" by simp
  note m = msg_Read_moves [OF read this]
  show ?case
  proof (cases e1)
    case None
    then have "read_all c (acc @ b1) st1 = (r, st')"
      using "1.prems" read by (subst (asm) read_all.simps) simp
    then have "moves st1 st' \<and> (\<forall>b. r = Inr b \<longrightarrow> 0 \<le> lr_n st1 \<longrightarrow>
        int (length b) \<le> int (length (acc @ b1)) + lr_n st1 \<and>
        (\<not> fs_on (c_fl st1) \<longrightarrow> int (length b) < int (length (acc @ b1)) + lr_n st1))"
      using "1.IH" [of "(b1, e1)" st1 b1 e1] read None by simp
    then show ?thesis using m(1,2,4) by (auto intro: moves_trans)
  next
    case (Some x)
    then show ?thesis
      using "1.prems" read m(1,2,4,5) by (subst (asm) read_all.simps) (auto split: if_splits)
  qed
qed

text \<open>\<open>msgReader.reset\<close> with \<open>resetFlate\<close>.\<close>

definition resetFlate :: "wsconn \<Rightarrow> wsconn" where
  "resetFlate st =
     (let f = c_fl st;
          window = (case fs_dict f of None \<Rightarrow> [] | Some d \<Rightarrow> d) in
      st\<lparr>c_fl := f\<lparr>fs_dict := (if mr_takeover st then Some window else fs_dict f),
                   fs_dictionary := (if mr_takeover st then window else []),
                   fs_consumed := [], fs_taken := 0, fs_err := None,
                   fs_tail := deflateMessageTail\<rparr>\<rparr>)"

definition msg_reset :: "frame_header \<Rightarrow> wsconn \<Rightarrow> wsconn" where
  "msg_reset h st =
     (let st1 = st\<lparr>lr_n := lr_limit st, c_fl := (c_fl st)\<lparr>fs_on := rsv1 h\<rparr>\<rparr> in
      setFrame h (if rsv1 h then resetFlate st1 else st1))"

text \<open>\<open>reader\<close>: the header of the next message.\<close>

definition conn_reader :: "tctx \<Rightarrow> int io" where
  "conn_reader c =
     io_wrap ''failed to get reader: %w''
       (io_bind (mu_lock c) (\<lambda>u st.
          if \<not> mr_fin st then (Inl (errors_new ''previous message not read to completion''), st)
          else
            (case readLoop c st of
               (Inl e, st1) \<Rightarrow> (Inl e, st1)
             | (Inr h, st1) \<Rightarrow>
                 if opcode h = opContinuation then
                   let err = errors_new ''received continuation frame without text or binary frame'' in
                   (Inl err, writeError StatusProtocolError err st1)
                 else (Inr (opcode h), msg_reset h st1))))"

definition conn_Read :: "tctx \<Rightarrow> (int \<times> bytes) io" where
  "conn_Read c =
     io_bind (conn_reader c) (\<lambda>ty. io_bind (read_all c []) (\<lambda>b. io_return (ty, b)))"

definition SetReadLimit :: "int \<Rightarrow> wsconn \<Rightarrow> wsconn" where
  "SetReadLimit n st = st\<lparr>lr_limit := (if n \<ge> 0 then n + 1 else n)\<rparr>"

lemma read_turn_data:
  "read_turn c st = (Inr (Some h), st') \<Longrightarrow>
   opcode h \<in> {opContinuation, opText, opBinary} \<and> (rsv1 h \<longrightarrow> conn_flate st')"
  by (auto simp: read_turn_def io_bind_def Let_def rsv_illegal_def readRSV1Illegal_def split: if_splits sum.splits prod.splits)

lemma readLoop_data:
  "readLoop c st = (Inr h, st') \<Longrightarrow> opcode h \<in> {opContinuation, opText, opBinary} \<and> (rsv1 h \<longrightarrow> conn_flate st)"
proof (induction c st rule: readLoop.induct)
  case (1 c st)
  obtain r1 st1 where turn: "read_turn c st = (r1, st1)" by (cases "read_turn c st")
  have same: "conn_flate st1 = conn_flate st"
    using read_turn_evolves [OF turn] by (simp add: evolves_def conn_flate_def)
  show ?case
  proof (cases "r1 = Inr None")
    case True
    then have "readLoop c st1 = (Inr h, st')"
      using "1.prems" turn by (subst (asm) readLoop.simps) simp
    then show ?thesis using "1.IH" [OF turn [symmetric] True refl] same by simp
  next
    case False
    then show ?thesis
      using "1.prems" turn same read_turn_data [of c st h st1]
      by (subst (asm) readLoop.simps) (auto split: sum.splits option.splits)
  qed
qed

lemma msg_reset_moves:
  "moves st (msg_reset h st)" "lr_n (msg_reset h st) = lr_limit st" "fs_on (c_fl (msg_reset h st)) = rsv1 h"
proof -
  let ?st1 = "st\<lparr>lr_n := lr_limit st, c_fl := (c_fl st)\<lparr>fs_on := rsv1 h\<rparr>\<rparr>"
  have "moves st ?st1"
    by (simp add: moves_def evolves_def same_codec_def)
  moreover have "moves ?st1 (resetFlate ?st1)"
    by (simp add: resetFlate_def Let_def moves_def evolves_def same_codec_def)
  moreover have "moves s (setFrame h s)" for s
    by (rule evolves_moves [OF setFrame_evolves(1)])
  ultimately show "moves st (msg_reset h st)"
    unfolding msg_reset_def Let_def by (auto intro: moves_trans)
  show "lr_n (msg_reset h st) = lr_limit st" "fs_on (c_fl (msg_reset h st)) = rsv1 h"
    by (simp_all add: msg_reset_def resetFlate_def setFrame_def Let_def)
qed

lemma conn_reader_moves:
  assumes "conn_reader c st = (r, st')"
  shows "moves st st'"
    and "\<And>ty. r = Inr ty \<Longrightarrow> lr_n st' = lr_limit st \<and> (ty = opText \<or> ty = opBinary) \<and> (fs_on (c_fl st') \<longrightarrow> conn_flate st)"
proof -
  obtain r0 where lock: "mu_lock c st = (r0, st)" by (cases "mu_lock c st") (auto dest: mu_lock_state)
  obtain r1 st1 where loop: "readLoop c st = (r1, st1)" by (cases "readLoop c st")
  have e1: "evolves st st1" using readLoop_evolves [OF loop] by blast
  have frame: "moves st (msg_reset h st1)" for h
    using evolves_moves [OF e1] msg_reset_moves(1) by (rule moves_trans)
  have err: "moves st (writeError code e st1)" for code e
    using evolves_moves [OF evolves_trans [OF e1 writes_evolves [OF writeError_writes]]] .
  show "moves st st'"
    using assms lock loop frame err evolves_moves [OF e1]
    by (cases r0; cases r1) (auto simp: conn_reader_def io_wrap_def io_bind_def Let_def split: if_splits)
  show "lr_n st' = lr_limit st \<and> (ty = opText \<or> ty = opBinary) \<and> (fs_on (c_fl st') \<longrightarrow> conn_flate st)" if "r = Inr ty" for ty
    using assms lock loop that e1 readLoop_data [of c st _ st1] msg_reset_moves(2,3) [of _ st1]
    by (cases r0; cases r1)
      (auto simp: conn_reader_def io_wrap_def io_bind_def Let_def evolves_def split: if_splits)
qed

lemma conn_Read_moves:
  assumes "conn_Read c st = (r, st')"
  shows "moves st st'"
    and "\<And>ty p. r = Inr (ty, p) \<Longrightarrow> (ty = opText \<or> ty = opBinary) \<and>
      (0 \<le> lr_limit st \<longrightarrow> int (length p) < lr_limit st + (if conn_flate st then 1 else 0))"
proof -
  obtain r1 st1 where rd: "conn_reader c st = (r1, st1)" by (cases "conn_reader c st")
  obtain r2 st2 where all: "read_all c [] st1 = (r2, st2)" by (cases "read_all c [] st1")
  show "moves st st'"
    using assms rd all conn_reader_moves(1) [OF rd] read_all_moves [OF all]
    by (cases r1; cases r2) (auto simp: conn_Read_def io_bind_def io_return_def intro: moves_trans)
  show "(ty = opText \<or> ty = opBinary) \<and>
      (0 \<le> lr_limit st \<longrightarrow> int (length p) < lr_limit st + (if conn_flate st then 1 else 0))" if "r = Inr (ty, p)" for ty p
    using assms rd all conn_reader_moves(2) [OF rd] read_all_moves [OF all] that
    by (cases r1; cases r2; cases "fs_on (c_fl st1)") (auto simp: conn_Read_def io_bind_def io_return_def)
qed

section \<open>Writing\<close>

lemma writeCompressedFrame_moves: "writeCompressedFrame c op p st = (r, st') \<Longrightarrow> moves st st'"
proof -
  assume run: "writeCompressedFrame c op p st = (r, st')"
  have keep: "moves st (st\<lparr>c_fl := (c_fl st)\<lparr>fs_history := x\<rparr>\<rparr>)" for x
    by (simp add: moves_fl same_codec_def)
  show ?thesis
    using run
    by (auto simp: writeCompressedFrame_def io_wrap_def io_bind_def Let_def split: sum.splits prod.splits
        dest!: mu_lock_state evolves_moves [OF writes_evolves [OF writeFrame_writes]] intro: moves_trans [OF keep])
qed

lemma conn_Write_moves: "conn_Write c ty p st = (r, st') \<Longrightarrow> moves st st'"
  by (auto simp: conn_Write_def conn_write_def io_wrap_def io_bind_def split: sum.splits prod.splits if_splits
      dest!: mu_lock_state dest: evolves_moves [OF writes_evolves [OF writeFrame_writes]] writeCompressedFrame_moves)

end
