(* ===== verification/Ws_Native.thy ===== *)
theory Ws_Native
  imports Ws_Reader Connection_Laws
begin

text \<open>
  The rest of the native connection: ping, the close handshake and the forced close, and the record
  of native operations that the starter's connection calls. The contract \<open>native_connection\<close> that the
  connection relies on is proved for these operations.
\<close>

section \<open>Ping\<close>

text \<open>\<open>strconv.FormatInt\<close> in base ten, for the positive counter.\<close>

fun format_nat :: "nat \<Rightarrow> string" where
  "format_nat n =
     (if n < 10 then [char_of (48 + n)] else format_nat (n div 10) @ [char_of (48 + n mod 10)])"

declare format_nat.simps [simp del]

text \<open>
  \<open>Conn.Ping\<close>: it writes the ping and then waits for a concurrent reader to deliver the pong, for
  the context or for the close of the connection, whichever is there when the wait is over.
\<close>

definition conn_Ping :: "tctx \<Rightarrow> wsconn \<Rightarrow> go_error option \<times> wsconn" where
  "conn_Ping c st =
     (let st0 = st\<lparr>c_pingCounter := c_pingCounter st + 1\<rparr> in
      case writeControl c opPing (bytes_of (format_nat (nat (c_pingCounter st0)))) st0 of
        (Inl e, st1) \<Rightarrow> (Some (wrap ''failed to ping: %w'' e), st1)
      | (Inr u, st1) \<Rightarrow>
          let st2 = elapse st1 in
          if c_closed st2 then (Some (wrap ''failed to ping: %w'' NetErrClosed), st2)
          else
            (case c (c_now st2) of
               Some (err, cause) \<Rightarrow>
                 (Some (wrap ''failed to ping: %w'' (wrap ''failed to wait for pong: %w'' err)), st2)
             | None \<Rightarrow> (None, st2)))"

section \<open>The close handshake\<close>

text \<open>
  Bytes that the handshake throws away are read one at a time from the buffered reader, outside
  any timeout: each takes its delay, whatever the context says.
\<close>

fun discard :: "nat \<Rightarrow> wsconn \<Rightarrow> unit res \<times> wsconn" where
  "discard n st =
     (if n = 0 then (Inr (), st)
      else
        let st1 = elapse st in
        (case ReadByte (c_in st1) of
           (Inl e, rest) \<Rightarrow> (Inl e, st1\<lparr>c_in := rest\<rparr>)
         | (Inr b, rest) \<Rightarrow> discard (n - 1) (st1\<lparr>c_in := rest\<rparr>)))"

declare discard.simps [simp del]

lemma discard_evolves: "discard n st = (r, st') \<Longrightarrow> evolves st st'"
proof (induction n st rule: discard.induct)
  case (1 n st)
  have tail: "evolves st (elapse st\<lparr>c_in := rest\<rparr>)" if "length rest \<le> length (c_in st)" for rest
    using that by (intro evolves_trans [OF writes_evolves [OF writes_basic(1)] evolves_in]) (simp add: elapse_def split: list.split)
  show ?case
  proof (cases "n = 0")
    case True
    then show ?thesis using "1.prems" by (subst (asm) discard.simps) auto
  next
    case False
    have same: "c_in (elapse st) = c_in st" by (simp add: elapse_def split: list.split)
    show ?thesis
    proof (cases "c_in st")
      case Nil
      then show ?thesis using "1.prems" False tail [of "[]"] same by (subst (asm) discard.simps) (auto simp: Let_def)
    next
      case (Cons b rest)
      then have "discard (n - 1) (elapse st\<lparr>c_in := rest\<rparr>) = (r, st')"
        using "1.prems" False same by (subst (asm) discard.simps) (auto simp: Let_def)
      then show ?thesis
        using "1.IH" [OF False refl, of "Inr b" rest b] tail [of rest] same Cons
        by (auto intro: evolves_trans)
    qed
  qed
qed

function close_wait :: "tctx \<Rightarrow> wsconn \<Rightarrow> go_error \<times> wsconn" where
  "close_wait c st =
     (case readLoop c st of
        (Inl e, st1) \<Rightarrow> (e, st1)
      | (Inr h, st1) \<Rightarrow>
          (case discard (nat (payloadLength h)) st1 of
             (Inl e, st2) \<Rightarrow> (e, st2)
           | (Inr u, st2) \<Rightarrow> close_wait c st2))"
  by pat_completeness auto
termination
proof (relation "measure (\<lambda>(c, st). length (c_in st))", simp)
  fix c st r1 st1 h r2 st2 u
  assume "(r1, st1) = readLoop c st" "r1 = Inr h" "(r2, st2) = discard (nat (payloadLength h)) st1"
  then have "length (c_in st1) < length (c_in st)" "length (c_in st2) \<le> length (c_in st1)"
    using readLoop_evolves [of c st r1 st1] discard_evolves [of "nat (payloadLength h)" st1 r2 st2]
    by (auto simp: evolves_def)
  then show "((c, st2), (c, st)) \<in> measure (\<lambda>(c, st). length (c_in st))" by simp
qed

declare close_wait.simps [simp del]

lemma close_wait_evolves: "close_wait c st = (e, st') \<Longrightarrow> evolves st st'"
proof (induction c st rule: close_wait.induct)
  case (1 c st)
  obtain r1 st1 where loop: "readLoop c st = (r1, st1)" by (cases "readLoop c st")
  have e1: "evolves st st1" using readLoop_evolves [OF loop] by blast
  show ?case
  proof (cases r1)
    case (Inl e)
    then show ?thesis using "1.prems" loop e1 by (subst (asm) close_wait.simps) auto
  next
    case (Inr h)
    obtain r2 st2 where dis: "discard (nat (payloadLength h)) st1 = (r2, st2)"
      by (cases "discard (nat (payloadLength h)) st1")
    have e2: "evolves st st2" using e1 discard_evolves [OF dis] by (rule evolves_trans)
    show ?thesis
    proof (cases r2)
      case (Inl e)
      then show ?thesis using "1.prems" loop Inr dis e2 by (subst (asm) close_wait.simps) auto
    next
      case (Inr u)
      then have "close_wait c st2 = (e, st')"
        using "1.prems" loop \<open>r1 = Inr h\<close> dis by (subst (asm) close_wait.simps) auto
      then show ?thesis
        using "1.IH" [OF loop [symmetric] \<open>r1 = Inr h\<close> dis [symmetric] Inr] e2 by (blast intro: evolves_trans)
    qed
  qed
qed

definition waitCloseHandshake :: "wsconn \<Rightarrow> go_error \<times> wsconn" where
  "waitCloseHandshake st =
     (let c = with_timeout (c_now st) 5000 tctx_background in
      case mu_lock c st of
        (Inl e, st1) \<Rightarrow> (e, st1)
      | (Inr u, st1) \<Rightarrow>
          (case discard (mr_payloadLength st1) st1 of
             (Inl e, st2) \<Rightarrow> (e, st2)
           | (Inr v, st2) \<Rightarrow> close_wait c st2))"

definition closeHandshake :: "int \<Rightarrow> string \<Rightarrow> wsconn \<Rightarrow> go_error option \<times> wsconn" where
  "closeHandshake code reason st =
     (case writeClose code reason st of
        (Inl e, st1) \<Rightarrow> (Some e, st1)
      | (Inr u, st1) \<Rightarrow>
          let (e, st2) = waitCloseHandshake st1 in
          (if CloseStatus e \<noteq> code then Some e else None, st2))"

text \<open>\<open>waitGoroutines\<close>, for a connection on which \<open>CloseRead\<close> was not called.\<close>

definition waitGoroutines :: "wsconn \<Rightarrow> go_error option \<times> wsconn" where
  "waitGoroutines st =
     (if c_closed st then (None, st)
      else (Some (errors_new ''failed to wait for connection to be closed''), st\<lparr>c_now := c_now st + 15000\<rparr>))"

definition or_error :: "go_error option \<Rightarrow> go_error option \<Rightarrow> go_error option" where
  "or_error err err2 = (if err = None then err2 else err)"

text \<open>The deferred function of both closes: a closed connection is no error to the one who closes it.\<close>

definition ignore_closed :: "go_error option \<Rightarrow> go_error option" where
  "ignore_closed err = (case err of Some e \<Rightarrow> if errors_is e NetErrClosed then None else Some e | None \<Rightarrow> None)"

definition already_closing :: "string \<Rightarrow> wsconn \<Rightarrow> go_error option \<times> wsconn" where
  "already_closing fmt st =
     (let (err, st1) = waitGoroutines st in
      (Some (wrap fmt (case err of Some e \<Rightarrow> e | None \<Rightarrow> NetErrClosed)), st1))"

definition conn_Close :: "int \<Rightarrow> string \<Rightarrow> wsconn \<Rightarrow> go_error option \<times> wsconn" where
  "conn_Close code reason st =
     (let (was, st0) = casClosing st in
      if was then already_closing ''failed to close WebSocket: %w'' st0
      else
        let (err, st1) = closeHandshake code reason st0;
            (err2, st2) = conn_close st1;
            (err3, st3) = waitGoroutines st2;
            final = ignore_closed (or_error (or_error err err2) err3)
        in (map_option (wrap ''failed to close WebSocket: %w'') final, st3))"

definition conn_CloseNow :: "wsconn \<Rightarrow> go_error option \<times> wsconn" where
  "conn_CloseNow st =
     (let (was, st0) = casClosing st in
      if was then already_closing ''failed to immediately close WebSocket: %w'' st0
      else
        let (err, st1) = conn_close st0;
            (err2, st2) = waitGoroutines st1;
            final = ignore_closed (or_error err err2)
        in (map_option (wrap ''failed to immediately close WebSocket: %w'') final, st2))"

section \<open>The record of operations\<close>

text \<open>
  The caller's context, seen from time \<open>now\<close> on: one entry of its timeline per millisecond.
\<close>

definition ctx_at :: "nat \<Rightarrow> nat \<Rightarrow> ctx \<Rightarrow> ctx" where
  "ctx_at now t c = (ctx_tick ^^ (t - now)) c"

definition tctx_of :: "nat \<Rightarrow> ctx \<Rightarrow> tctx" where
  "tctx_of now c t = ctx_ended (ctx_at now t c)"

definition ws_ops :: "wsconn native_ops" where
  "ws_ops =
     \<lparr>op_Read = (\<lambda>c st. let (r, st') = conn_Read (tctx_of (c_now st) c) st in (r, st', ctx_at (c_now st) (c_now st') c)),
      op_Write = (\<lambda>c t p st.
        let (r, st') = conn_Write (tctx_of (c_now st) c) t p st in
        (case r of Inl e \<Rightarrow> Some e | Inr u \<Rightarrow> None, st', ctx_at (c_now st) (c_now st') c)),
      op_Ping = (\<lambda>c st. let (e, st') = conn_Ping (tctx_of (c_now st) c) st in (e, st', ctx_at (c_now st) (c_now st') c)),
      op_Close = conn_Close,
      op_CloseNow = conn_CloseNow,
      op_Subprotocol = c_subprotocol,
      op_SetReadLimit = SetReadLimit\<rparr>"

lemma ctx_le_at: "ctx_le c (ctx_at now t c)"
proof -
  have "ctx_le c ((ctx_tick ^^ n) c)" for n
    by (induction n) (auto intro: ctx_le_trans [OF _ ctx_le_tick])
  then show ?thesis by (simp add: ctx_at_def)
qed

lemma conn_Ping_evolves: "conn_Ping c st = (e, st') \<Longrightarrow> evolves st st'"
proof -
  assume run: "conn_Ping c st = (e, st')"
  let ?st0 = "st\<lparr>c_pingCounter := c_pingCounter st + 1\<rparr>"
  let ?p = "bytes_of (format_nat (nat (c_pingCounter ?st0)))"
  obtain r1 st1 where ctl: "writeControl c opPing ?p ?st0 = (r1, st1)" by (cases "writeControl c opPing ?p ?st0")
  have "evolves st ?st0" by (simp add: evolves_def)
  then have e1: "evolves st st1" "evolves st (elapse st1)"
    using writes_evolves [OF writeControl_writes [OF ctl]] writes_evolves [OF writes_basic(1)]
    by (blast intro: evolves_trans)+
  then show ?thesis
    using run ctl by (cases r1) (auto simp: conn_Ping_def Let_def split: if_splits option.splits)
qed

lemma waitCloseHandshake_evolves: "waitCloseHandshake st = (e, st') \<Longrightarrow> evolves st st'"
  by (auto simp: waitCloseHandshake_def Let_def split: sum.splits prod.splits dest!: mu_lock_state
      dest: discard_evolves close_wait_evolves intro: evolves_trans)

lemma closeHandshake_evolves: "closeHandshake code reason st = (e, st') \<Longrightarrow> evolves st st'"
  by (auto simp: closeHandshake_def Let_def split: sum.splits prod.splits
      dest!: writes_evolves [OF writeClose_writes] waitCloseHandshake_evolves intro: evolves_trans)

lemma waitGoroutines_keeps:
  "waitGoroutines st = (e, st') \<Longrightarrow>
   lr_limit st' = lr_limit st \<and> c_subprotocol st' = c_subprotocol st \<and> c_closing st' = c_closing st \<and> c_now st \<le> c_now st'"
  by (auto simp: waitGoroutines_def split: if_splits)

lemma conn_close_keeps:
  "conn_close st = (e, st') \<Longrightarrow>
   lr_limit st' = lr_limit st \<and> c_subprotocol st' = c_subprotocol st \<and> c_closing st' = c_closing st \<and> c_now st' = c_now st \<and> c_closed st'"
  by (auto simp: conn_close_def isClosed_def split: if_splits)

lemma conn_Close_keeps:
  assumes "conn_Close code reason st = (e, st')"
  shows "lr_limit st' = lr_limit st \<and> c_subprotocol st' = c_subprotocol st \<and> c_closing st' \<and> c_now st \<le> c_now st'"
proof (cases "c_closing st")
  case True
  then show ?thesis
    using assms by (auto simp: conn_Close_def casClosing_def already_closing_def Let_def split: prod.splits
        dest!: waitGoroutines_keeps)
next
  case False
  let ?st0 = "st\<lparr>c_closing := True\<rparr>"
  obtain e1 st1 where hs: "closeHandshake code reason ?st0 = (e1, st1)" by (cases "closeHandshake code reason ?st0")
  obtain e2 st2 where cl: "conn_close st1 = (e2, st2)" by (cases "conn_close st1")
  have "lr_limit st1 = lr_limit st \<and> c_subprotocol st1 = c_subprotocol st \<and> c_closing st1 \<and> c_now st \<le> c_now st1"
    using closeHandshake_evolves [OF hs] by (auto simp: evolves_def)
  then show ?thesis
    using assms False hs cl conn_close_keeps [OF cl]
    by (auto simp: conn_Close_def casClosing_def Let_def split: prod.splits dest!: waitGoroutines_keeps)
qed

lemma conn_CloseNow_keeps:
  "conn_CloseNow st = (e, st') \<Longrightarrow>
   lr_limit st' = lr_limit st \<and> c_subprotocol st' = c_subprotocol st \<and> c_closing st' \<and> c_now st \<le> c_now st'"
  by (auto simp: conn_CloseNow_def casClosing_def already_closing_def Let_def split: prod.splits if_splits
      dest!: waitGoroutines_keeps conn_close_keeps)

lemma conn_CloseNow_again: "c_closing st \<Longrightarrow> conn_CloseNow st = (e, st') \<Longrightarrow> e \<noteq> None"
  by (auto simp: conn_CloseNow_def casClosing_def already_closing_def Let_def split: prod.splits)

definition ws_limit :: "wsconn \<Rightarrow> int" where
  "ws_limit st = lr_limit st - 1"

lemma ws_evolves: "evolves st st' \<Longrightarrow> ws_limit st' = ws_limit st \<and> c_subprotocol st' = c_subprotocol st \<and> (c_closing st \<longrightarrow> c_closing st')"
  by (simp add: evolves_def ws_limit_def)

lemma ws_moves: "moves st st' \<Longrightarrow> ws_limit st' = ws_limit st \<and> c_subprotocol st' = c_subprotocol st \<and> (c_closing st \<longrightarrow> c_closing st')"
  by (simp add: moves_def evolves_def ws_limit_def)

text \<open>Only a compressed message may exceed the limit, by one byte.\<close>

definition ws_excess :: "wsconn \<Rightarrow> int" where
  "ws_excess st = (if conn_flate st then 1 else 0)"

lemma moves_excess: "moves st st' \<Longrightarrow> ws_excess st' = ws_excess st"
  by (simp add: ws_excess_def moves_flate)

lemma evolves_excess: "evolves st st' \<Longrightarrow> ws_excess st' = ws_excess st"
  by (rule moves_excess [OF evolves_moves])

lemma closes_excess:
  "ws_excess (snd (conn_Close code reason st)) = ws_excess st"
  "ws_excess (snd (conn_CloseNow st)) = ws_excess st"
proof -
  have step: "ws_excess (snd (conn_close st)) = ws_excess st" "ws_excess (snd (waitGoroutines st)) = ws_excess st"
    "ws_excess (snd (closeHandshake code reason st)) = ws_excess st" "ws_excess (st\<lparr>c_closing := True\<rparr>) = ws_excess st" for st
    using evolves_excess [OF closeHandshake_evolves [of code reason st "fst (closeHandshake code reason st)" "snd (closeHandshake code reason st)"]]
    by (simp_all add: ws_excess_def conn_flate_def conn_close_def waitGoroutines_def)
  show "ws_excess (snd (conn_Close code reason st)) = ws_excess st" "ws_excess (snd (conn_CloseNow st)) = ws_excess st"
    by (auto simp: conn_Close_def conn_CloseNow_def casClosing_def already_closing_def Let_def case_prod_beta step
        split: if_splits)
qed

text \<open>What a step of the native connection does to what the contract speaks of.\<close>

lemma ws_op_moves:
  "op_Read ws_ops c st = (r, st', c') \<Longrightarrow> moves st st' \<and> ctx_le c c'"
  "op_Write ws_ops c t p st = (e, st', c') \<Longrightarrow> moves st st' \<and> ctx_le c c'"
  "op_Ping ws_ops c st = (e, st', c') \<Longrightarrow> moves st st' \<and> ctx_le c c'"
  by (auto simp: ws_ops_def Let_def ctx_le_at split: prod.splits
      dest: conn_Read_moves(1) conn_Write_moves evolves_moves [OF conn_Ping_evolves])

lemma ws_op_Subprotocol: "op_Subprotocol ws_ops = c_subprotocol"
  by (simp add: ws_ops_def)

interpretation ws: native_connection ws_ops c_closing ws_limit
proof
  fix c n t p n' c'
  assume "op_Read ws_ops c n = (Inr (t, p), n', c')"
  then have "conn_Read (tctx_of (c_now n) c) n = (Inr (t, p), n')"
    by (auto simp: ws_ops_def Let_def split: prod.splits)
  from conn_Read_moves(2) [OF this refl] show "t = MessageText \<or> t = MessageBinary"
    by (auto simp: opcode_defs MessageText_def MessageBinary_def)
next
  fix c n r n' c'
  assume "op_Read ws_ops c n = (r, n', c')"
  from ws_op_moves(1) [OF this] show "ws_limit n' = ws_limit n \<and> op_Subprotocol ws_ops n' = op_Subprotocol ws_ops n \<and> (c_closing n \<longrightarrow> c_closing n') \<and> ctx_le c c'"
    by (auto simp: ws_op_Subprotocol dest: ws_moves)
next
  fix c t p n e n' c'
  assume "op_Write ws_ops c t p n = (e, n', c')"
  from ws_op_moves(2) [OF this] show "ws_limit n' = ws_limit n \<and> op_Subprotocol ws_ops n' = op_Subprotocol ws_ops n \<and> (c_closing n \<longrightarrow> c_closing n') \<and> ctx_le c c'"
    by (auto simp: ws_op_Subprotocol dest: ws_moves)
next
  fix c n e n' c'
  assume "op_Ping ws_ops c n = (e, n', c')"
  from ws_op_moves(3) [OF this] show "ws_limit n' = ws_limit n \<and> op_Subprotocol ws_ops n' = op_Subprotocol ws_ops n \<and> (c_closing n \<longrightarrow> c_closing n') \<and> ctx_le c c'"
    by (auto simp: ws_op_Subprotocol dest: ws_moves)
qed (auto simp: ws_ops_def ws_limit_def SetReadLimit_def dest: conn_Close_keeps conn_CloseNow_keeps conn_CloseNow_again)

interpretation ws_same_excess: native_property ws_ops "\<lambda>c. True" "\<lambda>n. ws_excess n = x" for x
proof
  show "op_Read ws_ops c n = (r, n', c') \<Longrightarrow> ws_excess n = x \<Longrightarrow> ws_excess n' = x" for c n r n' c'
    using moves_excess [of n n'] ws_op_moves(1) by blast
  show "op_Write ws_ops c t p n = (e, n', c') \<Longrightarrow> ws_excess n = x \<Longrightarrow> ws_excess n' = x" for c t p n e n' c'
    using moves_excess [of n n'] ws_op_moves(2) by blast
  show "op_Ping ws_ops c n = (e, n', c') \<Longrightarrow> ws_excess n = x \<Longrightarrow> ws_excess n' = x" for c n e n' c'
    using moves_excess [of n n'] ws_op_moves(3) by blast
qed (simp_all add: ws_ops_def SetReadLimit_def closes_excess, simp add: ws_excess_def conn_flate_def)

interpretation ws_bounded: bounded_connection ws_ops c_closing ws_limit ws_excess
proof (intro bounded_connection.intro bounded_connection_axioms.intro)
  fix c n t p n' c'
  assume "op_Read ws_ops c n = (Inr (t, p), n', c')"
  then have "conn_Read (tctx_of (c_now n) c) n = (Inr (t, p), n')"
    by (auto simp: ws_ops_def Let_def split: prod.splits)
  from conn_Read_moves(2) [OF this refl] show "0 \<le> ws_limit n \<Longrightarrow> int (length p) \<le> ws_limit n + ws_excess n"
    by (auto simp: ws_limit_def ws_excess_def split: if_splits)
qed (rule ws.native_connection_axioms, rule ws_same_excess.native_property_axioms)

end
