(* ===== verification/Ws_Transfer.thy ===== *)
theory Ws_Transfer
  imports Ws_Native
begin

text \<open>
  What the writer puts on the wire for a message, and what the reader makes of an uncompressed one.
\<close>

definition live :: "tctx \<Rightarrow> bool" where
  "live c = (\<forall>t. c t = None)"

lemma live_background: "live (tctx_of now background)"
proof -
  have "(ctx_tick ^^ n) background = background" for n
    by (induction n) auto
  then show ?thesis by (simp add: live_def tctx_of_def ctx_at_def) (simp add: background_def)
qed

section \<open>Writing\<close>

text \<open>Everything written so far, whether flushed or not.\<close>

definition written :: "wsconn \<Rightarrow> bytes" where
  "written st = c_sent st @ c_buffered st"

lemma written_simps [simp]:
  "written (bw_flush st) = written st"
  "written (bw_write p st) = written st @ p"
  "written (elapse st) = written st"
  "c_bwsize (bw_flush st) = c_bwsize st"
  "c_bwsize (bw_write p st) = c_bwsize st"
  "c_buffered (bw_flush st) = []"
  by (simp_all add: written_def bw_flush_def bw_write_def elapse_def split: list.split)

text \<open>Masking piece by piece in the buffer, flushing when it is full, is masking the whole payload.\<close>

lemma write_masked_written:
  "0 < c_bwsize st \<Longrightarrow> written (write_masked p key st) = written st @ fst (maskGo p key)"
proof (induction p key st rule: write_masked.induct)
  case (1 p key st)
  show ?case
  proof (cases "p = []")
    case True
    then show ?thesis by (subst write_masked.simps) (simp add: maskGo_mask_bytes)
  next
    case False
    let ?st1 = "if bw_available st = 0 then bw_flush st else st"
    let ?j = "min (length p) (bw_available ?st1)"
    obtain piece key' where m: "maskGo (take ?j p) key = (piece, key')" by (cases "maskGo (take ?j p) key")
    have "written (write_masked (drop ?j p) key' (bw_write piece ?st1)) =
        written (bw_write piece ?st1) @ fst (maskGo (drop ?j p) key')"
      using "1.prems" False by (intro "1.IH" [OF _ refl refl m [symmetric] refl]) auto
    moreover have "fst (maskGo p key) = piece @ fst (maskGo (drop ?j p) key')"
      using maskGo_append [of "take ?j p" "drop ?j p" key] m by (simp add: split_beta Let_def)
    ultimately show ?thesis
      using False "1.prems" m by (subst write_masked.simps) (simp add: Let_def)
  qed
qed

text \<open>The frame of a message: one final data frame, masked by a client.\<close>

definition frame_for :: "bool \<Rightarrow> bool \<Rightarrow> 32 word \<Rightarrow> int \<Rightarrow> bytes \<Rightarrow> frame_header" where
  "frame_for client flate key op p =
     \<lparr>fin = True, rsv1 = flate, rsv2 = False, rsv3 = False, opcode = op, payloadLength = int (length p),
      masked = client, maskKey = key\<rparr>"

definition wire :: "bool \<Rightarrow> bool \<Rightarrow> 32 word \<Rightarrow> int \<Rightarrow> bytes \<Rightarrow> bytes" where
  "wire client flate key op p =
     writeFrameHeader (frame_for client flate key op p) @ (if client then fst (maskGo p key) else p)"

text \<open>A connection that can write: open, no close frame sent, no write error.\<close>

definition can_write :: "wsconn \<Rightarrow> bool" where
  "can_write st =
     (\<not> c_closed st \<and> c_closeSentErr st = None \<and> c_werr st = None \<and> c_werrs st = [] \<and> 0 < c_bwsize st)"

lemma can_write_simps [simp]:
  "can_write (bw_flush st) = can_write st" "can_write (bw_write p st) = can_write st" "can_write (elapse st) = can_write st"
  by (simp_all add: can_write_def bw_flush_def bw_write_def elapse_def split: list.split)

lemma write_masked_can_write [simp]: "can_write (write_masked p key st) = can_write st"
proof (induction p key st rule: write_masked.induct)
  case (1 p key st)
  then show ?case
    by (subst write_masked.simps) (auto simp: Let_def split: prod.split)
qed

lemma put_frame_written:
  assumes "live c" "can_write st" "op = opText \<or> op = opBinary"
  shows "\<exists>st'. put_frame c True flate op p st = (Inr (), st') \<and>
    written st' = written st @ wire (c_client st) flate (fst (next_key st)) op p \<and> c_buffered st' = [] \<and> can_write st'"
proof -
  have io: "bounded_io c st = (Inr (), elapse st)"
    using assms(1) by (simp add: bounded_io_def live_def Let_def)
  have fields: "c_client (elapse st) = c_client st" "c_keys (elapse st) = c_keys st" "c_bwsize (elapse st) = c_bwsize st"
      "next_werr (elapse st) = (None, elapse st)"
    using assms(2) by (simp_all add: elapse_def next_werr_def can_write_def split: list.split)
  obtain key st3 where key: "next_key (elapse st) = (key, st3)" by (cases "next_key (elapse st)")
  have st3: "written st3 = written st" "c_bwsize st3 = c_bwsize st" "fst (next_key st) = key" "\<not> c_client st \<Longrightarrow> key = 0"
    using key fields written_simps(3) [of st] by (auto simp: next_key_def written_def split: if_splits list.splits)
  have can: "can_write st3"
    using key assms(2) can_write_simps(3) [of st] by (auto simp: next_key_def can_write_def split: if_splits list.splits)
  then have bw: "0 < c_bwsize st3" by (simp add: can_write_def)
  show ?thesis
    using io fields(4) key st3 bw can assms(3)
    by (simp add: put_frame_def Let_def write_masked_written wire_def frame_for_def)
qed

text \<open>What is sent for a message, and what of the compression state that changes.\<close>

definition compresses :: "wsconn \<Rightarrow> bytes \<Rightarrow> bool" where
  "compresses st p = (conn_flate st \<and> fs_threshold (c_fl st) \<le> int (length p))"

definition history :: "wsconn \<Rightarrow> bytes list" where
  "history st = (case fs_history (c_fl st) of None \<Rightarrow> [] | Some hs \<Rightarrow> hs)"

definition keeps_history :: "wsconn \<Rightarrow> bool" where
  "keeps_history st =
     (case fs_copts (c_fl st) of None \<Rightarrow> False | Some copts \<Rightarrow> flateContextTakeover (c_client st) copts)"

definition packed :: "wsconn \<Rightarrow> bytes \<Rightarrow> bytes" where
  "packed st p =
     (if compresses st p then but_last 4 (concat (fl_flush (fs_lib (c_fl st)) (history st) p)) else p)"

definition after_write :: "wsconn \<Rightarrow> bytes \<Rightarrow> flate_state" where
  "after_write st p =
     (if compresses st p
      then (c_fl st)\<lparr>fs_history := (if keeps_history st then Some (history st @ [p]) else None)\<rparr>
      else c_fl st)"

lemma writeFrame_written:
  assumes "live c" "can_write st" "op = opText \<or> op = opBinary"
  shows "\<exists>st'. writeFrame c True flate op p st = (Inr (), st') \<and>
    c_sent st' = written st @ wire (c_client st) flate (fst (next_key st)) op p \<and> c_buffered st' = [] \<and>
    c_fl st' = c_fl st \<and> c_client st' = c_client st \<and> can_write st'"
proof -
  obtain st' where put: "put_frame c True flate op p st = (Inr (), st')"
    and out: "written st' = written st @ wire (c_client st) flate (fst (next_key st)) op p" "c_buffered st' = []" "can_write st'"
    using put_frame_written [OF assms] by blast
  have lock: "mu_lock c st = (Inr (), st)"
    using assms(1,2) by (simp add: mu_lock_def live_def can_write_def)
  have body: "write_frame_body c True flate op p st = (Inr (), st')"
    using assms(2,3) put by (auto simp: write_frame_body_def can_write_def opcode_defs)
  show ?thesis
    using lock body out put_frame_writes [OF put]
    by (simp add: writeFrame_def written_def writes_def evolves_def)
qed

lemma can_write_fl: "can_write (st\<lparr>c_fl := f\<rparr>) = can_write st" "written (st\<lparr>c_fl := f\<rparr>) = written st"
  "fst (next_key (st\<lparr>c_fl := f\<rparr>)) = fst (next_key st)"
  by (simp_all add: can_write_def written_def next_key_def split: list.split)

lemma conn_Write_written:
  assumes "live c" "can_write st" "op = opText \<or> op = opBinary"
  shows "\<exists>st'. conn_Write c op p st = (Inr (), st') \<and>
    c_sent st' = written st @ wire (c_client st) (compresses st p) (fst (next_key st)) op (packed st p) \<and>
    c_buffered st' = [] \<and> c_fl st' = after_write st p \<and> c_client st' = c_client st \<and> can_write st'"
proof -
  have lock: "mu_lock c st = (Inr (), st)"
    using assms(1,2) by (simp add: mu_lock_def live_def can_write_def)
  show ?thesis
  proof (cases "compresses st p")
    case False
    then show ?thesis
      using lock writeFrame_written [OF assms, of False p]
      by (auto simp: conn_Write_def conn_write_def io_wrap_def io_bind_def compresses_def packed_def after_write_def)
  next
    case True
    let ?st1 = "st\<lparr>c_fl := after_write st p\<rparr>"
    have "writeCompressedFrame c op p st = writeFrame c True True op (packed st p) ?st1"
      using True lock
      by (simp add: writeCompressedFrame_def io_wrap_def io_bind_def tw_writes_trim packed_def after_write_def Let_def
          keeps_history_def history_def)
    moreover have "can_write ?st1" using assms(2) by (simp add: can_write_fl)
    ultimately show ?thesis
      using True lock writeFrame_written [OF assms(1) _ assms(3), of ?st1 True "packed st p"]
      by (auto simp: conn_Write_def conn_write_def io_wrap_def io_bind_def compresses_def can_write_fl)
  qed
qed

section \<open>Reading\<close>

lemma elapse_fields [simp]:
  "c_closed (elapse st) = c_closed st" "c_closeReceivedErr (elapse st) = c_closeReceivedErr st"
  "c_client (elapse st) = c_client st" "c_in (elapse st) = c_in st" "c_chunk (elapse st) = c_chunk st"
  "mr_fin (elapse st) = mr_fin st" "mr_payloadLength (elapse st) = mr_payloadLength st"
  "mr_maskKey (elapse st) = mr_maskKey st" "lr_n (elapse st) = lr_n st" "lr_limit (elapse st) = lr_limit st"
  "c_fl (elapse st) = c_fl st"
  by (simp_all add: elapse_def split: list.split)

lemma bounded_io_live: "live c \<Longrightarrow> bounded_io c st = (Inr (), elapse st)"
  by (simp add: bounded_io_def live_def Let_def)

lemma mu_lock_live: "live c \<Longrightarrow> \<not> c_closed st \<Longrightarrow> mu_lock c st = (Inr (), st)"
  by (simp add: mu_lock_def live_def)

text \<open>
  A connection in the middle of the last frame of an uncompressed message: \<open>q\<close> is left of the payload, \<open>rest\<close> follows.
\<close>

definition message_left :: "wsconn \<Rightarrow> bytes \<Rightarrow> bytes \<Rightarrow> bool" where
  "message_left st q rest =
     (\<not> c_closed st \<and> c_closeReceivedErr st = None \<and> mr_fin st \<and> mr_payloadLength st = length q \<and>
      c_in st = q @ rest \<and> int (length q) < lr_n st \<and> \<not> fs_on (c_fl st))"

definition unmasked :: "wsconn \<Rightarrow> bytes \<Rightarrow> bytes" where
  "unmasked st q = (if c_client st then q else fst (maskGo q (mr_maskKey st)))"

lemma readFramePayload_live:
  assumes "live c" "\<not> c_closed st" "c_closeReceivedErr st = None" "n \<le> length (c_in st)"
  shows "readFramePayload c n st = ((take n (c_in st), None), (elapse st)\<lparr>c_in := drop n (c_in st)\<rparr>)"
  using assms by (simp add: readFramePayload_def prepareRead_def bounded_io_live ReadFull_def)

text \<open>A read within a frame.\<close>

definition taken_off :: "nat \<Rightarrow> bytes \<Rightarrow> bytes \<Rightarrow> wsconn \<Rightarrow> wsconn" where
  "taken_off m q rest st =
     (let st1 = (elapse st)\<lparr>c_in := drop m q @ rest, mr_payloadLength := length q - m\<rparr> in
      if c_client st then st1 else st1\<lparr>mr_maskKey := snd (maskGo (take m q) (mr_maskKey st))\<rparr>)"

lemma taken_off_fields [simp]:
  "c_in (taken_off m q rest st) = drop m q @ rest" "mr_payloadLength (taken_off m q rest st) = length q - m"
  "c_closed (taken_off m q rest st) = c_closed st" "c_closeReceivedErr (taken_off m q rest st) = c_closeReceivedErr st"
  "mr_fin (taken_off m q rest st) = mr_fin st" "lr_n (taken_off m q rest st) = lr_n st" "c_fl (taken_off m q rest st) = c_fl st"
  "c_client (taken_off m q rest st) = c_client st" "c_chunk (taken_off m q rest st) = c_chunk st"
  by (simp_all add: taken_off_def Let_def)

lemma unmasked_split: "unmasked st q = unmasked st (take m q) @ unmasked (taken_off m q rest st) (drop m q)"
  using maskGo_append [of "take m q" "drop m q" "mr_maskKey st"]
  by (simp add: unmasked_def taken_off_def split_beta Let_def)

lemma length_unmasked [simp]: "length (unmasked st q) = length q"
  by (simp add: unmasked_def maskGo_mask_bytes)

lemma mr_read_payload:
  assumes "live c" "\<not> c_closed st" "c_closeReceivedErr st = None" "mr_payloadLength st = length q" "c_in st = q @ rest" "q \<noteq> []"
    and m: "m = min len (length q)"
  shows "mr_read c len st = ((unmasked st (take m q), None), taken_off m q rest st)"
proof -
  have le: "m \<le> length q" by (simp add: m)
  have pay: "readFramePayload c m st = ((take m q, None), (elapse st)\<lparr>c_in := drop m q @ rest\<rparr>)"
    using readFramePayload_live [OF assms(1-3), of m] assms(5) le by simp
  have "mr_payloadLength st \<noteq> 0" "min len (mr_payloadLength st) = m"
    using assms(4,6) by (simp_all add: m)
  then show ?thesis
    using pay assms(4) le
    by (subst mr_read.simps) (simp add: unmasked_def taken_off_def Let_def split_beta min_absorb2)
qed

text \<open>One read of \<open>io.ReadAll\<close> takes a non-empty piece off the front.\<close>

lemma msg_Read_piece:
  assumes "live c" "message_left st q rest" "q \<noteq> []" "0 < len"
  shows "\<exists>m st'. 0 < m \<and> m \<le> length q \<and> msg_Read c len st = ((unmasked st (take m q), None), st') \<and>
    message_left st' (drop m q) rest \<and> c_client st' = c_client st \<and> c_chunk st' = c_chunk st \<and> c_fl st' = c_fl st \<and>
    unmasked st q = unmasked st (take m q) @ unmasked st' (drop m q)"
proof -
  let ?len = "if int len > lr_n st then nat (lr_n st) else len"
  let ?m = "min ?len (length q)"
  note left = assms(2) [unfolded message_left_def]
  have m: "0 < ?m" "?m \<le> length q" using left assms(3,4) by auto
  let ?st1 = "taken_off ?m q rest st"
  have read: "raw_read c ?len st = ((unmasked st (take ?m q), None), ?st1)"
    using mr_read_payload [OF assms(1) _ _ _ _ assms(3) refl, of st rest ?len] left by (simp add: raw_read_def)
  let ?st' = "?st1\<lparr>lr_n := lr_n st - int ?m\<rparr>"
  have lr: "0 < lr_n st" "int ?m \<le> lr_n st" using left m by linarith+
  have "limit_read c len st = ((unmasked st (take ?m q), None), ?st')"
    using read lr(1) m by (simp add: limit_read_def del: min_less_iff_conj)
  then have run: "msg_Read c len st = ((unmasked st (take ?m q), None), ?st')"
    using mu_lock_live [OF assms(1)] left by (simp add: msg_Read_def keep_window_def Let_def)
  have "message_left ?st' (drop ?m q) rest"
    using left m by (auto simp: message_left_def)
  moreover have "unmasked st q = unmasked st (take ?m q) @ unmasked ?st' (drop ?m q)"
    using unmasked_split [of st q ?m rest] by (simp add: unmasked_def)
  moreover have "c_client ?st' = c_client st" "c_chunk ?st' = c_chunk st" "c_fl ?st' = c_fl st" by simp_all
  ultimately show ?thesis using run m by blast
qed

lemma msg_Read_end:
  assumes "live c" "message_left st [] rest"
  shows "msg_Read c len st = (([], Some ErrEOF), st)"
proof -
  have "limit_read c len st = (([], Some ErrEOF), st)"
    using assms(2) by (auto simp: message_left_def limit_read_def raw_read_def mr_read.simps)
  then show ?thesis
    using mu_lock_live [OF assms(1)] assms(2) by (simp add: msg_Read_def message_left_def err_simps keep_window_def Let_def)
qed

lemma read_all_message:
  "live c \<Longrightarrow> message_left st q rest \<Longrightarrow>
   \<exists>st'. read_all c acc st = (Inr (acc @ unmasked st q), st') \<and> message_left st' [] rest \<and> c_client st' = c_client st \<and> c_fl st' = c_fl st"
proof (induction "length q" arbitrary: q st acc rule: less_induct)
  case less
  show ?case
  proof (cases "q = []")
    case True
    then have "unmasked st q = []" by (simp add: unmasked_def maskGo_mask_bytes)
    then show ?thesis
      using msg_Read_end [OF less.prems(1)] less.prems(2) True by (subst read_all.simps) simp
  next
    case False
    obtain m st1 where m: "0 < m" "m \<le> length q"
      and read: "msg_Read c (max 1 (c_chunk st (length acc))) st = ((unmasked st (take m q), None), st1)"
      and st1: "message_left st1 (drop m q) rest" "c_client st1 = c_client st" "c_fl st1 = c_fl st"
        "unmasked st q = unmasked st (take m q) @ unmasked st1 (drop m q)"
      using msg_Read_piece [OF less.prems False, of "max 1 (c_chunk st (length acc))"]
      by (auto simp: less_max_iff_disj)
    have "\<exists>st'. read_all c (acc @ unmasked st (take m q)) st1 =
        (Inr ((acc @ unmasked st (take m q)) @ unmasked st1 (drop m q)), st') \<and> message_left st' [] rest \<and> c_client st' = c_client st1 \<and> c_fl st' = c_fl st1"
      using m False by (intro less.hyps less.prems st1(1)) simp
    then show ?thesis
      using read st1 by (subst read_all.simps) auto
  qed
qed

text \<open>A connection between messages that can still read.\<close>

definition can_read :: "wsconn \<Rightarrow> bool" where
  "can_read st = (\<not> c_closed st \<and> c_closeReceivedErr st = None \<and> mr_fin st)"

lemma readLoop_frame:
  assumes "live c" "can_read st" "c_client st = (\<not> client)" "op = opText \<or> op = opBinary" "flate \<Longrightarrow> conn_flate st"
    and "header_ok (frame_for client flate key op p)" "c_in st = writeFrameHeader (frame_for client flate key op p) @ rest"
  shows "readLoop c st = (Inr (frame_for client flate key op p), (elapse st)\<lparr>c_in := rest\<rparr>)"
proof -
  have "conn_readFrameHeader c st = (Inr (frame_for client flate key op p), (elapse st)\<lparr>c_in := rest\<rparr>)"
    using assms(1,2,7) frame_header_read [OF assms(6), of rest]
    by (simp add: conn_readFrameHeader_def prepareRead_def io_bind_def bounded_io_live can_read_def)
  then have "read_turn c st = (Inr (Some (frame_for client flate key op p)), (elapse st)\<lparr>c_in := rest\<rparr>)"
    using assms(3-5)
    by (auto simp: read_turn_def io_bind_def rsv_illegal_def readRSV1Illegal_def conn_flate_def frame_for_def opcode_defs)
  then show ?thesis by (simp add: readLoop.simps)
qed

text \<open>The reader of a message whose first frame, the only one, has come.\<close>

lemma conn_reader_wire:
  assumes "live c" "can_read st" "c_client st = (\<not> client)" "op = opText \<or> op = opBinary" "flate \<Longrightarrow> conn_flate st"
    and "length q < 2 ^ 63" "\<not> client \<Longrightarrow> key = 0" and "c_in st = wire client flate key op q @ rest"
  shows "conn_reader c st =
    (Inr op, msg_reset (frame_for client flate key op q)
      ((elapse st)\<lparr>c_in := (if client then fst (maskGo q key) else q) @ rest\<rparr>))"
proof -
  have "header_ok (frame_for client flate key op q)"
    using assms(4,6,7) by (auto simp: header_ok_def frame_for_def opcode_defs)
  from readLoop_frame [OF assms(1-5) this, of "(if client then fst (maskGo q key) else q) @ rest"] show ?thesis
    using assms(2,4,8) mu_lock_live [OF assms(1), of st]
    by (auto simp: conn_reader_def io_wrap_def io_bind_def can_read_def frame_for_def opcode_defs wire_def)
qed

lemma conn_Read_wire:
  assumes "live c" "can_read st" "c_client st = (\<not> client)" "op = opText \<or> op = opBinary"
    and "length p < 2 ^ 63" "\<not> client \<Longrightarrow> key = 0" "int (length p) < lr_limit st"
    and "c_in st = wire client False key op p @ rest"
  shows "\<exists>st'. conn_Read c st = (Inr (op, p), st') \<and> c_in st' = rest \<and> can_read st' \<and> c_client st' = c_client st \<and>
    c_fl st' = (c_fl st)\<lparr>fs_on := False\<rparr>"
proof -
  let ?q = "if client then fst (maskGo p key) else p"
  let ?st1 = "msg_reset (frame_for client False key op p) ((elapse st)\<lparr>c_in := ?q @ rest\<rparr>)"
  have rd: "conn_reader c st = (Inr op, ?st1)"
    by (rule conn_reader_wire [OF assms(1-4) _ assms(5,6,8)]) simp
  have fields: "c_fl ?st1 = (c_fl st)\<lparr>fs_on := False\<rparr>" "c_client ?st1 = c_client st"
    by (simp_all add: msg_reset_def frame_for_def setFrame_def Let_def)
  have len: "length ?q = length p" by (simp add: maskGo_mask_bytes)
  have left: "message_left ?st1 ?q rest"
    using assms(2,7) len by (simp add: message_left_def can_read_def msg_reset_def setFrame_def frame_for_def Let_def)
  have "unmasked ?st1 ?q = p"
    using assms(3) mask_bytes_involution [of p key]
    by (auto simp: unmasked_def msg_reset_def setFrame_def frame_for_def maskGo_mask_bytes Let_def)
  then obtain st' where "read_all c [] ?st1 = (Inr p, st')" "message_left st' [] rest" "c_client st' = c_client ?st1"
      "c_fl st' = c_fl ?st1"
    using read_all_message [OF assms(1) left, of "[]"] by auto
  then show ?thesis
    using rd fields by (auto simp: conn_Read_def io_bind_def io_return_def message_left_def can_read_def)
qed

text \<open>A fresh native connection with nothing to read, and an example.\<close>

definition fresh_conn :: "bool \<Rightarrow> wsconn" where
  "fresh_conn client =
     \<lparr>c_subprotocol = ''chat'', c_client = client, c_now = 0, c_delays = [], c_in = [], c_sent = [], c_buffered = [],
      c_bwsize = 4096, c_werrs = [], c_werr = None, c_keys = [0x11223344], c_rwcerr = None, c_render = (\<lambda>e. []),
      c_chunk = (\<lambda>n. 512), c_closing = False, c_closed = False, c_closeReceivedErr = None, c_closeSentErr = None,
      c_pingCounter = 0, mr_fin = True, mr_payloadLength = 0, mr_maskKey = 0, lr_limit = 32769, lr_n = 32769,
      c_fl = new_flate None 0 stored_lib\<rparr>"

definition example_message :: bytes where
  "example_message = [104, 101, 108, 108, 111]"

end
