(* ===== verification/Message_Transfer.thy ===== *)
theory Message_Transfer
  imports Ws_Transfer Config
begin

text \<open>
  The reader of a compressed message, and a message from one end of a connection to the other, whether it is
  compressed or not.
\<close>

section \<open>The bytes that the flate reader gets\<close>

text \<open>
  A connection in the last frame of a compressed message: \<open>x\<close> is what the flate reader will get, the buffer first,
  then the rest of the payload, then the tail; \<open>rest\<close> follows on the wire.
\<close>

definition source :: "wsconn \<Rightarrow> bytes \<Rightarrow> bytes \<Rightarrow> bool" where
  "source st x rest =
     (\<not> c_closed st \<and> c_closeReceivedErr st = None \<and> mr_fin st \<and> fs_on (c_fl st) \<and> fs_buferr (c_fl st) = None \<and>
      (\<exists>r. mr_payloadLength st = length r \<and> c_in st = r @ rest \<and>
        x = fs_buf (c_fl st) @ unmasked st r @ fs_tail (c_fl st)))"

lemma unmasked_fl [simp]: "unmasked (st\<lparr>c_fl := f\<rparr>) r = unmasked st r" "unmasked (st\<lparr>lr_n := n\<rparr>) r = unmasked st r"
  by (simp_all add: unmasked_def)

lemma mr_read_source:
  assumes "live c" "source st x rest" "fs_buf (c_fl st) = []" "x \<noteq> []" "0 < len"
  shows "\<exists>b x' st'. mr_read c len st = ((b, None), st') \<and> b \<noteq> [] \<and> x = b @ x' \<and> source st' x' rest \<and> fs_buf (c_fl st') = []"
proof -
  obtain r where r: "mr_payloadLength st = length r" "c_in st = r @ rest" "x = unmasked st r @ fs_tail (c_fl st)"
    and open1: "\<not> c_closed st" "c_closeReceivedErr st = None" "mr_fin st" "fs_on (c_fl st)" "fs_buferr (c_fl st) = None"
    using assms(2,3) by (auto simp: source_def)
  show ?thesis
  proof (cases "r = []")
    case True
    have "fs_tail (c_fl st) \<noteq> []" using True r(3) assms(4) by (simp add: unmasked_def maskGo_mask_bytes)
    moreover have "source (st\<lparr>c_fl := (c_fl st)\<lparr>fs_tail := t\<rparr>\<rparr>) t rest" for t
      using r open1 assms(3) True by (auto simp: source_def unmasked_def maskGo_mask_bytes)
    ultimately show ?thesis
      using r open1 assms(3,5) True
      by (intro exI [of _ "take len (fs_tail (c_fl st))"] exI [of _ "drop len (fs_tail (c_fl st))"]
          exI [of _ "st\<lparr>c_fl := (c_fl st)\<lparr>fs_tail := drop len (fs_tail (c_fl st))\<rparr>\<rparr>"])
        (simp add: mr_read.simps Let_def unmasked_def maskGo_mask_bytes)
  next
    case False
    let ?m = "min len (length r)"
    let ?st' = "taken_off ?m r rest st"
    have "unmasked st (take ?m r) \<noteq> []" using False assms(5) by (metis length_unmasked length_0_conv length_take min.absorb_iff2 min_def not_gr_zero)
    moreover have "source ?st' (unmasked ?st' (drop ?m r) @ fs_tail (c_fl st)) rest"
      using open1 assms(3) by (auto simp: source_def intro!: exI [of _ "drop ?m r"])
    moreover have "x = unmasked st (take ?m r) @ unmasked ?st' (drop ?m r) @ fs_tail (c_fl st)"
      using r(3) unmasked_split [of st r ?m rest] by simp
    ultimately show ?thesis
      using mr_read_payload [OF assms(1) open1(1,2) r(1,2) False refl, of len] assms(3)
      by (intro exI [of _ "unmasked st (take ?m r)"] exI [of _ "unmasked ?st' (drop ?m r) @ fs_tail (c_fl st)"] exI [of _ ?st'])
        simp
  qed
qed

lemma mr_read_source_end:
  "source st [] rest \<Longrightarrow> mr_read c len st = (([], Some ErrEOF), st)"
  by (auto simp: source_def mr_read.simps unmasked_def maskGo_mask_bytes split: if_splits)
    (metis length_0_conv length_unmasked unmasked_def maskGo_mask_bytes)+

lemma flate_ReadByte_source:
  assumes "live c" "source st (y # x) rest"
  shows "\<exists>st'. flate_ReadByte c st = (Inr y, st') \<and> source st' x rest"
proof (cases "fs_buf (c_fl st)")
  case (Cons z zs)
  let ?st' = "st\<lparr>c_fl := (c_fl st)\<lparr>fs_buf := zs\<rparr>\<rparr>"
  obtain r where "mr_payloadLength st = length r" "c_in st = r @ rest" "y # x = fs_buf (c_fl st) @ unmasked st r @ fs_tail (c_fl st)"
    using assms(2) by (auto simp: source_def)
  with Cons have "source ?st' x rest" and y: "y = z"
    using assms(2) by (auto simp: source_def intro: exI [of _ r])
  with Cons show ?thesis by (auto simp: flate_ReadByte_def)
next
  case Nil
  obtain b x' st1 where read: "mr_read c 4096 st = ((b, None), st1)" "b \<noteq> []" "y # x = b @ x'"
    and st1: "source st1 x' rest" "fs_buf (c_fl st1) = []"
    using mr_read_source [OF assms Nil list.distinct(2), of 4096] by (simp only: zero_less_numeral simp_thms) blast
  obtain z zs where b: "b = z # zs" using read(2) by (cases b) auto
  have "source (st1\<lparr>c_fl := (c_fl st1)\<lparr>fs_buf := zs, fs_buferr := None\<rparr>\<rparr>) (zs @ x') rest"
    using st1 by (auto simp: source_def)
  moreover have "fs_buferr (c_fl st) = None" using assms(2) by (simp add: source_def)
  ultimately show ?thesis
    using read Nil b by (simp add: flate_ReadByte_def)
qed

lemma flate_ReadByte_end: "source st [] rest \<Longrightarrow> flate_ReadByte c st = (Inl ErrEOF, st)"
  using mr_read_source_end [of st rest c 4096] by (auto simp: flate_ReadByte_def source_def)

section \<open>The message that it makes of them\<close>

text \<open>
  The flate reader is turning \<open>w\<close> into \<open>p\<close>: it has delivered a part of \<open>p\<close>, and \<open>x\<close> is what it has not read of \<open>w\<close>.
\<close>

definition inflating :: "wsconn \<Rightarrow> bytes \<Rightarrow> bytes \<Rightarrow> bytes \<Rightarrow> bytes \<Rightarrow> bool" where
  "inflating st x w p rest =
     (source st x rest \<and> fs_consumed (c_fl st) @ x = w \<and>
      inflates (fs_lib (c_fl st)) (fs_dictionary (c_fl st)) w p \<and>
      (fs_err (c_fl st) = None \<or> fs_err (c_fl st) = Some ErrUnexpectedEOF \<and> x = []) \<and> fs_taken (c_fl st) \<le> length p)"

text \<open>The parts of the compression state that a read does not change.\<close>

definition reads_only :: "flate_state \<Rightarrow> flate_state \<Rightarrow> bool" where
  "reads_only f f' =
     (same_codec f f' \<and> fs_dict f' = fs_dict f \<and> fs_history f' = fs_history f \<and> fs_on f' = fs_on f)"

lemma reads_only_refl [simp]: "reads_only f f"
  by (simp add: reads_only_def)

lemma reads_only_trans: "reads_only f g \<Longrightarrow> reads_only g h \<Longrightarrow> reads_only f h"
  by (auto simp: reads_only_def intro: same_codec_trans)

lemma inflates_give:
  assumes "inflates lib d w p" "prefix q w"
  shows "in_err (fl_inflate lib d q) = None" "prefix (in_ready (fl_inflate lib d q)) p"
    "in_decoded (fl_inflate lib d w) = p"
  using assms by (auto simp: inflates_def)

lemma prefix_take_drop: "prefix r p \<Longrightarrow> drop n r = take (length (drop n r)) (drop n p)"
  by (auto simp: prefix_def)

lemma flate_give_inflating:
  assumes "inflating st x w p rest"
  shows "\<exists>m e st'. flate_give len st = ((take m (drop (fs_taken (c_fl st)) p), e), st') \<and>
    m \<le> length p - fs_taken (c_fl st) \<and> fs_taken (c_fl st') = fs_taken (c_fl st) + m \<and>
    inflating st' x w p rest \<and> reads_only (c_fl st) (c_fl st') \<and>
    (e = None \<or> e = Some ErrUnexpectedEOF \<and> x = [] \<and> fs_taken (c_fl st') = length p)"
proof -
  let ?f = "c_fl st" and ?n = "fs_taken (c_fl st)"
  let ?left = "flate_left ?f"
  let ?m = "min len (length ?left)"
  let ?st' = "st\<lparr>c_fl := ?f\<lparr>fs_taken := ?n + ?m\<rparr>\<rparr>"
  have w: "prefix (fs_consumed ?f) w" "inflates (fs_lib ?f) (fs_dictionary ?f) w p" "?n \<le> length p"
    using assms by (auto simp: inflating_def)
  have left: "?left = take (length ?left) (drop ?n p)" "length ?left \<le> length p - ?n"
    and err: "flate_error ?f = None \<or> flate_error ?f = Some ErrUnexpectedEOF \<and> x = [] \<and> length ?left = length p - ?n"
  proof (atomize (full), cases "fs_err ?f")
    case None
    then have f: "flate_error ?f = None" "?left = drop ?n (in_ready (fl_inflate (fs_lib ?f) (fs_dictionary ?f) (fs_consumed ?f)))"
      using inflates_give(1) [OF w(2,1)] by (simp_all add: flate_error_def flate_left_def Let_def)
    have "length (in_ready (fl_inflate (fs_lib ?f) (fs_dictionary ?f) (fs_consumed ?f))) \<le> length p"
      using prefix_length_le [OF inflates_give(2) [OF w(2,1)]] .
    then show "(?left = take (length ?left) (drop ?n p) \<and> length ?left \<le> length p - ?n) \<and>
        (flate_error ?f = None \<or> flate_error ?f = Some ErrUnexpectedEOF \<and> x = [] \<and> length ?left = length p - ?n)"
      using prefix_take_drop [OF inflates_give(2) [OF w(2,1)], of ?n] f by simp
  next
    case (Some e)
    then have "e = ErrUnexpectedEOF" "x = []" "fs_consumed ?f = w"
      using assms by (auto simp: inflating_def)
    then have "flate_error ?f = Some ErrUnexpectedEOF" "?left = drop ?n p"
      using Some inflates_give(3) [OF w(2) prefix_order.refl] by (simp_all add: flate_error_def flate_left_def Let_def)
    then show "(?left = take (length ?left) (drop ?n p) \<and> length ?left \<le> length p - ?n) \<and>
        (flate_error ?f = None \<or> flate_error ?f = Some ErrUnexpectedEOF \<and> x = [] \<and> length ?left = length p - ?n)"
      using \<open>x = []\<close> by simp
  qed
  have "take len ?left = take ?m (drop ?n p)"
    by (subst left(1)) (simp add: min.commute)
  moreover have "inflating ?st' x w p rest"
    using assms left(2) w(3) by (auto simp: inflating_def source_def)
  moreover have "reads_only ?f (c_fl ?st')" by (simp add: reads_only_def same_codec_def)
  ultimately show ?thesis
    using left(2) err w(3)
    by (intro exI [of _ ?m] exI [of _ "if length ?left \<le> len then flate_error ?f else None"] exI [of _ ?st'])
      (auto simp: flate_give_def Let_def)
qed

lemma flate_read_inflating:
  assumes "live c" "inflating st x w p rest"
  shows "\<exists>m e x' st'. flate_read c len st = ((take m (drop (fs_taken (c_fl st)) p), e), st') \<and>
    m \<le> length p - fs_taken (c_fl st) \<and> fs_taken (c_fl st') = fs_taken (c_fl st) + m \<and>
    inflating st' x' w p rest \<and> reads_only (c_fl st) (c_fl st') \<and>
    (e = None \<or> e = Some ErrUnexpectedEOF \<and> x' = [] \<and> fs_taken (c_fl st') = length p)"
  using assms
proof (induction x arbitrary: st)
  case Nil
  show ?case
  proof (cases "flate_left (c_fl st) \<noteq> [] \<or> flate_error (c_fl st) \<noteq> None")
    case True
    then show ?thesis
      using flate_give_inflating [OF Nil(2), of len] by (subst flate_read.simps) fastforce
  next
    case False
    let ?st1 = "st\<lparr>c_fl := (c_fl st)\<lparr>fs_err := Some ErrUnexpectedEOF\<rparr>\<rparr>"
    have "source st [] rest" using Nil(2) by (simp add: inflating_def)
    then have "flate_read c len st = flate_give len ?st1"
      using False by (subst flate_read.simps) (simp add: flate_ReadByte_end noEOF_def)
    moreover have "inflating ?st1 [] w p rest" "reads_only (c_fl st) (c_fl ?st1)"
      using Nil(2) by (auto simp: inflating_def source_def reads_only_def same_codec_def)
    ultimately show ?thesis
      using flate_give_inflating [of ?st1 "[]" w p rest len] by (fastforce intro: reads_only_trans)
  qed
next
  case (Cons y x)
  show ?case
  proof (cases "flate_left (c_fl st) \<noteq> [] \<or> flate_error (c_fl st) \<noteq> None")
    case True
    then show ?thesis
      using flate_give_inflating [OF Cons.prems(2), of len] by (subst flate_read.simps) fastforce
  next
    case False
    obtain st1 where byte: "flate_ReadByte c st = (Inr y, st1)" "source st1 x rest"
      using flate_ReadByte_source [OF Cons.prems(1), of st y x rest] Cons.prems(2) by (auto simp: inflating_def)
    note keep = reader_stateD [OF flate_ReadByte_moves(3) [OF byte(1)]]
    let ?st2 = "st1\<lparr>c_fl := (c_fl st1)\<lparr>fs_consumed := fs_consumed (c_fl st1) @ [y]\<rparr>\<rparr>"
    have run: "flate_read c len st = flate_read c len ?st2"
      using False byte(1) by (subst flate_read.simps) simp
    have "inflating ?st2 x w p rest"
      using Cons.prems(2) keep byte(2) by (auto simp: inflating_def source_def same_codec_def)
    moreover have "reads_only (c_fl st) (c_fl ?st2)" "fs_taken (c_fl ?st2) = fs_taken (c_fl st)"
      using keep by (auto simp: reads_only_def same_codec_def)
    ultimately show ?thesis
      using Cons.IH [OF Cons.prems(1), of ?st2] run by (fastforce intro: reads_only_trans)
  qed
qed

section \<open>Reading it\<close>

text \<open>Between two reads: \<open>before\<close> is what the messages before this one have said, and the limit has room for the rest.\<close>

definition unpacking :: "wsconn \<Rightarrow> bytes \<Rightarrow> bytes \<Rightarrow> bytes \<Rightarrow> bytes \<Rightarrow> bool" where
  "unpacking st before w p rest =
     ((\<exists>x. inflating st x w p rest) \<and> int (length p) < lr_n st + int (fs_taken (c_fl st)) \<and>
      (mr_takeover st \<longrightarrow> fs_dict (c_fl st) = Some (last_n windowSize (before @ take (fs_taken (c_fl st)) p))))"

lemma mr_takeover_iff:
  "mr_takeover st = (\<exists>copts. fs_copts (c_fl st) = Some copts \<and> mr_flateContextTakeover (c_client st) copts)"
  by (simp add: mr_takeover_def split: option.split)

lemma reads_only_takeover: "reads_only (c_fl st) (c_fl st') \<Longrightarrow> c_client st' = c_client st \<Longrightarrow> mr_takeover st' = mr_takeover st"
  by (simp add: mr_takeover_iff reads_only_def same_codec_def)

lemma window_grows: "sw_write n (last_n n xs) ys = last_n n (xs @ ys)"
  using sw_write_window [of "last_n n xs" n ys] last_n_last_n [of n xs ys] by simp

lemma inflating_keep_window:
  assumes "inflating st x w p rest"
  shows "inflating (keep_window b st) x w p rest"
    and "reads_only ((c_fl st)\<lparr>fs_dict := d\<rparr>) ((c_fl (keep_window b st))\<lparr>fs_dict := d\<rparr>)"
    and "mr_takeover st \<Longrightarrow> fs_dict (c_fl (keep_window b st)) = map_option (\<lambda>d. sw_write windowSize d b) (fs_dict (c_fl st))"
    and "fs_taken (c_fl (keep_window b st)) = fs_taken (c_fl st)"
    and "mr_takeover (keep_window b st) = mr_takeover st"
    and "mr_fin (keep_window b st)" and "fs_on (c_fl (keep_window b st))"
  using assms
  by (auto simp: keep_window_def Let_def inflating_def source_def reads_only_def same_codec_def mr_takeover_iff)

lemma msg_Read_unpacking:
  assumes "live c" "unpacking st before w p rest" "0 < len"
  shows "\<exists>m e st'. msg_Read c len st = ((take m (drop (fs_taken (c_fl st)) p), e), st') \<and>
    unpacking st' before w p rest \<and> fs_taken (c_fl st') = fs_taken (c_fl st) + m \<and>
    reads_only ((c_fl st)\<lparr>fs_dict := None\<rparr>) ((c_fl st')\<lparr>fs_dict := None\<rparr>) \<and>
    (e = None \<or> e = Some ErrEOF \<and> inflating st' [] w p rest \<and> fs_taken (c_fl st') = length p)"
proof -
  let ?n = "fs_taken (c_fl st)"
  obtain x where x: "inflating st x w p rest" using assms(2) by (auto simp: unpacking_def)
  have lr: "int (length p) < lr_n st + int ?n" "?n \<le> length p" "fs_on (c_fl st)" "\<not> c_closed st"
    and dict: "mr_takeover st \<longrightarrow> fs_dict (c_fl st) = Some (last_n windowSize (before @ take ?n p))"
    using assms(2) x by (auto simp: unpacking_def inflating_def source_def)
  let ?len = "if int len > lr_n st then nat (lr_n st) else len"
  obtain m e x' st1 where read: "flate_read c ?len st = ((take m (drop ?n p), e), st1)"
    and m: "m \<le> length p - ?n" "fs_taken (c_fl st1) = ?n + m"
    and st1: "inflating st1 x' w p rest" "reads_only (c_fl st) (c_fl st1)"
      "e = None \<or> e = Some ErrUnexpectedEOF \<and> x' = [] \<and> fs_taken (c_fl st1) = length p"
    using flate_read_inflating [OF assms(1) x, of ?len] by blast
  have "0 < ?len" using lr assms(3) by auto
  note moved = flate_read_moves [OF read this]
  have "length (take m (drop ?n p)) = m" using m by simp
  then have "limit_read c len st = ((take m (drop ?n p), e), st1\<lparr>lr_n := lr_n st - int m\<rparr>)"
    using read lr moved m(1) by (simp add: limit_read_def raw_read_def)
  moreover define st2 where "st2 = st1\<lparr>lr_n := lr_n st - int m\<rparr>"
  moreover define st' where "st' = keep_window (take m (drop ?n p)) st2"
  ultimately have run: "msg_Read c len st =
      ((take m (drop ?n p), if e = None then None else Some ErrEOF), st')"
    using mu_lock_live [OF assms(1)] lr(4) st1(3) inflating_keep_window(6,7) [of st2 x' w p rest, where b = "take m (drop ?n p)"] st1(1)
    by (auto simp: msg_Read_def Let_def err_simps inflating_def source_def)
  have st2: "inflating st2 x' w p rest" "mr_takeover st2 = mr_takeover st" "fs_dict (c_fl st2) = fs_dict (c_fl st)"
    "fs_taken (c_fl st2) = ?n + m" "c_fl st2 = c_fl st1"
    using st1 m(2) moved moves_flate [of st st1]
    by (auto simp: st2_def inflating_def source_def reads_only_def mr_takeover_iff same_codec_def)
  note kept = inflating_keep_window [OF st2(1), where b = "take m (drop ?n p)", folded st'_def]
  have "lr_n st' = lr_n st - int m" by (simp add: st'_def st2_def keep_window_moves(2))
  moreover have "take ?n p @ take m (drop ?n p) = take (?n + m) p" by (simp add: take_add)
  ultimately have "unpacking st' before w p rest"
    using kept(1,3-5) st2 dict lr(1) by (auto simp: unpacking_def window_grows)
  moreover have "reads_only ((c_fl st)\<lparr>fs_dict := None\<rparr>) ((c_fl st')\<lparr>fs_dict := None\<rparr>)"
    using kept(2) [of None] st1(2) st2(5) by (auto simp: reads_only_def same_codec_def)
  ultimately show ?thesis
    using run st1(3) kept(1,4) st2(4,5) m(2)
    by (intro exI [of _ m] exI [of _ "if e = None then None else Some ErrEOF"] exI [of _ st']) auto
qed

lemma read_all_unpacking:
  "live c \<Longrightarrow> unpacking st before w p rest \<Longrightarrow>
   \<exists>st'. read_all c acc st = (Inr (acc @ drop (fs_taken (c_fl st)) p), st') \<and> inflating st' [] w p rest \<and>
     unpacking st' before w p rest \<and> fs_taken (c_fl st') = length p \<and>
     reads_only ((c_fl st)\<lparr>fs_dict := None\<rparr>) ((c_fl st')\<lparr>fs_dict := None\<rparr>)"
proof (induction c acc st rule: read_all.induct)
  case (1 c acc st)
  let ?len = "max 1 (c_chunk st (length acc))" and ?n = "fs_taken (c_fl st)"
  have len: "0 < ?len" by simp
  obtain m e st1 where read: "msg_Read c ?len st = ((take m (drop ?n p), e), st1)"
    and st1: "unpacking st1 before w p rest" "fs_taken (c_fl st1) = ?n + m"
      "reads_only ((c_fl st)\<lparr>fs_dict := None\<rparr>) ((c_fl st1)\<lparr>fs_dict := None\<rparr>)"
      "e = None \<or> e = Some ErrEOF \<and> inflating st1 [] w p rest \<and> fs_taken (c_fl st1) = length p"
    using msg_Read_unpacking [OF "1.prems" len] by blast
  show ?case
  proof (cases e)
    case None
    have split: "take m (drop ?n p) @ drop (?n + m) p = drop ?n p"
      by (metis add.commute append_take_drop_id drop_drop)
    show ?thesis
      using "1.IH" [OF read [symmetric] refl None "1.prems"(1) st1(1)] read None st1(2,3) split
      by (subst read_all.simps) (auto intro: reads_only_trans)
  next
    case (Some x)
    then show ?thesis
      using read st1 by (subst read_all.simps) auto
  qed
qed

definition window :: "wsconn \<Rightarrow> bytes" where
  "window st = (case fs_dict (c_fl st) of None \<Rightarrow> [] | Some d \<Rightarrow> d)"

definition dictionary :: "wsconn \<Rightarrow> bytes" where
  "dictionary st = (if mr_takeover st then window st else [])"

text \<open>The state in which a compressed message begins.\<close>

lemma msg_reset_fields [simp]:
  "c_closed (msg_reset h st) = c_closed st" "c_closeReceivedErr (msg_reset h st) = c_closeReceivedErr st"
  "mr_fin (msg_reset h st) = fin h" "mr_payloadLength (msg_reset h st) = nat (payloadLength h)" "c_in (msg_reset h st) = c_in st"
  "lr_n (msg_reset h st) = lr_limit st" "c_client (msg_reset h st) = c_client st" "mr_maskKey (msg_reset h st) = maskKey h"
  by (simp_all add: msg_reset_def setFrame_def resetFlate_def Let_def)

lemma msg_reset_flate:
  assumes "rsv1 h"
  shows "c_fl (msg_reset h st) =
    (c_fl st)\<lparr>fs_on := True, fs_dict := (if mr_takeover st then Some (window st) else fs_dict (c_fl st)),
      fs_dictionary := dictionary st, fs_consumed := [], fs_taken := 0, fs_err := None, fs_tail := deflateMessageTail\<rparr>"
proof -
  have "mr_takeover (st\<lparr>lr_n := n, c_fl := (c_fl st)\<lparr>fs_on := x\<rparr>\<rparr>) = mr_takeover st" for n x
    by (simp add: mr_takeover_iff)
  then show ?thesis
    using assms by (simp add: msg_reset_def setFrame_def resetFlate_def window_def dictionary_def Let_def)
qed

lemma conn_reader_compressed:
  assumes "live c" "can_read st" "c_client st = (\<not> client)" "op = opText \<or> op = opBinary" "conn_flate st"
    and "length q < 2 ^ 63" "\<not> client \<Longrightarrow> key = 0" "c_in st = wire client True key op q @ rest"
    and "fs_buf (c_fl st) = []" "fs_buferr (c_fl st) = None"
  shows "\<exists>st1. conn_reader c st = (Inr op, st1) \<and> source st1 (q @ deflateMessageTail) rest \<and> lr_n st1 = lr_limit st \<and>
    c_client st1 = c_client st \<and> c_fl st1 = (c_fl st)\<lparr>fs_on := True,
      fs_dict := (if mr_takeover st then Some (window st) else fs_dict (c_fl st)), fs_dictionary := dictionary st,
      fs_consumed := [], fs_taken := 0, fs_err := None, fs_tail := deflateMessageTail\<rparr>"
proof -
  let ?q = "if client then fst (maskGo q key) else q"
  let ?h = "frame_for client True key op q" and ?st0 = "(elapse st)\<lparr>c_in := ?q @ rest\<rparr>"
  have rd: "conn_reader c st = (Inr op, msg_reset ?h ?st0)"
    by (rule conn_reader_wire [OF assms(1-4) _ assms(6-8)]) (rule assms(5))
  have same: "mr_takeover ?st0 = mr_takeover st" "window ?st0 = window st" "dictionary ?st0 = dictionary st"
    by (auto simp: mr_takeover_iff window_def dictionary_def)
  have fl: "c_fl (msg_reset ?h ?st0) = (c_fl st)\<lparr>fs_on := True,
      fs_dict := (if mr_takeover st then Some (window st) else fs_dict (c_fl st)), fs_dictionary := dictionary st,
      fs_consumed := [], fs_taken := 0, fs_err := None, fs_tail := deflateMessageTail\<rparr>"
    using msg_reset_flate [of ?h ?st0] same by (simp add: frame_for_def)
  have "unmasked (msg_reset ?h ?st0) ?q = q"
    using assms(3) mask_bytes_involution [of q key]
    by (auto simp: unmasked_def frame_for_def maskGo_mask_bytes)
  moreover have "mr_payloadLength (msg_reset ?h ?st0) = length ?q"
    by (simp add: frame_for_def maskGo_mask_bytes)
  ultimately have "source (msg_reset ?h ?st0) (q @ deflateMessageTail) rest"
    using assms(2,9,10) unfolding source_def
    by (intro conjI exI [of _ ?q]) (simp_all add: fl can_read_def, simp_all add: frame_for_def)
  then show ?thesis
    using rd fl by (intro exI [of _ "msg_reset ?h ?st0"]) simp
qed

lemma inflating_done:
  assumes "inflating st [] w p rest"
  shows "c_in st = rest" "can_read st" "fs_buf (c_fl st) = []" "fs_buferr (c_fl st) = None"
proof -
  obtain r where "c_in st = r @ rest" "unmasked st r = []" "fs_buf (c_fl st) = []" "fs_buferr (c_fl st) = None" "can_read st"
    using assms by (auto simp: inflating_def source_def can_read_def)
  moreover from this have "r = []" by (metis length_unmasked length_0_conv)
  ultimately show "c_in st = rest" "can_read st" "fs_buf (c_fl st) = []" "fs_buferr (c_fl st) = None" by simp_all
qed

lemma conn_Read_compressed:
  assumes "live c" "can_read st" "c_client st = (\<not> client)" "op = opText \<or> op = opBinary" "conn_flate st"
    and "length q < 2 ^ 63" "\<not> client \<Longrightarrow> key = 0" "int (length p) < lr_limit st"
    and "c_in st = wire client True key op q @ rest"
    and empty: "fs_buf (c_fl st) = []" "fs_buferr (c_fl st) = None"
    and dict: "mr_takeover st \<Longrightarrow> window st = last_n windowSize before"
    and flate: "inflates (fs_lib (c_fl st)) (if mr_takeover st then last_n windowSize before else []) (q @ deflateMessageTail) p"
  shows "\<exists>st'. conn_Read c st = (Inr (op, p), st') \<and> c_in st' = rest \<and> can_read st' \<and> c_client st' = c_client st \<and>
    fs_buf (c_fl st') = [] \<and> fs_buferr (c_fl st') = None \<and> same_codec (c_fl st) (c_fl st') \<and>
    fs_history (c_fl st') = fs_history (c_fl st) \<and> (mr_takeover st \<longrightarrow> window st' = last_n windowSize (before @ p))"
proof -
  obtain st1 where rd: "conn_reader c st = (Inr op, st1)" and src: "source st1 (q @ deflateMessageTail) rest"
    and fields: "lr_n st1 = lr_limit st" "c_client st1 = c_client st"
    and fl: "c_fl st1 = (c_fl st)\<lparr>fs_on := True, fs_dict := (if mr_takeover st then Some (window st) else fs_dict (c_fl st)),
      fs_dictionary := dictionary st, fs_consumed := [], fs_taken := 0, fs_err := None, fs_tail := deflateMessageTail\<rparr>"
    using conn_reader_compressed [OF assms(1-7,9) empty] by blast
  have "dictionary st = (if mr_takeover st then last_n windowSize before else [])"
    using dict by (simp add: dictionary_def)
  then have "inflating st1 (q @ deflateMessageTail) (q @ deflateMessageTail) p rest"
    using src flate by (simp add: inflating_def fl)
  moreover have "mr_takeover st1 = mr_takeover st" by (simp add: mr_takeover_iff fl fields)
  ultimately have "unpacking st1 before (q @ deflateMessageTail) p rest"
    using assms(8) dict by (auto simp: unpacking_def fl fields)
  from read_all_unpacking [OF assms(1) this, of "[]"] obtain st' where all: "read_all c [] st1 = (Inr p, st')"
    and st': "inflating st' [] (q @ deflateMessageTail) p rest" "unpacking st' before (q @ deflateMessageTail) p rest"
      "fs_taken (c_fl st') = length p" "reads_only ((c_fl st1)\<lparr>fs_dict := None\<rparr>) ((c_fl st')\<lparr>fs_dict := None\<rparr>)"
    by (auto simp: fl)
  have run: "conn_Read c st = (Inr (op, p), st')"
    using rd all by (simp add: conn_Read_def io_bind_def io_return_def)
  have kept: "same_codec (c_fl st) (c_fl st')" "fs_history (c_fl st') = fs_history (c_fl st)"
    using st'(4) by (auto simp: reads_only_def same_codec_def fl)
  have "c_client st' = c_client st" using conn_Read_moves(1) [OF run] by (simp add: moves_flate)
  moreover from this have "mr_takeover st' = mr_takeover st" using kept by (simp add: mr_takeover_iff same_codec_def)
  ultimately show ?thesis
    using run inflating_done [OF st'(1)] kept st'(2,3) by (auto simp: unpacking_def window_def)
qed

section \<open>From one end to the other\<close>

text \<open>
  Two ends of a connection whose compression states fit for messages from \<open>a\<close> to \<open>b\<close>: they have agreed on the same
  options, and if the writer keeps its window, the reader's holds the end of what the writer has compressed.
\<close>

definition in_sync :: "wsconn \<Rightarrow> wsconn \<Rightarrow> bool" where
  "in_sync a b =
     (c_client b = (\<not> c_client a) \<and> fs_copts (c_fl b) = fs_copts (c_fl a) \<and> fs_lib (c_fl b) = fs_lib (c_fl a) \<and>
      fs_buf (c_fl b) = [] \<and> fs_buferr (c_fl b) = None \<and>
      (if keeps_history a then window b = last_n windowSize (concat (history a)) else fs_history (c_fl a) = None))"

lemma keeps_history_iff:
  "keeps_history st = (\<exists>copts. fs_copts (c_fl st) = Some copts \<and> flateContextTakeover (c_client st) copts)"
  by (simp add: keeps_history_def split: option.split)

lemma takeover_opposite: "c_client b = (\<not> c_client a) \<Longrightarrow> fs_copts (c_fl b) = fs_copts (c_fl a) \<Longrightarrow> mr_takeover b = keeps_history a"
  by (auto simp: mr_takeover_iff keeps_history_iff mr_flateContextTakeover_def flateContextTakeover_def split: option.split)

lemma conn_transfer:
  assumes sync: "in_sync a b" "flate_ok (fs_lib (c_fl a))"
    and t: "t = opText \<or> t = opBinary"
    and a: "live c" "can_write a" and b: "live c'" "can_read b" "int (length p) < lr_limit b"
    and run: "conn_Write c t p a = (r, a')" and size: "length p < 2 ^ 63" "length (c_sent a') < 2 ^ 63"
    and inp: "c_in b = drop (length (written a)) (c_sent a') @ rest"
  shows "r = Inr () \<and> can_write a' \<and> (\<exists>b'. conn_Read c' b = (Inr (t, p), b') \<and> c_in b' = rest \<and> can_read b' \<and> in_sync a' b')"
proof -
  let ?key = "fst (next_key a)" and ?z = "compresses a p"
  have r: "r = Inr ()" and sent: "c_sent a' = written a @ wire (c_client a) ?z ?key t (packed a p)"
    and a': "c_fl a' = after_write a p" "c_client a' = c_client a" "can_write a'"
    using conn_Write_written [OF a t, of p] run by auto
  have inp: "c_in b = wire (c_client a) ?z ?key t (packed a p) @ rest"
    using inp sent by simp
  have key: "\<not> c_client a \<Longrightarrow> ?key = 0" by (simp add: next_key_def)
  have opposite: "c_client b = (\<not> c_client a)" "fs_copts (c_fl b) = fs_copts (c_fl a)" "fs_lib (c_fl b) = fs_lib (c_fl a)"
    and empty: "fs_buf (c_fl b) = []" "fs_buferr (c_fl b) = None"
    using sync(1) by (simp_all add: in_sync_def)
  note takeover = takeover_opposite [OF opposite(1,2)]
  show ?thesis
  proof (cases ?z)
    case False
    then have p: "packed a p = p" "c_fl a' = c_fl a" by (simp_all add: packed_def after_write_def a')
    obtain b' where read: "conn_Read c' b = (Inr (t, p), b')" "c_in b' = rest" "can_read b'" "c_client b' = c_client b"
        "c_fl b' = (c_fl b)\<lparr>fs_on := False\<rparr>"
      using conn_Read_wire [OF b(1,2) opposite(1) t size(1) key b(3), of rest] inp False p(1) by auto
    have "history a' = history a" "keeps_history a' = keeps_history a" "window b' = window b"
      using read(5) a'(2) p(2) by (simp_all add: keeps_history_iff history_def window_def)
    then have "in_sync a' b'"
      using sync(1) read(4,5) a'(2) p(2) by (simp add: in_sync_def)
    with r a'(3) read show ?thesis by blast
  next
    case True
    let ?before = "concat (history a)"
    have "last_n 4 (concat (fl_flush (fs_lib (c_fl a)) (history a) p)) = deflateMessageTail"
      and whole: "inflates (fs_lib (c_fl a)) (last_n windowSize ?before) (concat (fl_flush (fs_lib (c_fl a)) (history a) p)) p"
      using sync(2) by (simp_all add: flate_ok_def)
    then have "packed a p @ deflateMessageTail = concat (fl_flush (fs_lib (c_fl a)) (history a) p)"
      using True by (metis but_last_n packed_def)
    moreover have "history a = []" if "\<not> keeps_history a"
      using sync(1) that by (simp add: in_sync_def history_def)
    ultimately have flate: "inflates (fs_lib (c_fl b)) (if mr_takeover b then last_n windowSize ?before else []) (packed a p @ deflateMessageTail) p"
      using whole opposite(3) takeover by (auto simp: last_n_def)
    have "length (packed a p) < 2 ^ 63"
      using size(2) by (simp add: sent wire_def maskGo_mask_bytes split: if_splits)
    moreover have "conn_flate b" using True opposite(2) by (simp add: compresses_def conn_flate_def)
    moreover have "mr_takeover b \<Longrightarrow> window b = last_n windowSize ?before"
      using sync(1) takeover by (simp add: in_sync_def)
    ultimately obtain b' where read: "conn_Read c' b = (Inr (t, p), b')" "c_in b' = rest" "can_read b'" "c_client b' = c_client b"
        "fs_buf (c_fl b') = []" "fs_buferr (c_fl b') = None" "same_codec (c_fl b) (c_fl b')"
        "fs_history (c_fl b') = fs_history (c_fl b)" "mr_takeover b \<longrightarrow> window b' = last_n windowSize (?before @ p)"
      using conn_Read_compressed [OF b(1,2) opposite(1) t _ _ key b(3) _ empty _ flate, of rest] inp True by auto
    have "in_sync a' b'"
      using read(4-9) a' opposite takeover True
      by (auto simp: in_sync_def same_codec_def after_write_def keeps_history_iff history_def split: option.splits)
    with r a'(3) read show ?thesis by blast
  qed
qed

text \<open>
  C6. A message crosses the connection unchanged, compressed or not. If a client or server \<open>Connection\<close> that can write
  sends a text or binary message within its limit, \<open>Write\<close> returns nil, and what it has put on the
  wire makes \<open>Read\<close> at the other end, whatever arrives after it, return exactly that type and that
  payload, and consume exactly those bytes; for both directions, hence masked or not, for every
  payload length, every buffer size at both ends and every delay of the network, with or without negotiated compression,
  context takeover and a threshold, over a flate library that keeps what it documents (\<open>flate_ok\<close>). The compression
  states of the two ends still fit afterwards, so the next message crosses, too.
\<close>

theorem message_transfer:
  assumes "native ca = Some a" "can_write a" "t = MessageText \<or> t = MessageBinary"
    and "int (length p) \<le> maxMessage ca" "maxMessage ca \<le> maxMessageBytes"
    and "native cb = Some b" "can_read b" "int (length p) \<le> ws_limit b"
    and "in_sync a b" "flate_ok (fs_lib (c_fl a))"
    and "Write ws_ops (Some background) t p (Some ca) = (e, Some ca')" "native ca' = Some a'" "length (c_sent a') < 2 ^ 63"
    and "c_in b = drop (length (written a)) (c_sent a') @ rest"
  shows "e = None \<and> (\<exists>cb' b'. Read ws_ops (Some background) (Some cb) = (Inr (t, p), Some cb') \<and>
    native cb' = Some b' \<and> c_in b' = rest \<and> can_read b' \<and> in_sync a' b')"
proof -
  have t: "t = opText \<or> t = opBinary"
    using assms(3) by (auto simp: opcode_defs MessageText_def MessageBinary_def)
  obtain r a1 where w: "conn_Write (tctx_of (c_now a) background) t p a = (r, a1)" by fastforce
  have e: "e = None \<longleftrightarrow> r = Inr ()" "a' = a1"
    using assms(1,3,4,11,12) w by (auto simp: Write_def valid_conn_def ws_ops_def split: sum.splits)
  have "length p < 2 ^ 63" "int (length p) < lr_limit b"
    using assms(4,5,8) by (auto simp: maxMessageBytes_def ws_limit_def)
  from conn_transfer [OF assms(9,10) t live_background assms(2) live_background [of "c_now b"] assms(7) this(2) w [folded e(2)] this(1)
      assms(13,14)]
  show ?thesis
    using e(1) assms(6) by (auto simp: Read_def valid_conn_def ws_ops_def)
qed

text \<open>A concrete transfer: a compressed message from a client, the second of its connection.\<close>

definition synced :: "bool \<Rightarrow> wsconn" where
  "synced client =
     (fresh_conn client)\<lparr>c_fl := (new_flate (Some \<lparr>co_clientNoContextTakeover = False, co_serverNoContextTakeover = False\<rparr>) 1 stored_lib)
        \<lparr>fs_history := (if client then Some [[1, 2]] else None), fs_dict := (if client then None else Some [1, 2])\<rparr>\<rparr>"

definition example_sender :: "wsconn connection" where
  "example_sender = newConnection ws_ops (synced True) 1024"

definition example_wire :: bytes where
  "example_wire = wire True True 0x11223344 1 (packed (SetReadLimit 1024 (synced True)) example_message)"

definition example_receiver :: "wsconn connection" where
  "example_receiver = newConnection ws_ops ((synced False)\<lparr>c_in := example_wire @ [7]\<rparr>) 1024"

theorem message_transfer_witness:
  "\<exists>cb' b'. Read ws_ops (Some background) (Some example_receiver) = (Inr (1, example_message), Some cb') \<and>
     native cb' = Some b' \<and> c_in b' = [7] \<and> can_read b' \<and> window b' = [1, 2] @ example_message"
proof -
  let ?a = "SetReadLimit 1024 (synced True)"
  let ?b = "SetReadLimit 1024 ((synced False)\<lparr>c_in := example_wire @ [7]\<rparr>)"
  have nat: "native example_sender = Some ?a" "native example_receiver = Some ?b"
    by (simp_all add: example_sender_def example_receiver_def newConnection_def ws_ops_def)
  have can: "can_write ?a" "can_read ?b" "written ?a = []" "fst (next_key ?a) = 0x11223344" "c_client ?a"
    by (simp_all add: can_write_def can_read_def SetReadLimit_def synced_def fresh_conn_def written_def next_key_def)
  have flate: "compresses ?a example_message" "keeps_history ?a" "history ?a = [[1, 2]]" "fs_lib (c_fl ?a) = stored_lib"
    by (simp_all add: compresses_def conn_flate_def keeps_history_def history_def flateContextTakeover_def SetReadLimit_def synced_def
        new_flate_def example_message_def)
  have sync: "in_sync ?a ?b" "flate_ok (fs_lib (c_fl ?a))"
    using stored_lib_ok flate
    by (simp_all add: in_sync_def window_def last_n_def windowSize_def) (simp_all add: SetReadLimit_def synced_def fresh_conn_def new_flate_def)
  obtain a' where w: "conn_Write (tctx_of (c_now ?a) background) 1 example_message ?a = (Inr (), a')"
      "c_sent a' = example_wire" "c_fl a' = after_write ?a example_message" "c_client a'"
    using conn_Write_written [OF live_background can(1), of 1 "c_now ?a" example_message] can(3-5) flate(1)
    by (auto simp: opcode_defs example_wire_def)
  have "length (packed ?a example_message) \<le> 31"
    using flate by (simp add: packed_def stored_lib_def stored_byte_def deflateMessageTail_def but_last_def example_message_def)
  then have "length example_wire \<le> 64"
    by (auto simp: example_wire_def wire_def writeFrameHeader_def frame_for_def maskGo_mask_bytes)
  then have size: "length example_wire < 2 ^ 63" by simp
  have wrote: "Write ws_ops (Some background) 1 example_message (Some example_sender) =
      (None, Some (example_sender\<lparr>native := Some a'\<rparr>))"
    using w(1) nat(1)
    by (simp add: Write_def valid_conn_def ws_ops_def MessageText_def example_message_def example_sender_def newConnection_def)
  have "\<exists>cb' b'. Read ws_ops (Some background) (Some example_receiver) = (Inr (1, example_message), Some cb') \<and>
      native cb' = Some b' \<and> c_in b' = [7] \<and> can_read b' \<and> in_sync a' b'"
    using message_transfer [OF nat(1) can(1) _ _ _ nat(2) can(2) _ sync wrote, of a' "[7]"] w(2) can(3) size
    by (simp add: MessageText_def example_sender_def newConnection_def example_message_def maxMessageBytes_def
        SetReadLimit_def synced_def fresh_conn_def ws_limit_def)
  moreover have "keeps_history a'" "history a' = [[1, 2], example_message]"
    using w(3,4) flate can(5) by (simp_all add: keeps_history_iff after_write_def history_def)
  ultimately show ?thesis
    by (fastforce simp: in_sync_def last_n_def windowSize_def example_message_def)
qed

end
