(* ===== verification/Native_Sessions.thy ===== *)
theory Native_Sessions
  imports Message_Transfer Server_Laws
begin

text \<open>
  The starter's connection and server on top of the native library: what the composition guarantees,
  and where it does less than its documentation says.
\<close>

section \<open>Connections in use\<close>

text \<open>Any sequence of the operations that applications have, under contexts with \<open>P\<close>.\<close>

inductive used_in :: "(ctx \<Rightarrow> bool) \<Rightarrow> 'n native_ops \<Rightarrow> 'n connection \<Rightarrow> 'n connection \<Rightarrow> bool" for P ops where
  used_new: "used_in P ops conn conn"
| used_Read: "used_in P ops conn conn1 \<Longrightarrow> pred_option P ctx \<Longrightarrow>
    Read ops ctx (Some conn1) = (r, Some conn2) \<Longrightarrow> used_in P ops conn conn2"
| used_Write: "used_in P ops conn conn1 \<Longrightarrow> pred_option P ctx \<Longrightarrow>
    Write ops ctx t p (Some conn1) = (e, Some conn2) \<Longrightarrow> used_in P ops conn conn2"
| used_Ping: "used_in P ops conn conn1 \<Longrightarrow> pred_option P ctx \<Longrightarrow>
    Ping ops ctx (Some conn1) = (e, Some conn2) \<Longrightarrow> used_in P ops conn conn2"
| used_Close: "used_in P ops conn conn1 \<Longrightarrow> pred_option P ctx \<Longrightarrow>
    Close ops race ctx st reason (Some conn1) = (e, Some conn2) \<Longrightarrow> used_in P ops conn conn2"

text \<open>Under any contexts.\<close>

abbreviation used :: "'n native_ops \<Rightarrow> 'n connection \<Rightarrow> 'n connection \<Rightarrow> bool" where
  "used \<equiv> used_in (\<lambda>c. True)"

lemma Close_rejected: "close_rejects ctx h st reason = Some err \<Longrightarrow> Close ops race ctx st reason h = (Some err, h)"
  by (simp add: Close_def)

context native_connection
begin

lemma used_inv:
  "used_in P ops conn conn' \<Longrightarrow> conn_inv closing limit conn \<Longrightarrow>
   conn_inv closing limit conn' \<and> maxMessage conn' = maxMessage conn"
proof (induction rule: used_in.induct)
  case (used_Read conn conn1 ctx r conn2)
  then show ?case
    using Read_inv [of conn1 ctx r "Some conn2"]
    by (auto simp: Read_def valid_conn_def split: option.splits sum.splits prod.splits)
next
  case (used_Write conn conn1 ctx t p e conn2)
  then show ?case
    using Write_inv [of conn1 ctx t p e "Some conn2"]
    by (auto simp: Write_def valid_conn_def split: option.splits prod.splits if_splits)
next
  case (used_Ping conn conn1 ctx e conn2)
  then show ?case
    using Ping_inv [of conn1 ctx e "Some conn2"]
    by (auto simp: Ping_def valid_conn_def split: option.splits prod.splits)
next
  case (used_Close conn conn1 ctx race st reason e conn2)
  show ?case
  proof (cases "close_rejects ctx (Some conn1) st reason")
    case None
    then obtain c where c: "ctx = Some c" by (cases ctx) (auto simp: close_rejects_def)
    have "conn_inv closing limit conn2"
      using Close_inv [of conn1 c st reason race e "Some conn2"] used_Close None c by auto
    then show ?thesis
      using used_Close Close_maxMessage [OF used_Close.hyps(3)] by simp
  next
    case (Some err)
    then show ?thesis using used_Close Close_rejected [OF Some, of ops race] by auto
  qed
qed simp

end

context native_property
begin

lemma used_on_native: "used_in allowed ops conn conn' \<Longrightarrow> on_native holds conn \<Longrightarrow> on_native holds conn'"
  by (induction rule: used_in.induct) (blast dest: Read_on_native Write_on_native Ping_on_native Close_on_native)+

end

text \<open>
  C23. The configured message bound holds on the native library, up to one byte: whatever an application does with
  a connection (reads, writes, pings, closes, in any order, with any contexts, whatever the
  peer sends and however the network behaves), a message that \<open>Read\<close> returns is a text or a binary message
  of at most the configured number of bytes, or, where compression has been negotiated, at most one byte more.
\<close>

theorem connection_message_bound:
  assumes "0 \<le> limit" and "used ws_ops (newConnection ws_ops n limit) conn"
    and "Read ws_ops ctx (Some conn) = (Inr (t, p), h)"
  shows "int (length p) \<le> limit + (if conn_flate n then 1 else 0) \<and> (t = MessageText \<or> t = MessageBinary)"
proof -
  have "conn_inv c_closing ws_limit conn" "maxMessage conn = limit"
    using ws.used_inv [OF assms(2) ws.conn_inv_new [OF assms(1)]] by (auto simp: newConnection_def)
  moreover have "on_native (\<lambda>m. ws_excess m = ws_excess n) conn"
    using ws_same_excess.used_on_native [OF assms(2)] ws_same_excess.new_holds by blast
  ultimately show ?thesis
    using ws_bounded.Read_bounded [of conn _ ctx t p h] ws.Read_type [of conn ctx t p h] assms(3) by (simp add: ws_excess_def)
qed

text \<open>A connection without compression to which a message is on its way.\<close>

definition plain_receiver :: "wsconn connection" where
  "plain_receiver =
     newConnection ws_ops ((fresh_conn False)\<lparr>c_in := wire True False 0x11223344 1 example_message @ [7]\<rparr>) 1024"

theorem connection_message_bound_witness:
  "\<exists>h. Read ws_ops (Some background) (Some plain_receiver) = (Inr (1, example_message), h) \<and>
     int (length example_message) \<le> 1024"
proof -
  let ?b = "SetReadLimit 1024 ((fresh_conn False)\<lparr>c_in := wire True False 0x11223344 1 example_message @ [7]\<rparr>)"
  have "\<exists>b'. conn_Read (tctx_of (c_now ?b) background) ?b = (Inr (1, example_message), b') \<and> c_in b' = [7] \<and> can_read b' \<and>
      c_client b' = c_client ?b \<and> c_fl b' = (c_fl ?b)\<lparr>fs_on := False\<rparr>"
    by (rule conn_Read_wire [OF live_background, where client = True and key = "0x11223344"])
      (simp_all add: can_read_def SetReadLimit_def fresh_conn_def opcode_defs example_message_def)
  then obtain h where read: "Read ws_ops (Some background) (Some plain_receiver) = (Inr (1, example_message), h)"
    by (auto simp: Read_def valid_conn_def plain_receiver_def newConnection_def ws_ops_def)
  have "int (length example_message) \<le> 1024"
    using connection_message_bound [OF _ used_new read [unfolded plain_receiver_def]]
    by (simp add: conn_flate_def fresh_conn_def new_flate_def)
  with read show ?thesis by blast
qed

section \<open>Close frames\<close>

lemma close_accepted_wire:
  assumes "close_rejects (Some c) h status reason = None"
  shows "validWireCloseCode status" "length reason \<le> 123"
  using assms
  by (auto simp: close_rejects_def validStatus_def validWireCloseCode_def status_defs native_status_defs split: if_splits)

text \<open>
  The starter never asks the native library for a close frame that it cannot send: the status and
  reason that pass the guards of \<open>Close\<close> marshal, into a payload that fits a control frame and
  that the peer parses back to exactly that status and reason.
\<close>

theorem close_frame_always_legal:
  assumes "close_rejects (Some c) h status reason = None"
  shows "\<exists>p. bytesErr status reason = Inr p \<and> int (length p) \<le> maxControlPayload \<and>
    parseClosePayload p = Inr (status, reason)"
proof -
  have ok: "validWireCloseCode status" "length reason \<le> 123"
    by (rule close_accepted_wire [OF assms])+
  then show ?thesis
    using parse_marshalled [OF ok(1), of reason] by (auto simp: bytesErr_Inr maxControlPayload_def)
qed

theorem close_frame_always_legal_witness:
  "\<exists>p. bytesErr 1008 ''policy'' = Inr p \<and> int (length p) \<le> maxControlPayload \<and>
     parseClosePayload p = Inr (1008, ''policy'')"
  by (rule close_frame_always_legal [of background "Some plain_receiver"])
    (simp add: close_rejects_def valid_conn_def plain_receiver_def newConnection_def validStatus_def status_defs contains_any_iff)

section \<open>Truncated messages\<close>

lemma msg_Read_eof:
  assumes "mu_lock c st = (Inr (), st)" "limit_read c len st = ((b, Some (wrap f ErrEOF)), st')"
  shows "msg_Read c len st = ((b, Some ErrEOF), keep_window b st')"
proof -
  have "errors_is (wrap f ErrEOF) ErrEOF" by (rule errors_is_wrap [OF errors_is_refl])
  then show ?thesis using assms by (simp add: msg_Read_def Let_def)
qed

text \<open>
  C25. \<open>Read\<close> may return an incomplete message without an error. If the stream of a client ends right
  after the header of a frame that announces a payload, the error of the payload read wraps \<open>io.EOF\<close>,
  which the message reader takes for the end of the message: \<open>Read\<close> returns success with an empty
  payload. \<open>connection.go\<close> documents one complete message.
\<close>

theorem Read_accepts_truncated_message:
  assumes "native conn = Some b" "can_read b" "\<not> c_client b" "0 \<le> ws_limit b"
    and "t = MessageText \<or> t = MessageBinary" "p \<noteq> []" "length p < 2 ^ 63"
    and "c_in b = writeFrameHeader (frame_for True False key t p)"
  shows "fst (Read ws_ops (Some background) (Some conn)) = Inr (t, [])"
proof -
  let ?c = "tctx_of (c_now b) background"
  have t: "t = opText \<or> t = opBinary"
    using assms(5) by (auto simp: opcode_defs MessageText_def MessageBinary_def)
  let ?h = "frame_for True False key t p"
  have "header_ok ?h" using t assms(7) by (auto simp: header_ok_def frame_for_def opcode_defs)
  then have loop: "readLoop ?c b = (Inr ?h, (elapse b)\<lparr>c_in := []\<rparr>)"
    using readLoop_frame [OF live_background assms(2) _ t, of True False key p "[]"] assms(3,8) by simp
  let ?b1 = "msg_reset ?h ((elapse b)\<lparr>c_in := []\<rparr>)"
  have rd: "conn_reader ?c b = (Inr t, ?b1)"
    using loop assms(2) t mu_lock_live [OF live_background, of b "c_now b"]
    by (auto simp: conn_reader_def io_wrap_def io_bind_def can_read_def frame_for_def opcode_defs)
  have open1: "\<not> c_closed ?b1" "c_closeReceivedErr ?b1 = None" "c_in ?b1 = []" "0 < lr_n ?b1" "0 < mr_payloadLength ?b1"
      "\<not> fs_on (c_fl ?b1)"
    using assms(2,4,6) by (simp_all add: can_read_def msg_reset_def setFrame_def frame_for_def ws_limit_def Let_def)
  have pay: "\<exists>st. readFramePayload ?c n ?b1 = (([], Some (wrap ''failed to read frame payload: %w'' ErrEOF)), st)" if "0 < n" for n
    using that open1
    by (simp add: readFramePayload_def prepareRead_def bounded_io_live [OF live_background] ReadFull_def)
  have "\<exists>st. mr_read ?c len ?b1 = (([], Some (wrap ''failed to read frame payload: %w'' ErrEOF)), st)" if "0 < len" for len
    using pay [of "min len (mr_payloadLength ?b1)"] that open1(5) by (subst mr_read.simps) auto
  then have read: "\<exists>st. raw_read ?c len ?b1 = (([], Some (wrap ''failed to read frame payload: %w'' ErrEOF)), st)" if "0 < len" for len
    using that open1(6) by (simp add: raw_read_def)
  have "\<exists>st. limit_read ?c len ?b1 = (([], Some (wrap ''failed to read frame payload: %w'' ErrEOF)), st)" if "0 < len" for len
    using read [of "if int len > lr_n ?b1 then nat (lr_n ?b1) else len"] that open1(4) by (auto simp: limit_read_def)
  then have "\<exists>st. msg_Read ?c len ?b1 = (([], Some ErrEOF), st)" if "0 < len" for len
    using that msg_Read_eof [OF mu_lock_live [OF live_background open1(1), of "c_now b"]] by metis
  then have "\<exists>st. msg_Read ?c (max 1 (c_chunk ?b1 (length ([] :: bytes)))) ?b1 = (([], Some ErrEOF), st)"
    by (simp add: less_max_iff_disj)
  then obtain st1 where "msg_Read ?c (max 1 (c_chunk ?b1 (length ([] :: bytes)))) ?b1 = (([], Some ErrEOF), st1)" ..
  then have "read_all ?c [] ?b1 = (Inr [], st1)"
    by (subst read_all.simps) simp
  then obtain st where "conn_Read ?c b = (Inr (t, []), st)"
    using rd by (auto simp: conn_Read_def io_bind_def io_return_def)
  then show ?thesis
    using assms(1) by (simp add: Read_def valid_conn_def ws_ops_def)
qed

theorem Read_accepts_truncated_message_witness:
  "fst (Read ws_ops (Some background)
     (Some (newConnection ws_ops ((fresh_conn False)\<lparr>c_in := writeFrameHeader (frame_for True False 5 1 example_message)\<rparr>) 1024))) =
   Inr (1, [])"
  by (rule Read_accepts_truncated_message [where p = example_message and key = 5])
    (auto simp: newConnection_def ws_ops_def SetReadLimit_def fresh_conn_def can_read_def ws_limit_def MessageText_def
      example_message_def)

section \<open>The time a close takes\<close>

lemma write_masked_time:
  "c_delays (write_masked p key st) = c_delays st \<and> c_now (write_masked p key st) = c_now st \<and>
   c_closed (write_masked p key st) = c_closed st \<and> c_closeReceivedErr (write_masked p key st) = c_closeReceivedErr st"
proof (induction p key st rule: write_masked.induct)
  case (1 p key st)
  show ?case
  proof (cases "p = [] \<or> c_bwsize st = 0")
    case False
    let ?st1 = "if bw_available st = 0 then bw_flush st else st"
    let ?j = "min (length p) (bw_available ?st1)"
    obtain piece key' where m: "maskGo (take ?j p) key = (piece, key')" by (cases "maskGo (take ?j p) key")
    note IH = "1.IH" [OF False refl refl m [symmetric] refl]
    have "write_masked p key st = write_masked (drop ?j p) key' (bw_write piece ?st1)"
      using False m by (subst write_masked.simps) (simp add: Let_def)
    with IH show ?thesis by (simp add: bw_write_def bw_flush_def)
  qed (subst write_masked.simps, simp)+
qed

text \<open>The first thing a close does takes one delay: its frame goes out.\<close>

lemma writeClose_sends:
  assumes "can_write st" "c_closeReceivedErr st = None" "validWireCloseCode code" "length reason \<le> 123"
    and "c_delays st = w # ds" "w < 5000"
  shows "\<exists>st'. writeClose code reason st = (Inr (), st') \<and> c_now st' = c_now st + w \<and> c_delays st' = ds \<and>
    \<not> c_closed st' \<and> mr_payloadLength st' = mr_payloadLength st"
proof -
  let ?c = "with_timeout (c_now st) 5000 (with_timeout (c_now st) 5000 tctx_background)"
  obtain p where marshal: "close_bytes code reason = (p, None)"
    using iffD2 [OF bytesErr_Inr conjI [OF assms(4) conjI [OF assms(3) refl]]] by (simp add: close_bytes_def)
  have known: "code \<noteq> StatusNoStatusRcvd"
    using assms(3) by (auto simp: validWireCloseCode_def native_status_defs)
  have open_ctx: "?c (c_now st) = None" "?c (c_now st + w) = None"
    using assms(6) by (simp_all add: with_timeout_def tctx_background_def)
  have el: "elapse st = st\<lparr>c_now := c_now st + w, c_delays := ds\<rparr>"
    using assms(5) by (simp add: elapse_def)
  have el_time: "c_now (elapse st) = c_now st + w" "c_delays (elapse st) = ds"
    by (simp_all add: el)
  obtain key st3 where key: "next_key (elapse st) = (key, st3)" by (cases "next_key (elapse st)")
  have st3: "c_now st3 = c_now st + w" "c_delays st3 = ds" "c_closed st3 = c_closed st"
      "c_closeReceivedErr st3 = None" "mr_payloadLength st3 = mr_payloadLength st"
    using key el_time assms(2) by (auto simp: next_key_def split: if_splits list.splits)
  have mr: "mr_payloadLength (write_masked q k s) = mr_payloadLength s" for q k s
    using write_masked_writes [of s q k] by (simp add: writes_def)
  obtain st' where put: "put_frame ?c True False opClose p st = (Inr (), st')"
    and st': "c_now st' = c_now st + w" "c_delays st' = ds" "c_closed st' = c_closed st"
      "c_closeReceivedErr st' = None" "mr_payloadLength st' = mr_payloadLength st"
  proof -
    have "next_werr (elapse st) = (None, elapse st)"
      using assms(1) el by (simp add: next_werr_def can_write_def)
    then show ?thesis
      using that open_ctx(2) el key st3 write_masked_time mr
      by (cases "c_client st")
        (auto simp: put_frame_def bounded_io_def Let_def bw_write_def bw_flush_def)
  qed
  have "writeFrame ?c True False opClose p st =
      (Inr (), st'\<lparr>c_closeSentErr := Some (wrap ''sent close frame: %w'' NetErrClosed)\<rparr>)"
    using assms(1) open_ctx(1) put st'(4)
    by (simp add: writeFrame_def mu_lock_def write_frame_body_def can_write_def Let_def)
  then show ?thesis
    using marshal known st' assms(1) by (simp add: writeClose_def writeControl_def Let_def can_write_def)
qed

lemma discard_waits:
  assumes "0 < n" "c_delays st = d # ds" "discard n st = (r, st')"
  shows "c_now st + d \<le> c_now st'"
proof -
  have el: "c_now (elapse st) = c_now st + d" using assms(2) by (simp add: elapse_def)
  show ?thesis
    using assms(1,3) el
    by (subst (asm) discard.simps)
      (auto simp: Let_def split: sum.splits prod.splits dest!: discard_evolves [unfolded evolves_def])
qed

lemma conn_Close_waits:
  assumes "can_write st" "c_closeReceivedErr st = None" "\<not> c_closing st" "validWireCloseCode code" "length reason \<le> 123"
    and "c_delays st = w # d # ds" "w < 5000" "0 < mr_payloadLength st"
    and "conn_Close code reason st = (e, st')"
  shows "c_now st + w + d \<le> c_now st'"
proof -
  let ?st0 = "st\<lparr>c_closing := True\<rparr>"
  obtain st1 where st1: "writeClose code reason ?st0 = (Inr (), st1)" "c_now st1 = c_now st + w" "c_delays st1 = d # ds"
      "\<not> c_closed st1" "0 < mr_payloadLength st1"
    using writeClose_sends [of ?st0 code reason w "d # ds"] assms by (auto simp: can_write_def)
  let ?c = "with_timeout (c_now st1) 5000 tctx_background"
  have lock: "mu_lock ?c st1 = (Inr (), st1)"
    using st1(4) by (simp add: mu_lock_def with_timeout_def tctx_background_def)
  obtain r2 st2 where dis: "discard (mr_payloadLength st1) st1 = (r2, st2)" by (cases "discard (mr_payloadLength st1) st1")
  have late: "c_now st + w + d \<le> c_now st2" using discard_waits [OF st1(5,3) dis] st1(2) by simp
  obtain e3 st3 where wait: "waitCloseHandshake st1 = (e3, st3)" by (cases "waitCloseHandshake st1")
  have "c_now st2 \<le> c_now st3"
    using wait lock dis close_wait_evolves [of ?c st2]
    by (cases r2) (auto simp: waitCloseHandshake_def Let_def evolves_def split: prod.splits)
  moreover have "c_now st3 \<le> c_now st'"
    using assms(3,9) st1(1) wait
    by (auto simp: conn_Close_def casClosing_def closeHandshake_def Let_def split: prod.splits
        dest!: conn_close_keeps waitGoroutines_keeps)
  ultimately show ?thesis using late by simp
qed

text \<open>
  C26. No context bounds a close. If the peer is in the middle of a message that the application has not read,
  the handshake reads the rest of it outside every timeout: with a next byte that
  arrives after \<open>d\<close> milliseconds, \<open>Close\<close> returns no earlier than that, whatever its context does in the meantime. When the context
  ends, the forced close finds the connection already closing and waits for the handshake, too.
  The documentation promises a bounded handshake that cancellation force-closes.
\<close>

theorem Close_outlives_its_context:
  assumes "native conn = Some b" "\<not> closeOnce conn" "can_write b" "c_closeReceivedErr b = None" "\<not> c_closing b"
    and "c_delays b = w # d # ds" "w < 5000" "0 < mr_payloadLength b"
    and "close_rejects (Some c) (Some conn) status reason = None" "ctx_Cause c = None" "race \<noteq> ContextFirst True"
  shows "\<exists>e conn' b'. Close ws_ops race (Some c) status reason (Some conn) = (e, Some conn') \<and>
    native conn' = Some b' \<and> c_now b + w + d \<le> c_now b'"
proof -
  have ok: "validWireCloseCode status" "length reason \<le> 123"
    by (rule close_accepted_wire [OF assms(9)])+
  obtain e1 b1 where close: "conn_Close status reason b = (e1, b1)" by (cases "conn_Close status reason b")
  have late: "c_now b + w + d \<le> c_now b1"
    using conn_Close_waits [OF assms(3-5) ok assms(6-8) close] .
  obtain e2 b2 where force: "conn_CloseNow b1 = (e2, b2)" by (cases "conn_CloseNow b1")
  have "c_now b1 \<le> c_now b2" using conn_CloseNow_keeps [OF force] by simp
  then show ?thesis
    using assms(1,2,9-11) close force late
    by (cases race; cases "ctx_Cause (ctx_tick c)")
      (simp_all add: Close_def close_goroutine_def native_CloseNow_def ws_ops_def Let_def)
qed

text \<open>A peer that stalls for a minute in the middle of a message, and a context that ends at once.\<close>

definition stalling_peer :: "wsconn connection" where
  "stalling_peer = newConnection ws_ops ((fresh_conn False)\<lparr>c_in := [0], mr_payloadLength := 1, c_delays := [0, 60000]\<rparr>) 1024"

definition ending_context :: ctx where
  "ending_context = \<lparr>ctx_ended = None, ctx_later = [Some (DeadlineExceeded, DeadlineExceeded)]\<rparr>"

theorem Close_outlives_its_context_witness:
  "\<exists>e conn' b'. Close ws_ops (ContextFirst False) (Some ending_context) 1000 [] (Some stalling_peer) = (e, Some conn') \<and>
     native conn' = Some b' \<and> 60000 \<le> c_now b'"
proof -
  let ?b = "SetReadLimit 1024 ((fresh_conn False)\<lparr>c_in := [0], mr_payloadLength := 1, c_delays := [0, 60000]\<rparr>)"
  have n: "native stalling_peer = Some ?b" "\<not> closeOnce stalling_peer"
    by (simp_all add: stalling_peer_def newConnection_def ws_ops_def)
  have ok: "close_rejects (Some ending_context) (Some stalling_peer) 1000 [] = None"
    by (simp add: close_rejects_def valid_conn_def n validStatus_def status_defs contains_any_iff)
  show ?thesis
    using Close_outlives_its_context [OF n _ _ _ _ _ _ ok, of 0 60000 "[]" "ContextFirst False"]
    by (simp add: can_write_def SetReadLimit_def fresh_conn_def ending_context_def ctx_Cause_def)
qed

section \<open>The reported outcome\<close>

text \<open>
  C27. A session whose close handshake reports any error is reported to the observers as failed, whatever the
  handler returned: \<open>ServeHTTP\<close> then forces the close and takes an error of that for a
  failure, but the native connection is closing already, so forcing it always is an error. A
  peer that drops the connection without a close frame after a successful session makes it failed.
\<close>

theorem failed_close_fails_session:
  assumes "0 \<le> limit" "used ws_ops (newConnection ws_ops n limit) conn"
    and "end_session ws_ops env i fs c handlerErr conn = (h, log)" "Closed st (Some err) \<in> set log"
  shows "log_finished log =
    finishObservers fs \<lparr>re_Interaction = i, re_Outcome = OutcomeFailed, re_Duration = env_duration env\<rparr>"
proof -
  have "conn_inv c_closing ws_limit conn"
    using ws.used_inv [OF assms(2) ws.conn_inv_new [OF assms(1)]] by blast
  from native_connection.end_session_failed [OF ws.native_connection_axioms this assms(3,4)] show ?thesis .
qed

text \<open>The peer drops the connection after the handler has returned nil.\<close>

definition dropped_peer :: "wsconn connection" where
  "dropped_peer = newConnection ws_ops (fresh_conn False) 1024"

definition quiet_env :: "wsconn server_env" where
  "quiet_env =
     \<lparr>env_Accept = (\<lambda>rq opts. Inr (fresh_conn False)), env_handle = (\<lambda>c conn. (Returned None, conn, c)),
      env_closeContext = background, env_race = HandshakeFirst, env_duration = 7\<rparr>"

definition is_closed_event :: "int \<Rightarrow> 'f event \<Rightarrow> bool" where
  "is_closed_event st e = (case e of Closed st' (Some err) \<Rightarrow> st' = st | _ \<Rightarrow> False)"

theorem failed_close_fails_session_witness:
  "log_finished (snd (end_session ws_ops quiet_env \<lparr>in_Direction = DirectionServer, in_Subprotocol = ''chat''\<rparr> [True]
     background None dropped_peer)) =
   [(True, \<lparr>re_Interaction = \<lparr>in_Direction = DirectionServer, in_Subprotocol = ''chat''\<rparr>, re_Outcome = OutcomeFailed,
      re_Duration = 7\<rparr>)]"
proof -
  let ?i = "\<lparr>in_Direction = DirectionServer, in_Subprotocol = ''chat''\<rparr>"
  obtain h log where run: "end_session ws_ops quiet_env ?i [True] background None dropped_peer = (h, log)"
    by (cases "end_session ws_ops quiet_env ?i [True] background None dropped_peer")
  have "is_closed_event 1000 (hd (snd (end_session ws_ops quiet_env ?i [True] background None dropped_peer)))"
    by code_simp
  moreover have "log \<noteq> []" using run by (auto simp: end_session_def Let_def split: prod.splits)
  ultimately obtain err where "Closed 1000 (Some err) \<in> set log"
    using run by (cases log) (auto simp: is_closed_event_def split: event.splits option.splits)
  from failed_close_fails_session [OF _ used_new run [unfolded dropped_peer_def] this]
  show ?thesis using run by (simp add: finishObservers_def quiet_env_def dropped_peer_def)
qed

end
