(* ===== verification/Close_Status.thy ===== *)
theory Close_Status
  imports Native_Sessions
begin

text \<open>
  The close statuses that applications see. The native library keeps errors in its state and wraps
  them on their way out; every close error among them carries a status that a close frame can
  carry, or 1005 for a close frame without one, because the only place that makes one has parsed it
  from the wire. So the statuses of the starter's \<open>PeerCloseError\<close> are of that type too.
\<close>

section \<open>Errors with a legal close status\<close>

definition wire_code :: "int \<Rightarrow> bool" where
  "wire_code code = (validWireCloseCode code \<or> code = StatusNoStatusRcvd)"

definition coded :: "go_error \<Rightarrow> bool" where
  "coded e = (case as_close_error e of None \<Rightarrow> True | Some (code, reason) \<Rightarrow> wire_code code)"

lemma coded_simps [simp]:
  "coded (wrap f e) = coded e"
  "coded (Errorf f as [])" "coded (Errorf f as [e]) = coded e" "coded (errors_new m)"
  "coded (CloseError code reason) = wire_code code"
  "coded NetErrClosed" "coded ErrEOF" "coded ErrUnexpectedEOF" "coded ErrMessageTooBig" "coded Canceled" "coded DeadlineExceeded"
  by (auto simp: coded_def as_close_error_def err_simps wrap_def errors_new_def split: option.split)

definition coded_res :: "'a res \<Rightarrow> bool" where
  "coded_res r = (case r of Inl e \<Rightarrow> coded e | Inr x \<Rightarrow> True)"

lemma coded_res_simps [simp]: "coded_res (Inl e) = coded e" "coded_res (Inr x)"
  by (simp_all add: coded_res_def)

text \<open>A context ends with \<open>context.Canceled\<close> or \<open>context.DeadlineExceeded\<close>.\<close>

definition plain_tctx :: "tctx \<Rightarrow> bool" where
  "plain_tctx c = (\<forall>t. case c t of None \<Rightarrow> True | Some (err, cause) \<Rightarrow> coded err)"

lemma plain_tctxD: "plain_tctx c \<Longrightarrow> c t = Some (err, cause) \<Longrightarrow> coded err"
  by (auto simp: plain_tctx_def split: option.splits prod.splits)

lemma plain_timeout: "plain_tctx c \<Longrightarrow> plain_tctx (with_timeout now d c)"
  by (auto simp: plain_tctx_def with_timeout_def split: option.splits prod.splits)

lemma plain_background [simp]: "plain_tctx tctx_background"
  by (simp add: plain_tctx_def tctx_background_def)

text \<open>
  A network and a flate library whose own errors are no close errors, and a state that has stored none that is illegal.
\<close>

definition coded_option :: "go_error option \<Rightarrow> bool" where
  "coded_option x = (case x of None \<Rightarrow> True | Some e \<Rightarrow> coded e)"

lemma coded_option_simps [simp]: "coded_option None" "coded_option (Some e) = coded e"
  by (simp_all add: coded_option_def)

definition clean_flate :: "flate_state \<Rightarrow> bool" where
  "clean_flate f =
     (coded_option (fs_buferr f) \<and> coded_option (fs_err f) \<and> (\<forall>d q. coded_option (in_err (fl_inflate (fs_lib f) d q))))"

definition clean_net :: "wsconn \<Rightarrow> bool" where
  "clean_net st =
     (coded_option (c_closeReceivedErr st) \<and> coded_option (c_werr st) \<and> list_all coded_option (c_werrs st) \<and>
      clean_flate (c_fl st))"

text \<open>A clean state with a result, or with what a read returns.\<close>

definition outcome_coded :: "'a res \<times> wsconn \<Rightarrow> bool" where
  "outcome_coded x = (clean_net (snd x) \<and> coded_res (fst x))"

lemma outcome_coded_pair [simp]: "outcome_coded (r, st) = (clean_net st \<and> coded_res r)"
  by (simp add: outcome_coded_def)

definition got_coded :: "(bytes \<times> go_error option) \<times> wsconn \<Rightarrow> bool" where
  "got_coded x = (clean_net (snd x) \<and> coded_option (snd (fst x)))"

lemma got_coded_pair [simp]: "got_coded ((b, e), st) = (clean_net st \<and> coded_option e)"
  by (simp add: got_coded_def)

named_theorems coded_intros \<open>operations that keep a clean network and return legal errors\<close>

lemma coded_bind [coded_intros]:
  "outcome_coded (m st) \<Longrightarrow> (\<And>x st'. m st = (Inr x, st') \<Longrightarrow> clean_net st' \<Longrightarrow> outcome_coded (f x st')) \<Longrightarrow>
   outcome_coded (io_bind m f st)"
  by (auto simp: io_bind_def split: sum.split prod.split)

lemma coded_wrap: "outcome_coded (m st) \<Longrightarrow> outcome_coded (io_wrap f m st)"
  by (auto simp: io_wrap_def split: sum.split prod.split)

section \<open>Frames\<close>

lemma clean_elapse [simp]: "clean_net (elapse st) = clean_net st"
  by (simp add: elapse_def clean_net_def split: list.split)

lemma clean_fields [simp]:
  "clean_net (st\<lparr>c_in := i\<rparr>) = clean_net st" "clean_net (st\<lparr>c_closed := b\<rparr>) = clean_net st"
  "clean_net (st\<lparr>c_closing := b\<rparr>) = clean_net st" "clean_net (st\<lparr>c_closeSentErr := e\<rparr>) = clean_net st"
  "clean_net (st\<lparr>c_sent := p\<rparr>) = clean_net st" "clean_net (st\<lparr>c_buffered := q\<rparr>) = clean_net st"
  "clean_net (st\<lparr>c_keys := ks\<rparr>) = clean_net st" "clean_net (st\<lparr>c_pingCounter := n\<rparr>) = clean_net st"
  "clean_net (st\<lparr>c_now := t\<rparr>) = clean_net st" "clean_net (st\<lparr>lr_n := l\<rparr>) = clean_net st"
  "clean_net (st\<lparr>lr_limit := l\<rparr>) = clean_net st" "clean_net (st\<lparr>mr_payloadLength := k\<rparr>) = clean_net st"
  "clean_net (st\<lparr>mr_maskKey := key\<rparr>) = clean_net st" "clean_net (setFrame h st) = clean_net st"
  by (simp_all add: clean_net_def setFrame_def)

lemma clean_conn_close [simp]: "clean_net (snd (conn_close st)) = clean_net st"
  by (simp add: conn_close_def)

lemma clean_casClosing [simp]: "clean_net (snd (casClosing st)) = clean_net st"
  by (simp add: casClosing_def)

lemma mu_lock_coded: "plain_tctx c \<Longrightarrow> clean_net st \<Longrightarrow> outcome_coded (mu_lock c st)"
  by (auto simp: mu_lock_def dest: plain_tctxD split: option.split)

lemma bounded_io_coded: "plain_tctx c \<Longrightarrow> clean_net st \<Longrightarrow> outcome_coded (bounded_io c st)"
  by (auto simp: bounded_io_def Let_def dest: plain_tctxD split: option.split)

lemma prepareRead_coded: "clean_net st \<Longrightarrow> outcome_coded (prepareRead st)"
  by (auto simp: prepareRead_def clean_net_def split: option.splits)

lemma ReadFull_coded: "ReadFull n r = (Inl e, rest) \<Longrightarrow> coded e"
  by (auto simp: ReadFull_def split: if_splits)

lemma readFrameHeader_coded: "readFrameHeader r = (Inl e, rest) \<Longrightarrow> coded e"
  by (cases r; cases "tl r")
    (auto simp: readFrameHeader_def read_header_body_def read_length_def Let_def dest: ReadFull_coded
      split: if_splits sum.splits prod.splits)

lemma conn_readFrameHeader_coded: "plain_tctx c \<Longrightarrow> clean_net st \<Longrightarrow> outcome_coded (conn_readFrameHeader c st)"
  unfolding conn_readFrameHeader_def
  by (intro coded_intros prepareRead_coded bounded_io_coded)
    (auto simp: Let_def coded_res_def dest: readFrameHeader_coded split: prod.split sum.split)

lemma readFramePayload_coded:
  assumes "plain_tctx c" "clean_net st"
  shows "got_coded (readFramePayload c n st)"
proof -
  obtain r1 st1 where pre: "prepareRead st = (r1, st1)" by (cases "prepareRead st")
  have c1: "clean_net st1" "coded_res r1" using prepareRead_coded [OF assms(2)] pre by simp_all
  obtain r2 st2 where io: "bounded_io c st1 = (r2, st2)" by (cases "bounded_io c st1")
  have c2: "clean_net st2" "coded_res r2" using bounded_io_coded [OF assms(1) c1(1)] io by simp_all
  show ?thesis
    using c1 c2 pre io
    by (cases r1; cases r2) (auto simp: readFramePayload_def dest: ReadFull_coded split: prod.split sum.split)
qed

lemma clean_bw [simp]: "clean_net (bw_write p st) = clean_net st" "clean_net (bw_flush st) = clean_net st"
  by (simp_all add: bw_write_def bw_flush_def)

lemma clean_next_key [simp]: "clean_net (snd (next_key st)) = clean_net st"
  by (simp add: next_key_def split: list.split)

lemma write_masked_clean [simp]: "clean_net (write_masked p key st) = clean_net st"
proof (induction p key st rule: write_masked.induct)
  case (1 p key st)
  then show ?case
    by (subst write_masked.simps) (auto simp: Let_def split: prod.split)
qed

lemma next_werr_coded:
  "next_werr st = (e, st') \<Longrightarrow> clean_net st \<Longrightarrow> clean_net st' \<and> coded_option e"
  by (cases "c_werr st") (auto simp: next_werr_def clean_net_def split: list.splits)

lemma put_frame_coded: "plain_tctx c \<Longrightarrow> clean_net st \<Longrightarrow> outcome_coded (put_frame c final flate op p st)"
proof -
  assume plain: "plain_tctx c" and "clean_net st"
  obtain r1 st1 where io: "bounded_io c st = (r1, st1)" by (cases "bounded_io c st")
  have r1: "clean_net st1" "coded_res r1"
    using bounded_io_coded [OF plain \<open>clean_net st\<close>] io by simp_all
  obtain e st2 where werr: "next_werr st1 = (e, st2)" by (cases "next_werr st1")
  note e = next_werr_coded [OF werr r1(1)]
  show ?thesis
    using io r1 werr e
    by (cases r1; cases e) (simp_all add: put_frame_def Let_def case_prod_beta)
qed

lemma write_frame_body_coded:
  "plain_tctx c \<Longrightarrow> clean_net st \<Longrightarrow> outcome_coded (write_frame_body c final flate op p st)"
proof -
  assume plain: "plain_tctx c" and "clean_net st"
  obtain r1 st1 where put: "put_frame c final flate op p st = (r1, st1)" by (cases "put_frame c final flate op p st")
  have "clean_net st1" "coded_res r1"
    using put_frame_coded [OF plain \<open>clean_net st\<close>, of final flate op p] put by simp_all
  then show ?thesis
    using \<open>clean_net st\<close> put
    by (cases r1) (simp_all add: write_frame_body_def Let_def case_prod_beta)
qed

lemma writeFrame_coded: "plain_tctx c \<Longrightarrow> clean_net st \<Longrightarrow> outcome_coded (writeFrame c final flate op p st)"
proof -
  assume plain: "plain_tctx c" and "clean_net st"
  obtain r1 st1 where lock: "mu_lock c st = (r1, st1)" by (cases "mu_lock c st")
  have r1: "clean_net st1" "coded_res r1"
    using mu_lock_coded [OF plain \<open>clean_net st\<close>] lock by simp_all
  obtain r2 st2 where body: "write_frame_body c final flate op p st1 = (r2, st2)"
    by (cases "write_frame_body c final flate op p st1")
  have "clean_net st2" "coded_res r2"
    using write_frame_body_coded [OF plain r1(1), of final flate op p] body by simp_all
  then show ?thesis
    using plain r1 lock body
    by (cases r1; cases r2) (auto simp: writeFrame_def Let_def dest: plain_tctxD split: option.split)
qed

lemma writeControl_coded: "plain_tctx c \<Longrightarrow> clean_net st \<Longrightarrow> outcome_coded (writeControl c op p st)"
  using writeFrame_coded [of "with_timeout (c_now st) 5000 c" st True False op p] plain_timeout [of c]
  by (auto simp: writeControl_def split: prod.split sum.split)

lemma writeClose_coded: "clean_net st \<Longrightarrow> outcome_coded (writeClose code reason st)"
proof -
  assume clean: "clean_net st"
  obtain p err where bytes: "(if code \<noteq> StatusNoStatusRcvd then close_bytes code reason else ([], None)) = (p, err)"
    by fastforce
  have err: "err = Some e \<Longrightarrow> coded e" for e
    using bytes by (auto simp: close_bytes_def bytesErr_def split: if_splits sum.splits)
  let ?c = "with_timeout (c_now st) 5000 tctx_background"
  obtain r1 st1 where ctl: "writeControl ?c opClose p st = (r1, st1)" by (cases "writeControl ?c opClose p st")
  have "clean_net st1" "coded_res r1"
    using writeControl_coded [OF plain_timeout [OF plain_background] clean, of "c_now st" 5000 opClose p] ctl by simp_all
  then show ?thesis
    using clean err bytes ctl
    by (cases err; cases r1) (simp_all add: writeClose_def)
qed

lemma writeError_clean: "clean_net st \<Longrightarrow> clean_net (writeError code err st)"
  using writeClose_coded [of st] by (simp add: writeError_def outcome_coded_def)

lemma fl_history_clean [simp]: "clean_net (st\<lparr>c_fl := (c_fl st)\<lparr>fs_history := h\<rparr>\<rparr>) = clean_net st"
  by (simp add: clean_net_def clean_flate_def)

lemma conn_Write_coded: "plain_tctx c \<Longrightarrow> clean_net st \<Longrightarrow> outcome_coded (conn_Write c ty p st)"
proof -
  assume plain: "plain_tctx c" and clean: "clean_net st"
  have "outcome_coded (writeCompressedFrame c ty p st1)" if "clean_net st1" for st1
    unfolding writeCompressedFrame_def
    by (intro coded_intros coded_wrap mu_lock_coded plain that) (simp add: Let_def case_prod_beta writeFrame_coded plain)
  then show ?thesis
    unfolding conn_Write_def conn_write_def
    by (intro coded_wrap coded_intros mu_lock_coded plain clean) (simp add: writeFrame_coded plain)
qed

section \<open>Reading\<close>

lemma parseClosePayload_coded:
  "parseClosePayload p = Inl e \<Longrightarrow> coded e"
  "parseClosePayload p = Inr (code, reason) \<Longrightarrow> wire_code code"
  by (auto simp: parseClosePayload_def wire_code_def Let_def split: if_splits)

lemma handle_close_coded: "clean_net st \<Longrightarrow> outcome_coded (handle_close b st)"
proof (cases "parseClosePayload b")
  case (Inl e)
  then show "clean_net st \<Longrightarrow> ?thesis"
    by (simp add: handle_close_def Let_def writeError_clean parseClosePayload_coded)
next
  case (Inr cr)
  assume clean: "clean_net st"
  obtain code reason where cr: "parseClosePayload b = Inr (code, reason)" using Inr by (cases cr) simp
  let ?e = "wrap ''received close frame: %w'' (CloseError code reason)"
  have "coded ?e" using parseClosePayload_coded(2) [OF cr] by simp
  moreover from this have "clean_net (st\<lparr>c_closeReceivedErr := Some ?e\<rparr>)" using clean by (simp add: clean_net_def)
  moreover from this have "clean_net (snd (writeClose code reason (st\<lparr>c_closeReceivedErr := Some ?e\<rparr>)))"
    using writeClose_coded by (simp add: outcome_coded_def)
  ultimately show ?thesis
    by (simp add: handle_close_def cr Let_def case_prod_beta)
qed

lemma handleControl_coded: "plain_tctx c \<Longrightarrow> clean_net st \<Longrightarrow> outcome_coded (handleControl c h st)"
proof -
  assume plain: "plain_tctx c" and clean: "clean_net st"
  let ?c5 = "with_timeout (c_now st) 5000 c"
  obtain b0 e st1 where pay: "readFramePayload ?c5 (nat (payloadLength h)) st = ((b0, e), st1)"
    by (metis surj_pair)
  have r1: "clean_net st1" "coded_option e"
    using readFramePayload_coded [OF plain_timeout [OF plain] clean, of "c_now st" 5000 "nat (payloadLength h)"] pay by auto
  have pong: "outcome_coded (writeControl ?c5 opPong b st1)" for b
    by (rule writeControl_coded [OF plain_timeout [OF plain] r1(1)])
  show ?thesis
    using r1 pay pong handle_close_coded [OF r1(1)] clean
    by (cases e) (simp_all add: handleControl_def Let_def writeError_clean)
qed

lemma read_turn_coded: "plain_tctx c \<Longrightarrow> clean_net st \<Longrightarrow> outcome_coded (read_turn c st)"
proof -
  assume plain: "plain_tctx c" and clean: "clean_net st"
  obtain r1 st1 where hd: "conn_readFrameHeader c st = (r1, st1)" by (cases "conn_readFrameHeader c st")
  have c1: "clean_net st1" "coded_res r1" using conn_readFrameHeader_coded [OF plain clean] hd by simp_all
  show ?thesis
  proof (cases r1)
    case (Inr h)
    obtain r2 st2 where ctl: "handleControl c h st1 = (r2, st2)" by (cases "handleControl c h st1")
    have "clean_net st2" "coded_res r2" using handleControl_coded [OF plain c1(1), of h] ctl by simp_all
    then show ?thesis
      using c1 hd Inr ctl by (cases r2) (simp_all add: read_turn_def io_bind_def Let_def writeError_clean)
  qed (use c1 hd in \<open>simp add: read_turn_def io_bind_def\<close>)
qed

lemma readLoop_coded: "plain_tctx c \<Longrightarrow> clean_net st \<Longrightarrow> outcome_coded (readLoop c st)"
proof (induction c st rule: readLoop.induct)
  case (1 c st)
  obtain r1 st1 where turn: "read_turn c st = (r1, st1)" by (cases "read_turn c st")
  have "clean_net st1" "coded_res r1"
    using read_turn_coded [OF "1.prems"] turn by simp_all
  then show ?case
    using "1.IH" [OF turn [symmetric]] turn "1.prems"(1)
    by (subst readLoop.simps) (auto split: sum.split option.split)
qed

lemma mr_read_coded: "plain_tctx c \<Longrightarrow> clean_net st \<Longrightarrow> got_coded (mr_read c len st)"
proof (induction c len st rule: mr_read.induct)
  case (1 c len st)
  obtain r1 st1 where loop: "readLoop c st = (r1, st1)" by (cases "readLoop c st")
  have r1: "clean_net st1" "coded_res r1"
    using readLoop_coded [OF "1.prems"] loop by simp_all
  let ?n = "min len (mr_payloadLength st)"
  obtain b e st2 where pay: "readFramePayload c ?n st = ((b, e), st2)" by (metis surj_pair)
  have r2: "clean_net st2" "coded_option e"
    using readFramePayload_coded [OF "1.prems", of ?n] pay by simp_all
  have tail: "clean_net (st\<lparr>c_fl := (c_fl st)\<lparr>fs_tail := t\<rparr>\<rparr>)" for t
    using "1.prems"(2) by (simp add: clean_net_def clean_flate_def)
  consider "mr_payloadLength st = 0" "mr_fin st" | "mr_payloadLength st = 0" "\<not> mr_fin st" | "mr_payloadLength st \<noteq> 0"
    by blast
  then show ?case
  proof cases
    case 1
    then show ?thesis using "1.prems" tail by (subst mr_read.simps) (simp add: Let_def)
  next
    case 2
    then show ?thesis
      using "1.IH" [OF 2 loop [symmetric]] "1.prems" loop r1
      by (subst mr_read.simps) (auto simp: Let_def writeError_clean split: sum.split)
  next
    case 3
    then show ?thesis
      using pay r2 by (subst mr_read.simps) (cases e; simp add: Let_def case_prod_beta)
  qed
qed

text \<open>The flate reader only passes on errors of its source and of the library.\<close>

lemma coded_noEOF [simp]: "coded (noEOF e) = coded e"
  by (simp add: noEOF_def)

lemma clean_netD: "clean_net st \<Longrightarrow> clean_flate (c_fl st)"
  by (simp add: clean_net_def)

lemma clean_flate_error: "clean_flate f \<Longrightarrow> coded_option (flate_error f)"
  by (cases "fs_err f") (simp_all add: clean_flate_def flate_error_def)

lemma clean_fl:
  "clean_net st \<Longrightarrow> clean_flate f \<Longrightarrow> clean_net (st\<lparr>c_fl := f\<rparr>)"
  by (simp add: clean_net_def)

lemma clean_flate_fields [simp]:
  "clean_flate (f\<lparr>fs_taken := n\<rparr>) = clean_flate f" "clean_flate (f\<lparr>fs_consumed := q\<rparr>) = clean_flate f"
  "clean_flate (f\<lparr>fs_buf := q\<rparr>) = clean_flate f" "clean_flate (f\<lparr>fs_dict := d\<rparr>) = clean_flate f"
  by (simp_all add: clean_flate_def)

lemma flate_ReadByte_coded: "plain_tctx c \<Longrightarrow> clean_net st \<Longrightarrow> outcome_coded (flate_ReadByte c st)"
proof -
  assume plain: "plain_tctx c" and clean: "clean_net st"
  note f = clean_netD [OF clean]
  obtain b e st1 where fill: "mr_read c 4096 st = ((b, e), st1)" by (metis surj_pair)
  have c1: "clean_net st1" "coded_option e" using mr_read_coded [OF plain clean, of 4096] fill by simp_all
  have "clean_net (st1\<lparr>c_fl := (c_fl st1)\<lparr>fs_buf := xs, fs_buferr := e\<rparr>\<rparr>)" for xs
    using c1 by (simp add: clean_net_def clean_flate_def)
  moreover have "clean_net (st\<lparr>c_fl := (c_fl st)\<lparr>fs_buf := xs\<rparr>\<rparr>)" "clean_net (st\<lparr>c_fl := (c_fl st)\<lparr>fs_buferr := None\<rparr>\<rparr>)" for xs
    using clean by (simp_all add: clean_net_def clean_flate_def)
  moreover have "coded_option (fs_buferr (c_fl st))" using f by (simp add: clean_flate_def)
  ultimately show ?thesis
    using fill c1 unfolding flate_ReadByte_def
    by (auto split: list.split option.split)
qed

lemma flate_give_coded: "clean_net st \<Longrightarrow> got_coded (flate_give len st)"
  by (simp add: flate_give_def Let_def clean_fl clean_netD clean_flate_error)

lemma flate_read_coded: "plain_tctx c \<Longrightarrow> clean_net st \<Longrightarrow> got_coded (flate_read c len st)"
proof (induction c len st rule: flate_read.induct)
  case (1 c len st)
  obtain r st1 where byte: "flate_ReadByte c st = (r, st1)" by (cases "flate_ReadByte c st")
  have c1: "clean_net st1" "coded_res r" using flate_ReadByte_coded [OF "1.prems"] byte by simp_all
  have "clean_net (st1\<lparr>c_fl := (c_fl st1)\<lparr>fs_err := Some (noEOF e)\<rparr>\<rparr>)" if "coded e" for e
    using c1(1) that by (simp add: clean_net_def clean_flate_def)
  moreover have "clean_net (st1\<lparr>c_fl := (c_fl st1)\<lparr>fs_consumed := q\<rparr>\<rparr>)" for q
    using c1(1) by (simp add: clean_net_def)
  ultimately show ?case
    using "1.IH" [OF _ byte [symmetric]] "1.prems" byte c1(2)
    by (subst flate_read.simps) (auto simp: flate_give_coded split: sum.split)
qed

lemma raw_read_coded: "plain_tctx c \<Longrightarrow> clean_net st \<Longrightarrow> got_coded (raw_read c len st)"
  by (simp add: raw_read_def flate_read_coded mr_read_coded)

lemma limit_read_coded: "plain_tctx c \<Longrightarrow> clean_net st \<Longrightarrow> got_coded (limit_read c len st)"
proof -
  assume plain: "plain_tctx c" and clean: "clean_net st"
  let ?n = "if int len > lr_n st then nat (lr_n st) else len"
  obtain b e st1 where r1: "raw_read c ?n st = ((b, e), st1)" by (metis surj_pair)
  have "clean_net st1" "coded_option e"
    using raw_read_coded [OF plain clean, of ?n] r1 by simp_all
  then show ?thesis
    using clean raw_read_coded [OF plain clean, of len] r1
    by (simp add: limit_read_def Let_def writeError_clean)
qed

lemma keep_window_clean [simp]: "clean_net (keep_window b st) = clean_net st"
  by (simp add: keep_window_def Let_def clean_net_def)

lemma msg_Read_coded: "plain_tctx c \<Longrightarrow> clean_net st \<Longrightarrow> got_coded (msg_Read c len st)"
proof -
  assume plain: "plain_tctx c" and clean: "clean_net st"
  obtain r1 st1 where lock: "mu_lock c st = (r1, st1)" by (cases "mu_lock c st")
  have r1: "clean_net st1" "coded_res r1"
    using mu_lock_coded [OF plain clean] lock by simp_all
  obtain b e st2 where lim: "limit_read c len st1 = ((b, e), st2)" by (metis surj_pair)
  have "clean_net st2" "coded_option e"
    using limit_read_coded [OF plain r1(1), of len] lim by simp_all
  then show ?thesis
    using r1 lock lim by (cases r1; cases e) (simp_all add: msg_Read_def Let_def)
qed

lemma read_all_coded: "plain_tctx c \<Longrightarrow> clean_net st \<Longrightarrow> outcome_coded (read_all c acc st)"
proof (induction c acc st rule: read_all.induct)
  case (1 c acc st)
  let ?n = "max 1 (c_chunk st (length acc))"
  obtain b e st1 where msg: "msg_Read c ?n st = ((b, e), st1)" by (metis surj_pair)
  have "clean_net st1" "coded_option e"
    using msg_Read_coded [OF "1.prems", of ?n] msg by simp_all
  then show ?case
    using "1.IH" [OF msg [symmetric] refl] msg "1.prems"(1)
    by (subst read_all.simps) (cases e; simp)
qed

lemma msg_reset_clean: "clean_net st \<Longrightarrow> clean_net (msg_reset h st)"
  by (simp add: msg_reset_def resetFlate_def Let_def) (simp add: clean_net_def clean_flate_def)

lemma conn_Read_coded: "plain_tctx c \<Longrightarrow> clean_net st \<Longrightarrow> outcome_coded (conn_Read c st)"
proof -
  assume plain: "plain_tctx c" and clean: "clean_net st"
  have "outcome_coded (conn_reader c st)"
    unfolding conn_reader_def
  proof (intro coded_wrap coded_intros mu_lock_coded plain clean)
    fix u st'
    assume clean: "clean_net st'"
    obtain r1 st1 where loop: "readLoop c st' = (r1, st1)" by (cases "readLoop c st'")
    have "clean_net st1" "coded_res r1"
      using readLoop_coded [OF plain clean] loop by simp_all
    then show "outcome_coded
        (if \<not> mr_fin st' then (Inl (errors_new ''previous message not read to completion''), st')
         else
           (case readLoop c st' of
              (Inl e, st1) \<Rightarrow> (Inl e, st1)
            | (Inr h, st1) \<Rightarrow>
                if opcode h = opContinuation then
                  let err = errors_new ''received continuation frame without text or binary frame'' in
                  (Inl err, writeError StatusProtocolError err st1)
                else (Inr (opcode h), msg_reset h st1)))"
      using clean loop by (cases r1) (simp_all add: Let_def writeError_clean msg_reset_clean)
  qed
  then show ?thesis
    unfolding conn_Read_def
    by (intro coded_intros) (auto intro: read_all_coded [OF plain] simp: io_return_def)
qed

section \<open>Pinging, closing\<close>

lemma conn_Ping_coded:
  assumes "conn_Ping c st = (e, st')" and "clean_net st" and "plain_tctx c"
  shows "clean_net st' \<and> coded_option e"
proof -
  let ?st0 = "st\<lparr>c_pingCounter := c_pingCounter st + 1\<rparr>"
  let ?p = "bytes_of (format_nat (nat (c_pingCounter ?st0)))"
  obtain r1 st1 where ctl: "writeControl c opPing ?p ?st0 = (r1, st1)" by (cases "writeControl c opPing ?p ?st0")
  have "clean_net st1" "coded_res r1"
    using writeControl_coded [of c ?st0 opPing ?p] assms(2,3) ctl by simp_all
  then show ?thesis
    using assms(1,3) ctl by (cases r1) (auto simp: conn_Ping_def Let_def dest: plain_tctxD split: if_splits option.splits)
qed

lemma discard_clean: "discard n st = (r, st') \<Longrightarrow> clean_net st \<Longrightarrow> clean_net st'"
proof (induction n st rule: discard.induct)
  case (1 n st)
  show ?case
  proof (cases "n = 0")
    case True
    then show ?thesis using "1.prems" by (simp add: discard.simps)
  next
    case False
    have same: "c_in (elapse st) = c_in st" by (simp add: elapse_def split: list.split)
    show ?thesis
    proof (cases "c_in st")
      case Nil
      then show ?thesis using "1.prems" False same by (subst (asm) discard.simps) (auto simp: Let_def)
    next
      case (Cons b rest)
      then have "discard (n - 1) (elapse st\<lparr>c_in := rest\<rparr>) = (r, st')"
        using "1.prems" False same by (subst (asm) discard.simps) (auto simp: Let_def)
      then show ?thesis
        using "1.IH" [OF False refl, of "Inr b" rest b] same Cons "1.prems"(2) by simp
    qed
  qed
qed

lemma close_wait_clean: "close_wait c st = (e, st') \<Longrightarrow> plain_tctx c \<Longrightarrow> clean_net st \<Longrightarrow> clean_net st'"
proof (induction c st rule: close_wait.induct)
  case (1 c st)
  obtain r1 st1 where loop: "readLoop c st = (r1, st1)" by (cases "readLoop c st")
  have c1: "clean_net st1" using readLoop_coded [OF "1.prems"(2,3)] loop by simp
  show ?case
  proof (cases r1)
    case (Inl e)
    then show ?thesis using "1.prems" loop c1 by (subst (asm) close_wait.simps) auto
  next
    case (Inr h)
    obtain r2 st2 where dis: "discard (nat (payloadLength h)) st1 = (r2, st2)"
      by (cases "discard (nat (payloadLength h)) st1")
    note c2 = discard_clean [OF dis c1]
    show ?thesis
      using "1.IH" [OF loop [symmetric] Inr dis [symmetric]] "1.prems" loop Inr dis c2
      by (subst (asm) (2) close_wait.simps) (auto split: sum.splits)
  qed
qed

lemma waitCloseHandshake_clean: "waitCloseHandshake st = (e, st') \<Longrightarrow> clean_net st \<Longrightarrow> clean_net st'"
  by (auto simp: waitCloseHandshake_def Let_def split: sum.splits prod.splits dest!: mu_lock_state
      dest: discard_clean close_wait_clean [OF _ plain_timeout [OF plain_background]])

lemma closeHandshake_clean: "closeHandshake code reason st = (e, st') \<Longrightarrow> clean_net st \<Longrightarrow> clean_net st'"
  using writeClose_coded [of st code reason]
  by (auto simp: closeHandshake_def Let_def split: sum.splits prod.splits dest: waitCloseHandshake_clean)

lemma waitGoroutines_clean: "waitGoroutines st = (e, st') \<Longrightarrow> clean_net st \<Longrightarrow> clean_net st'"
  by (auto simp: waitGoroutines_def split: if_splits)

lemma close_steps_clean:
  "clean_net st \<Longrightarrow> clean_net (snd (closeHandshake code reason st))"
  "clean_net st \<Longrightarrow> clean_net (snd (waitGoroutines st))"
  by (metis closeHandshake_clean surjective_pairing) (metis waitGoroutines_clean surjective_pairing)

lemma conn_Close_clean: "clean_net st \<Longrightarrow> clean_net (snd (conn_Close code reason st))"
  by (simp add: conn_Close_def already_closing_def Let_def case_prod_beta close_steps_clean)

lemma conn_CloseNow_clean: "clean_net st \<Longrightarrow> clean_net (snd (conn_CloseNow st))"
  by (simp add: conn_CloseNow_def already_closing_def Let_def case_prod_beta close_steps_clean)

section \<open>The contract\<close>

text \<open>A native library whose errors carry legal close statuses, as long as it is \<open>clean\<close>.\<close>

definition plain_ctx :: "ctx \<Rightarrow> bool" where
  "plain_ctx c =
     list_all (\<lambda>e. case e of None \<Rightarrow> True | Some (err, cause) \<Rightarrow> err = Canceled \<or> err = DeadlineExceeded)
       (ctx_ended c # ctx_later c)"

locale status_connection = native_connection +
  fixes clean :: "'a \<Rightarrow> bool"
  assumes read_coded: "op_Read ops c n = (r, n', c') \<Longrightarrow> plain_ctx c \<Longrightarrow> clean n \<Longrightarrow> clean n' \<and> coded_res r"
    and write_coded: "op_Write ops c t p n = (e, n', c') \<Longrightarrow> plain_ctx c \<Longrightarrow> clean n \<Longrightarrow> clean n' \<and> coded_option e"
    and ping_coded: "op_Ping ops c n = (e, n', c') \<Longrightarrow> plain_ctx c \<Longrightarrow> clean n \<Longrightarrow> clean n' \<and> coded_option e"
    and close_clean: "clean n \<Longrightarrow> clean (snd (op_Close ops st reason n))"
    and close_now_clean: "clean n \<Longrightarrow> clean (snd (op_CloseNow ops n))"
    and set_limit_clean: "clean (op_SetReadLimit ops m n) = clean n"

sublocale status_connection \<subseteq> kept: native_property ops plain_ctx clean
  by unfold_locales (auto simp: set_limit_clean close_clean close_now_clean dest: read_coded write_coded ping_coded)

context status_connection
begin

text \<open>An error with a legal status does not show its reason once the starter has replaced it.\<close>

lemma coded_wire: "coded e \<Longrightarrow> wire_status e"
  by (auto simp: coded_def wire_status_def wire_code_def validWireCloseCode_def status_defs native_status_defs
      split: if_splits)

lemma reasons_unused:
  assumes "on_native clean conn" and "plain_ctx c"
  shows "Read (redact_ops ops) (Some c) (Some conn) = Read ops (Some c) (Some conn)"
    and "Write (redact_ops ops) (Some c) t p (Some conn) = Write ops (Some c) t p (Some conn)"
    and "Ping (redact_ops ops) (Some c) (Some conn) = Ping ops (Some c) (Some conn)"
  using assms
  by (auto simp: Read_def Write_def Ping_def valid_conn_def on_native_def redact_ops_def redact_res_def
      split: option.splits sum.splits prod.splits
      intro!: sanitize_redact coded_wire dest!: read_coded write_coded ping_coded)

text \<open>An error with a legal status, redacted, is a peer close with that status.\<close>

lemma sanitize_coded: "coded e \<Longrightarrow> sanitizeConnectionError op c e = PeerCloseError s \<Longrightarrow> wire_code s"
  by (auto simp: sanitizeConnectionError_def coded_def CloseStatus_def split: option.splits if_splits)

lemma peer_status_legal:
  assumes "on_native clean conn" and "plain_ctx c"
  shows "Read ops (Some c) (Some conn) = (Inl (PeerCloseError s), h) \<Longrightarrow> wire_code s"
    and "Write ops (Some c) t p (Some conn) = (Some (PeerCloseError s), h) \<Longrightarrow> wire_code s"
    and "Ping ops (Some c) (Some conn) = (Some (PeerCloseError s), h) \<Longrightarrow> wire_code s"
  using assms
  by (auto simp: Read_def Write_def Ping_def valid_conn_def on_native_def errors_new_def
      split: option.splits sum.splits if_splits prod.splits
      intro: sanitize_coded dest!: read_coded write_coded ping_coded)

end

section \<open>The native library keeps to it\<close>

lemma plain_ctx_at: "plain_ctx c \<Longrightarrow> plain_ctx (ctx_at now t c)"
proof -
  have "plain_ctx c \<Longrightarrow> plain_ctx ((ctx_tick ^^ n) c)" for n
    by (induction n) (auto simp: plain_ctx_def ctx_tick_def split: option.split list.split)
  then show "plain_ctx c \<Longrightarrow> ?thesis" by (simp add: ctx_at_def)
qed

lemma plain_tctx_of: "plain_ctx c \<Longrightarrow> plain_tctx (tctx_of now c)"
  using plain_ctx_at [of c now]
  by (fastforce simp: plain_tctx_def tctx_of_def plain_ctx_def split: option.splits)

interpretation ws_status: status_connection ws_ops c_closing ws_limit clean_net
proof
  fix r n' c' c n
  assume "op_Read ws_ops c n = (r, n', c')" "plain_ctx c" "clean_net n"
  then show "clean_net n' \<and> coded_res r"
    using conn_Read_coded [OF plain_tctx_of [of c "c_now n"], of n]
    by (auto simp: ws_ops_def Let_def split: prod.splits)
next
  fix e n' c' c t p n
  assume "op_Write ws_ops c t p n = (e, n', c')" "plain_ctx c" "clean_net n"
  then show "clean_net n' \<and> coded_option e"
    using conn_Write_coded [OF plain_tctx_of [of c "c_now n"], of n t p]
    by (auto simp: ws_ops_def Let_def split: prod.splits sum.splits)
next
  fix e n' c' c n
  assume "op_Ping ws_ops c n = (e, n', c')" "plain_ctx c" "clean_net n"
  then show "clean_net n' \<and> coded_option e"
    using conn_Ping_coded [of "tctx_of (c_now n) c" n] plain_tctx_of [of c]
    by (auto simp: ws_ops_def Let_def split: prod.splits)
qed (simp_all add: ws_ops_def SetReadLimit_def conn_Close_clean conn_CloseNow_clean)

text \<open>
  C11. Every close status that an application is told is one that a close frame can carry. Over the
  native library, from a connection whose network and flate library report no close errors of their own, after any use of it
  under contexts that end with the documented errors, and whatever the peer has sent: the status of a
  \<open>PeerCloseError\<close> from \<open>Read\<close>, \<open>Write\<close> or \<open>Ping\<close> is
  in 1000 to 1014 without the reserved 1004 and 1006, or in 3000 to 4999; 1005 stands for a close frame without
  a status.
\<close>

theorem peer_status_typed:
  assumes "clean_net n" and "used_in plain_ctx ws_ops (newConnection ws_ops n limit) conn" and "plain_ctx c"
    and "fst (Read ws_ops (Some c) (Some conn)) = Inl (PeerCloseError s) \<or>
      fst (Write ws_ops (Some c) t p (Some conn)) = Some (PeerCloseError s) \<or>
      fst (Ping ws_ops (Some c) (Some conn)) = Some (PeerCloseError s)"
  shows "1000 \<le> s \<and> s < 5000 \<and> s \<noteq> 1004 \<and> s \<noteq> 1006 \<and> s \<notin> {1015..2999}"
proof -
  have "on_native clean_net conn"
    using ws_status.kept.used_on_native [OF assms(2)] ws_status.kept.new_holds [OF assms(1)] by blast
  note legal = ws_status.peer_status_legal [OF this assms(3)]
  have "wire_code s"
    using assms(4) legal(1) [of s] legal(2) [of t p s] legal(3) [of s] by (metis surjective_pairing)
  then show ?thesis
    by (auto simp: wire_code_def validWireCloseCode_def status_defs native_status_defs split: if_splits)
qed

lemma stored_inflate_coded: "coded_option (snd (stored_inflate q))"
proof (induction q rule: stored_inflate.induct)
  case (1 q)
  then show ?case by (subst stored_inflate.simps) (auto simp: Let_def case_prod_beta split: list.split)
qed

lemma clean_new_flate: "clean_flate (new_flate copts threshold stored_lib)"
  using stored_inflate_coded by (simp add: clean_flate_def new_flate_def stored_lib_def case_prod_beta)

text \<open>A connection on which a close frame with status 1001 has arrived.\<close>

definition closed_by_peer :: wsconn where
  "closed_by_peer =
     (fresh_conn True)\<lparr>c_closeReceivedErr := Some (wrap ''received close frame: %w'' (CloseError 1001 ''bye''))\<rparr>"

lemma closed_by_peer_clean: "clean_net closed_by_peer"
  by (simp add: clean_net_def closed_by_peer_def fresh_conn_def wire_code_def validWireCloseCode_def status_defs
      native_status_defs clean_new_flate)

lemma plain_ctx_background: "plain_ctx background"
  by (simp add: plain_ctx_def background_def)

lemma closed_by_peer_reads:
  "fst (Read ws_ops (Some background) (Some (newConnection ws_ops closed_by_peer 1024))) = Inl (PeerCloseError 1001)"
proof -
  let ?st = "SetReadLimit 1024 closed_by_peer"
  have open1: "\<not> c_closed ?st" "mr_fin ?st"
    by (simp_all add: closed_by_peer_def SetReadLimit_def fresh_conn_def)
  have "readLoop c ?st = (Inl (wrap ''received close frame: %w'' (CloseError 1001 ''bye'')), ?st)" for c
    by (subst readLoop.simps)
      (simp add: read_turn_def conn_readFrameHeader_def io_bind_def prepareRead_def closed_by_peer_def SetReadLimit_def fresh_conn_def)
  then have "\<exists>st'. conn_Read (tctx_of (c_now ?st) background) ?st =
      (Inl (wrap ''failed to get reader: %w'' (wrap ''received close frame: %w'' (CloseError 1001 ''bye''))), st')"
    using open1 by (simp add: conn_Read_def conn_reader_def io_bind_def io_wrap_def mu_lock_live [OF live_background])
  moreover have "(ctx_tick ^^ k) background = background" for k
    by (induction k) simp_all
  ultimately show ?thesis
    by (auto simp: Read_def valid_conn_def newConnection_def ws_ops_def sanitizeConnectionError_def ctx_background
        ctx_at_def CloseStatus_def err_simps)
qed

theorem peer_status_typed_witness:
  "fst (Read ws_ops (Some background) (Some (newConnection ws_ops closed_by_peer 1024))) = Inl (PeerCloseError 1001) \<and>
   1000 \<le> (1001 :: int) \<and> (1001 :: int) < 5000"
  using peer_status_typed [OF closed_by_peer_clean used_new plain_ctx_background, of 1024 1001] closed_by_peer_reads
  by simp

text \<open>
  C13. No close reason of the peer gets out of a connection by a read, a write or a ping. Over the native library,
  from a connection whose network and flate library report no close errors of their own, after any use of it: if the
  native operations returned the same errors with every close reason blanked (\<open>redact_ops\<close>), then what \<open>Read\<close>,
  \<open>Write\<close> and \<open>Ping\<close> return, and the connection they leave, would be the same.
\<close>

theorem peer_reason_invisible:
  assumes "clean_net n" and "used_in plain_ctx ws_ops (newConnection ws_ops n limit) conn" and "plain_ctx c"
  shows "Read (redact_ops ws_ops) (Some c) (Some conn) = Read ws_ops (Some c) (Some conn) \<and>
    Write (redact_ops ws_ops) (Some c) t p (Some conn) = Write ws_ops (Some c) t p (Some conn) \<and>
    Ping (redact_ops ws_ops) (Some c) (Some conn) = Ping ws_ops (Some c) (Some conn)"
proof -
  have "on_native clean_net conn"
    using ws_status.kept.used_on_native [OF assms(2)] ws_status.kept.new_holds [OF assms(1)] by blast
  from ws_status.reasons_unused [OF this assms(3)] show ?thesis by simp
qed

text \<open>The peer's close frame with the reason \<open>bye\<close>, which the native read returns and the starter's does not.\<close>

theorem peer_reason_invisible_witness:
  "fst (Read (redact_ops ws_ops) (Some background) (Some (newConnection ws_ops closed_by_peer 1024))) =
     Inl (PeerCloseError 1001)"
  using peer_reason_invisible [OF closed_by_peer_clean used_new plain_ctx_background, of 1024]
    closed_by_peer_reads
  by simp

end
