(* ===== verification/Go_Unicode.thy ===== *)
theory Go_Unicode
  imports Go_Path
begin

text \<open>
  The Unicode-aware functions of \<open>strings\<close> that the handshake of the native library calls:
  \<open>strings.EqualFold\<close> and \<open>strings.ToLower\<close> rune by rune. The tables of the \<open>unicode\<close> package for runes
  from U+0080 on are a parameter; below that both functions are written out. Then white space and
  lists of tokens in header values.
\<close>

section \<open>Runes\<close>

text \<open>
  \<open>uc_lower\<close> is \<open>unicode.ToLower\<close>, and \<open>uc_fold sr tr\<close> says whether \<open>tr\<close> is on the orbit of the smaller
  rune \<open>sr\<close> under \<open>unicode.SimpleFold\<close>.
\<close>

record unicode_tables =
  uc_lower :: "nat \<Rightarrow> nat"
  uc_fold :: "nat \<Rightarrow> nat \<Rightarrow> bool"

text \<open>The runes that \<open>range\<close> visits.\<close>

function runes :: "string \<Rightarrow> nat list" where
  "runes s = (if s = [] then [] else fst (decode_rune s) # runes (drop (snd (decode_rune s)) s))"
  by pat_completeness auto
termination
  by (relation "measure length") (auto simp: decode_rune_pos diff_less)

declare runes.simps [simp del]

text \<open>\<open>utf8.AppendRune\<close>: what is no Unicode scalar value becomes U+FFFD.\<close>

definition encode_rune :: "nat \<Rightarrow> string" where
  "encode_rune r =
     (let x = (if r > 0x10FFFF \<or> (0xD800 \<le> r \<and> r \<le> 0xDFFF) then rune_error else r) in
      if x < 0x80 then [char_of x]
      else if x < 0x800 then [char_of (0xC0 + x div 64), char_of (0x80 + x mod 64)]
      else if x < 0x10000 then
        [char_of (0xE0 + x div 4096), char_of (0x80 + x div 64 mod 64), char_of (0x80 + x mod 64)]
      else
        [char_of (0xF0 + x div 262144), char_of (0x80 + x div 4096 mod 64),
         char_of (0x80 + x div 64 mod 64), char_of (0x80 + x mod 64)])"

definition rune_eq :: "unicode_tables \<Rightarrow> nat \<Rightarrow> nat \<Rightarrow> bool" where
  "rune_eq tab a b =
     (if a = b then True
      else
        let sr = min a b; tr = max a b in
        if tr < 0x80 then 65 \<le> sr \<and> sr \<le> 90 \<and> tr = sr + 32 else uc_fold tab sr tr)"

definition equal_fold :: "unicode_tables \<Rightarrow> string \<Rightarrow> string \<Rightarrow> bool" where
  "equal_fold tab s t = list_all2 (rune_eq tab) (runes s) (runes t)"

definition rune_lower :: "unicode_tables \<Rightarrow> nat \<Rightarrow> nat" where
  "rune_lower tab r = (if r < 0x80 then (if 65 \<le> r \<and> r \<le> 90 then r + 32 else r) else uc_lower tab r)"

definition str_lower :: "unicode_tables \<Rightarrow> string \<Rightarrow> string" where
  "str_lower tab s = concat (map (encode_rune \<circ> rune_lower tab) (runes s))"

section \<open>ASCII\<close>

definition ascii_char :: "char \<Rightarrow> bool" where
  "ascii_char c = (of_char c < (0x80 :: nat))"

lemma decode_ascii: "ascii_char c \<Longrightarrow> decode_rune (c # s) = (of_char c, 1)"
  by (simp add: decode_rune_def ascii_char_def)

lemma runes_Nil [simp]: "runes [] = []"
  by (simp add: runes.simps)

lemma runes_Cons [simp]: "ascii_char c \<Longrightarrow> runes (c # s) = of_char c # runes s"
  by (simp add: runes.simps [of "c # s"] decode_ascii)

lemma runes_ascii: "list_all ascii_char s \<Longrightarrow> runes s = map of_char s"
  by (induction s) auto

lemma encode_ascii: "r < 0x80 \<Longrightarrow> encode_rune r = [char_of r]"
  by (simp add: encode_rune_def)

lemma is_upper_code: "is_upper c \<longleftrightarrow> 65 \<le> (of_char c :: nat) \<and> of_char c \<le> (90 :: nat)"
  by (simp add: is_upper_def less_eq_char_def)

lemma str_lower_ascii: "list_all ascii_char s \<Longrightarrow> str_lower tab s = map to_lower s"
proof (induction s)
  case (Cons c s)
  then have "encode_rune (rune_lower tab (of_char c)) = [to_lower c]"
    by (auto simp: rune_lower_def ascii_char_def encode_ascii to_lower_def is_upper_code)
  with Cons show ?case by (simp add: str_lower_def)
qed (simp add: str_lower_def)

lemma rune_eq_refl [simp]: "rune_eq tab a a"
  by (simp add: rune_eq_def)

lemma rune_eq_sym: "rune_eq tab a b \<longleftrightarrow> rune_eq tab b a"
  by (simp add: rune_eq_def min.commute max.commute eq_commute)

lemma equal_fold_refl [simp]: "equal_fold tab s s"
  by (simp add: equal_fold_def list.rel_refl)

lemma equal_fold_sym: "equal_fold tab s t \<longleftrightarrow> equal_fold tab t s"
  by (auto simp: equal_fold_def list_all2_conv_all_nth rune_eq_sym)

text \<open>On ASCII strings folding is the comparison of the lower case.\<close>

lemma equal_fold_lower:
  "list_all ascii_char s \<Longrightarrow> list_all ascii_char t \<Longrightarrow>
   equal_fold tab s t \<longleftrightarrow> map to_lower s = map to_lower t"
proof -
  have code: "rune_eq tab (of_char c) (of_char d) \<longleftrightarrow> to_lower c = to_lower d"
    if "ascii_char c" "ascii_char d" for c d
  proof -
    define x y :: nat where "x = of_char c" and "y = of_char d"
    have code: "of_char (to_lower e) = (if (65 :: nat) \<le> of_char e \<and> of_char e \<le> (90 :: nat) then of_char e + 32 else of_char e :: nat)"
      if "ascii_char e" for e
      using that by (auto simp: to_lower_def is_upper_code ascii_char_def)
    have "to_lower c = to_lower d \<longleftrightarrow> (of_char (to_lower c) :: nat) = of_char (to_lower d)"
      by simp
    also have "\<dots> \<longleftrightarrow> (if 65 \<le> x \<and> x \<le> 90 then x + 32 else x) = (if 65 \<le> y \<and> y \<le> 90 then y + 32 else y)"
      unfolding code [OF that(1)] code [OF that(2)] x_def y_def by (rule refl)
    also have "\<dots> \<longleftrightarrow> rune_eq tab x y"
      using that by (auto simp: rune_eq_def ascii_char_def x_def [symmetric] y_def [symmetric] min_def max_def Let_def)
    finally show ?thesis by (simp add: x_def y_def)
  qed
  assume "list_all ascii_char s" "list_all ascii_char t"
  then show ?thesis
  proof (induction s arbitrary: t)
    case (Cons c s)
    then show ?case
      by (cases t) (auto simp: equal_fold_def code)
  next
    case Nil
    then show ?case by (simp add: equal_fold_def runes_ascii)
  qed
qed

section \<open>White space around plain text\<close>

definition plain_char :: "char \<Rightarrow> bool" where
  "plain_char c = (ascii_char c \<and> \<not> ascii_space c)"

lemma plain_prefix: "plain_char c \<Longrightarrow> space_prefix (c # s) = 0"
proof -
  assume "plain_char c"
  then have "ascii_char c" "\<not> ascii_space c" by (auto simp: plain_char_def)
  moreover have "c \<notin> {CHR 0xC2, CHR 0xE1, CHR 0xE2, CHR 0xE3}"
    using \<open>ascii_char c\<close> by (auto simp: ascii_char_def)
  ultimately show ?thesis
    by (cases "c # s" rule: space_prefix.cases) auto
qed

lemma space_prefix_final:
  assumes "plain_char c" "space_prefix (s @ [c]) = Suc (length s)"
  shows False
  using assms plain_prefix [of c "[]"]
  by (cases "s @ [c]" rule: space_prefix.cases)
    (auto simp: plain_char_def ascii_char_def append_eq_Cons_conv split: if_splits)

lemma plain_suffix: "plain_char c \<Longrightarrow> space_suffix (s @ [c]) = 0"
proof -
  assume c: "plain_char c"
  have "space_prefix (drop n (s @ [c])) \<noteq> Suc (length s) - n" if "n \<le> length s" for n
  proof
    assume "space_prefix (drop n (s @ [c])) = Suc (length s) - n"
    then have "space_prefix (drop n s @ [c]) = Suc (length (drop n s))"
      using that by (simp add: Suc_diff_le)
    then show False using space_prefix_final [OF c] by blast
  qed
  from this [of "length s"] this [of "length s - 1"] this [of "length s - 2"] show ?thesis
    by (auto simp: space_suffix_def Let_def)
qed

lemma trim_space_plain: "list_all plain_char s \<Longrightarrow> trim_space s = s"
proof (cases s)
  case Nil
  then show ?thesis by (simp add: trim_space_def trim_left_space.simps trim_right_space.simps space_suffix_def)
next
  case (Cons c s')
  assume plain: "list_all plain_char s"
  with Cons have "trim_left_space s = s"
    by (simp add: trim_left_space_id plain_prefix)
  moreover have "space_suffix s = 0"
    using plain by (cases s rule: rev_cases) (simp only: space_suffix_def list.size Let_def, simp, simp only: plain_suffix list_all_append list.pred_inject)
  ultimately show ?thesis
    by (simp add: trim_space_def trim_right_space.simps [of s])
qed

section \<open>Lists of tokens\<close>

lemma split_on_append: "sep \<notin> set p \<Longrightarrow> split_on sep (p @ sep # s) = p # split_on sep s"
  by (induction p) auto

lemma split_on_whole: "sep \<notin> set p \<Longrightarrow> split_on sep p = [p]"
  by (induction p) auto

lemma split_on_join:
  "ps \<noteq> [] \<Longrightarrow> list_all (\<lambda>p. sep \<notin> set p) ps \<Longrightarrow> split_on sep (join_with [sep] ps) = ps"
  by (induction "[sep]" ps rule: join_with.induct) (auto simp: split_on_append split_on_whole)

lemma set_join_with: "set (join_with sep ps) \<subseteq> set sep \<union> \<Union> (set ` set ps)"
  by (induction sep ps rule: join_with.induct) auto

lemma token_plain: "token_char c \<Longrightarrow> plain_char c \<and> c \<noteq> CHR '',''"
  by (auto simp: token_char_def plain_char_def ascii_char_def ascii_space_def is_upper_def is_lower_def is_digit_def
      less_eq_char_def)

end
