(* ===== verification/Go_Encoding.thy ===== *)
theory Go_Encoding
  imports Go_Binary Go_Unicode
begin

text \<open>
  \<open>encoding/base64\<close> in the standard alphabet with padding, and \<open>crypto/sha1\<close>, from which the
  native library computes the key of a handshake and its answer. \<open>DecodeString\<close> undoes
  \<open>EncodeToString\<close>; SHA-1 is the algorithm of FIPS 180-4.
\<close>

section \<open>Base64\<close>

definition b64_char :: "nat \<Rightarrow> char" where
  "b64_char n =
     char_of (if n < 26 then 65 + n else if n < 52 then 71 + n else if n < 62 then n - 4 else if n = 62 then 43 else 47)"

definition b64_val :: "char \<Rightarrow> nat option" where
  "b64_val c =
     (let x = of_char c :: nat in
      if 65 \<le> x \<and> x \<le> 90 then Some (x - 65)
      else if 97 \<le> x \<and> x \<le> 122 then Some (x - 71)
      else if 48 \<le> x \<and> x \<le> 57 then Some (x + 4)
      else if x = 43 then Some 62 else if x = 47 then Some 63 else None)"

definition b64_char_at :: "nat \<Rightarrow> nat \<Rightarrow> char" where
  "b64_char_at v k = b64_char (drop_bit k v mod 64)"

fun b64_encode :: "bytes \<Rightarrow> string" where
  "b64_encode (a # b # c # bs) =
     (let v = get_be [a, b, c] in
      [b64_char_at v 18, b64_char_at v 12, b64_char_at v 6, b64_char_at v 0] @ b64_encode bs)"
| "b64_encode [a, b] =
     (let v = get_be [a, b, 0] in [b64_char_at v 18, b64_char_at v 12, b64_char_at v 6, CHR ''=''])"
| "b64_encode [a] = (let v = get_be [a, 0, 0] in [b64_char_at v 18, b64_char_at v 12, CHR ''='', CHR ''=''])"
| "b64_encode [] = []"

text \<open>
  The quanta of \<open>DecodeString\<close>. Padding ends the input; the unused low bits of the last quantum may
  be anything, because the encoding is not strict.
\<close>

fun b64_quanta :: "string \<Rightarrow> bytes option" where
  "b64_quanta [] = Some []"
| "b64_quanta (p # q # r # s # rest) =
     (case (b64_val p, b64_val q) of
        (Some i, Some j) \<Rightarrow>
          if r = CHR ''='' then
            (if s = CHR ''='' \<and> rest = [] then Some (put_be 1 (i * 4 + j div 16)) else None)
          else
            (case b64_val r of
               None \<Rightarrow> None
             | Some k \<Rightarrow>
                 if s = CHR ''='' then
                   (if rest = [] then Some (put_be 2 (i * 1024 + j * 16 + k div 4)) else None)
                 else
                   (case b64_val s of
                      None \<Rightarrow> None
                    | Some l \<Rightarrow>
                        map_option (\<lambda>bs. put_be 3 (i * 262144 + j * 4096 + k * 64 + l) @ bs) (b64_quanta rest)))
      | _ \<Rightarrow> None)"
| "b64_quanta _ = None"

definition b64_decode :: "string \<Rightarrow> bytes option" where
  "b64_decode s = b64_quanta (filter (\<lambda>c. c \<noteq> CHR 0x0A \<and> c \<noteq> CHR 0x0D) s)"

lemma b64_val_char: "n < 64 \<Longrightarrow> b64_val (b64_char n) = Some n"
proof -
  have "list_all (\<lambda>n. b64_val (b64_char n) = Some n) [0..<64]"
    by code_simp
  then show "n < 64 \<Longrightarrow> ?thesis" by (simp add: list_all_iff)
qed

lemma b64_char_token: "n < 64 \<Longrightarrow> plain_char (b64_char n) \<and> b64_char n \<noteq> CHR ''=''"
proof -
  have "list_all (\<lambda>n. plain_char (b64_char n) \<and> b64_char n \<noteq> CHR ''='') [0..<64]"
    by code_simp
  then show "n < 64 \<Longrightarrow> ?thesis" by (simp add: list_all_iff)
qed

lemma b64_val_at [simp]: "b64_val (b64_char_at v k) = Some (drop_bit k v mod 64)"
  by (simp add: b64_char_at_def b64_val_char)

lemma b64_at_plain [simp]: "plain_char (b64_char_at v k)" "b64_char_at v k \<noteq> CHR ''=''"
  using b64_char_token [of "drop_bit k v mod 64"] by (simp_all add: b64_char_at_def)

lemma drop_sextets: "drop_bit 18 v = v div 64 div 64 div 64" "drop_bit 12 v = v div 64 div 64" "drop_bit 6 v = v div (64 :: nat)"
  by (simp_all add: drop_bit_eq_div flip: div_mult2_eq)

lemma sextets: "drop_bit 18 v * 262144 + drop_bit 12 v mod 64 * 4096 + drop_bit 6 v mod 64 * 64 + v mod 64 = (v :: nat)"
  using div_mult_mod_eq [of v 64] div_mult_mod_eq [of "v div 64" 64] div_mult_mod_eq [of "v div 64 div 64" 64]
  unfolding drop_sextets by linarith

lemma digits64: "v < 16777216 \<Longrightarrow>
    drop_bit 18 v mod 64 * 262144 + drop_bit 12 v mod 64 * 4096 + drop_bit 6 v mod 64 * 64 + drop_bit 0 v mod 64 = (v :: nat)"
  using sextets [of v] by (simp add: drop_sextets less_mult_imp_div_less)

lemma digits64_2: "v < 65536 \<Longrightarrow>
    drop_bit 18 (256 * v) mod 64 * 1024 + drop_bit 12 (256 * v) mod 64 * 16 + drop_bit 6 (256 * v) mod 64 div 4 = (v :: nat)"
proof -
  assume "v < 65536"
  moreover have "256 * v mod 64 = 0" "256 * v div 64 = 4 * v"
    by (simp_all add: mod_eq_0_iff_dvd)
  moreover have "4 * v mod 64 = 4 * (v mod 16)"
    by (simp add: mult_mod_right)
  ultimately show ?thesis
    using sextets [of "256 * v"] by (simp add: drop_sextets less_mult_imp_div_less)
qed

lemma digits64_1: "v < 256 \<Longrightarrow>
    drop_bit 18 (65536 * v) mod 64 * 4 + drop_bit 12 (65536 * v) mod 64 div 16 = (v :: nat)"
proof -
  assume "v < 256"
  moreover have "65536 * v div 64 div 64 = 16 * v" "16 * v mod 64 = 16 * (v mod 4)" "16 * v div 64 = v div 4"
    by (simp_all add: mult_mod_right flip: div_mult2_eq)
  ultimately show ?thesis
    by (simp add: drop_sextets less_mult_imp_div_less)
qed

lemma b64_pad_plain: "plain_char (CHR ''='')"
  by (simp add: plain_char_def ascii_char_def ascii_space_def)

lemma b64_encode_plain: "list_all plain_char (b64_encode bs)"
  by (induction bs rule: b64_encode.induct)
    (simp_all only: b64_encode.simps Let_def list.pred_inject list_all_append b64_at_plain b64_pad_plain simp_thms)

lemma length_b64_encode: "length bs = 16 \<Longrightarrow> length (b64_encode bs) = 24"
  by (simp add: eval_nat_numeral length_Suc_conv Let_def, elim exE conjE, simp add: Let_def)

lemma put_get:
  "put_be 3 (get_be [a, b, c]) = [a, b, c]" "put_be 2 (get_be [a, b]) = [a, b]" "put_be 1 (get_be [a]) = [a]"
  using put_be_get_be [of "[a, b, c]"] put_be_get_be [of "[a, b]"] put_be_get_be [of "[a]"]
  by (simp_all add: numeral_3_eq_3 numeral_2_eq_2)

lemma get_be_zeros:
  "get_be [a, b, 0] = 256 * get_be [a, b]" "get_be [a, 0, 0] = 65536 * get_be [a]"
  by simp_all

lemma b64_quanta_encode: "b64_quanta (b64_encode bs) = Some bs"
proof (induction bs rule: b64_encode.induct)
  case (1 a b c bs)
  have "get_be [a, b, c] < 16777216" using get_be_bound [of "[a, b, c]"] by simp
  note digits64 [OF this]
  with 1 show ?case
    by (simp only: b64_encode.simps Let_def append.simps b64_quanta.simps b64_val_at b64_at_plain option.simps
        prod.case if_False put_get option.map append.simps)
next
  case (2 a b)
  have "get_be [a, b] < 65536" using get_be_bound [of "[a, b]"] by simp
  note digits64_2 [OF this]
  then show ?case
    by (simp only: b64_encode.simps Let_def append.simps b64_quanta.simps b64_val_at b64_at_plain option.simps
        prod.case if_False if_True simp_thms put_get get_be_zeros)
next
  case (3 a)
  have "get_be [a] < 256" using get_be_bound [of "[a]"] by simp
  note digits64_1 [OF this]
  then show ?case
    by (simp only: b64_encode.simps Let_def append.simps b64_quanta.simps b64_val_at b64_at_plain option.simps
        prod.case if_False if_True simp_thms put_get get_be_zeros(2))
qed simp

theorem b64_roundtrip: "b64_decode (b64_encode bs) = Some bs"
proof -
  have "filter (\<lambda>c. c \<noteq> CHR 0x0A \<and> c \<noteq> CHR 0x0D) (b64_encode bs) = b64_encode bs"
    using b64_encode_plain [of bs] by (auto simp: filter_id_conv list_all_iff plain_char_def ascii_space_def)
  then show ?thesis by (simp only: b64_decode_def b64_quanta_encode)
qed

section \<open>SHA-1\<close>

unbundle bit_operations_syntax

text \<open>The padded message: a one bit, zeros, and the length in bits in eight bytes.\<close>

definition sha1_pad :: "bytes \<Rightarrow> bytes" where
  "sha1_pad m = m @ [0x80] @ replicate ((119 - length m mod 64) mod 64) 0 @ put_be 8 (8 * length m)"

fun be_words :: "bytes \<Rightarrow> 32 word list" where
  "be_words (a # b # c # d # bs) = word_of_nat (get_be [a, b, c, d]) # be_words bs"
| "be_words _ = []"

text \<open>The message schedule, latest word first.\<close>

fun sha1_schedule :: "nat \<Rightarrow> 32 word list \<Rightarrow> 32 word list" where
  "sha1_schedule 0 ws = ws"
| "sha1_schedule (Suc n) ws =
     sha1_schedule n (word_rotl 1 (ws ! 2 XOR ws ! 7 XOR ws ! 13 XOR ws ! 15) # ws)"

type_synonym sha1_state = "32 word \<times> 32 word \<times> 32 word \<times> 32 word \<times> 32 word"

definition sha1_f :: "nat \<Rightarrow> 32 word \<Rightarrow> 32 word \<Rightarrow> 32 word \<Rightarrow> 32 word" where
  "sha1_f t b c d =
     (if t < 20 then (b AND c) OR (NOT b AND d)
      else if t < 40 then b XOR c XOR d
      else if t < 60 then (b AND c) OR (b AND d) OR (c AND d)
      else b XOR c XOR d)"

definition sha1_k :: "nat \<Rightarrow> 32 word" where
  "sha1_k t =
     (if t < 20 then 0x5A827999 else if t < 40 then 0x6ED9EBA1 else if t < 60 then 0x8F1BBCDC else 0xCA62C1D6)"

fun sha1_rounds :: "nat \<Rightarrow> 32 word list \<Rightarrow> sha1_state \<Rightarrow> sha1_state" where
  "sha1_rounds t [] st = st"
| "sha1_rounds t (w # ws) (a, b, c, d, e) =
     sha1_rounds (t + 1) ws
       (word_rotl 5 a + sha1_f t b c d + e + sha1_k t + w, a, word_rotl 30 b, c, d)"

definition sha1_block :: "32 word list \<Rightarrow> sha1_state \<Rightarrow> sha1_state" where
  "sha1_block ws st =
     (case (st, sha1_rounds 0 (rev (sha1_schedule 64 (rev ws))) st) of
        ((a, b, c, d, e), (a', b', c', d', e')) \<Rightarrow> (a + a', b + b', c + c', d + d', e + e'))"

function sha1_blocks :: "32 word list \<Rightarrow> sha1_state \<Rightarrow> sha1_state" where
  "sha1_blocks ws st = (if length ws < 16 then st else sha1_blocks (drop 16 ws) (sha1_block (take 16 ws) st))"
  by pat_completeness auto
termination
  by (relation "measure (\<lambda>(ws, st). length ws)") auto

declare sha1_blocks.simps [simp del]

definition sha1_sum :: "bytes \<Rightarrow> bytes" where
  "sha1_sum m =
     (case sha1_blocks (be_words (sha1_pad m)) (0x67452301, 0xEFCDAB89, 0x98BADCFE, 0x10325476, 0xC3D2E1F0) of
        (a, b, c, d, e) \<Rightarrow> concat (map (\<lambda>w. put_be 4 (unat w)) [a, b, c, d, e]))"

lemma length_sha1_sum: "length (sha1_sum m) = 20"
  by (simp add: sha1_sum_def split: prod.split)

end
