(* ===== verification/Ws_Handshake.thy ===== *)
theory Ws_Handshake
  imports Server Go_Encoding Ws_Conn
begin

text \<open>
  Model of the opening handshakes of the native library, \<open>accept.go\<close> and \<open>dial.go\<close>, with the
  negotiation of \<open>compress.go\<close>. A response writer is its header, and a response a status, a header
  and, for an error, the error whose message is the body. \<open>url.Parse\<close>, \<open>URL.String\<close>, the HTTP
  exchange (\<open>http.Client.Do\<close>), the hijacking of the connection and the random source are arguments.
  An HTTP client is never nil and has no timeout of its own here, as the starter makes them, so
  \<open>DialOptions.cloneWithDefaults\<close> changes nothing that the handshake reads.
\<close>

section \<open>Headers\<close>

text \<open>\<open>Header.Get\<close>, \<open>Header.Del\<close> and the tokens of a header.\<close>

definition header_get :: "header \<Rightarrow> string \<Rightarrow> string" where
  "header_get h key = (case header_values h (canonical_header_key key) of [] \<Rightarrow> [] | v # vs \<Rightarrow> v)"

definition header_del :: "string \<Rightarrow> header \<Rightarrow> header" where
  "header_del key h = filter (\<lambda>(k, vs). k \<noteq> canonical_header_key key) h"

definition headerTokens :: "header \<Rightarrow> string \<Rightarrow> string list" where
  "headerTokens h key =
     concat (map (\<lambda>v. map trim_space (split_on (CHR '','') (trim_space v)))
       (header_values h (canonical_header_key key)))"

definition headerContainsTokenIgnoreCase :: "unicode_tables \<Rightarrow> header \<Rightarrow> string \<Rightarrow> string \<Rightarrow> bool" where
  "headerContainsTokenIgnoreCase tab h key token =
     list_ex (\<lambda>t. equal_fold tab t token) (headerTokens h key)"

section \<open>Compression options\<close>

definition mode_opts :: "compression_mode \<Rightarrow> compression_options" where
  "mode_opts m =
     \<lparr>co_clientNoContextTakeover = (m = CompressionNoContextTakeover),
      co_serverNoContextTakeover = (m = CompressionNoContextTakeover)\<rparr>"

definition copts_string :: "compression_options \<Rightarrow> string" where
  "copts_string copts =
     ''permessage-deflate'' @
     (if co_clientNoContextTakeover copts then ''; client_no_context_takeover'' else []) @
     (if co_serverNoContextTakeover copts then ''; server_no_context_takeover'' else [])"

record websocket_extension =
  we_name :: string
  we_params :: "string list"

definition websocketExtensions :: "header \<Rightarrow> websocket_extension list" where
  "websocketExtensions h =
     map (\<lambda>extStr. let vals = map trim_space (split_on (CHR '';'') extStr) in \<lparr>we_name = hd vals, we_params = tl vals\<rparr>)
       (filter (\<lambda>extStr. extStr \<noteq> []) (headerTokens h ''Sec-WebSocket-Extensions''))"

fun accept_params :: "string list \<Rightarrow> compression_options \<Rightarrow> compression_options option" where
  "accept_params [] copts = Some copts"
| "accept_params (p # ps) copts =
     (if p = ''client_no_context_takeover'' then accept_params ps (copts\<lparr>co_clientNoContextTakeover := True\<rparr>)
      else if p = ''server_no_context_takeover'' then accept_params ps (copts\<lparr>co_serverNoContextTakeover := True\<rparr>)
      else if p = ''client_max_window_bits'' \<or> p = ''server_max_window_bits=15'' then accept_params ps copts
      else if has_prefix p ''client_max_window_bits='' then accept_params ps copts
      else None)"

definition acceptDeflate :: "websocket_extension \<Rightarrow> compression_mode \<Rightarrow> compression_options option" where
  "acceptDeflate ext mode = accept_params (we_params ext) (mode_opts mode)"

fun select_deflate :: "websocket_extension list \<Rightarrow> compression_mode \<Rightarrow> compression_options option" where
  "select_deflate [] mode = None"
| "select_deflate (ext # exts) mode =
     (if we_name ext = ''permessage-deflate'' then
        (case acceptDeflate ext mode of Some copts \<Rightarrow> Some copts | None \<Rightarrow> select_deflate exts mode)
      else select_deflate exts mode)"

definition selectDeflate :: "websocket_extension list \<Rightarrow> compression_mode \<Rightarrow> compression_options option" where
  "selectDeflate extensions mode = (if mode = CompressionDisabled then None else select_deflate extensions mode)"

section \<open>The server's checks\<close>

text \<open>\<open>Request.ProtoAtLeast\<close>.\<close>

definition proto_at_least :: "request \<Rightarrow> int \<Rightarrow> int \<Rightarrow> bool" where
  "proto_at_least r major minor =
     (rq_ProtoMajor r > major \<or> rq_ProtoMajor r = major \<and> rq_ProtoMinor r \<ge> minor)"

text \<open>
  The refusal, if any, and the header of the response writer. The version in the first message is
  given by its two numbers.
\<close>

definition verifyClientRequest :: "unicode_tables \<Rightarrow> header \<Rightarrow> request \<Rightarrow> (int \<times> go_error) option \<times> header" where
  "verifyClientRequest tab w r =
     (let h = rq_Header r;
          upgrade = header_set ''Upgrade'' ''websocket'' (header_set ''Connection'' ''Upgrade'' w) in
      if \<not> proto_at_least r 1 1 then
        (Some (426, Errorf ''WebSocket protocol violation: handshake request must be at least HTTP/1.1: %q''
           [AInt (rq_ProtoMajor r), AInt (rq_ProtoMinor r)] []), w)
      else if \<not> headerContainsTokenIgnoreCase tab h ''Connection'' ''Upgrade'' then
        (Some (426, Errorf ''WebSocket protocol violation: Connection header %q does not contain Upgrade''
           [AStr (header_get h ''Connection'')] []), upgrade)
      else if \<not> headerContainsTokenIgnoreCase tab h ''Upgrade'' ''websocket'' then
        (Some (426, Errorf ''WebSocket protocol violation: Upgrade header %q does not contain websocket''
           [AStr (header_get h ''Upgrade'')] []), upgrade)
      else if rq_Method r \<noteq> ''GET'' then
        (Some (405, Errorf ''WebSocket protocol violation: handshake request method is not GET but %q''
           [AStr (rq_Method r)] []), w)
      else if header_get h ''Sec-WebSocket-Version'' \<noteq> ''13'' then
        (Some (400, Errorf ''unsupported WebSocket protocol version (only 13 is supported): %q''
           [AStr (header_get h ''Sec-WebSocket-Version'')] []), header_set ''Sec-WebSocket-Version'' ''13'' w)
      else
        (case header_values h (canonical_header_key ''Sec-WebSocket-Key'') of
           [] \<Rightarrow> (Some (400, errors_new ''WebSocket protocol violation: missing Sec-WebSocket-Key''), w)
         | [k] \<Rightarrow>
             let websocketSecKey = trim_space k in
             if (case b64_decode websocketSecKey of None \<Rightarrow> True | Some v \<Rightarrow> length v \<noteq> 16) then
               (Some (400, Errorf ''WebSocket protocol violation: invalid Sec-WebSocket-Key %q, must be a 16 byte base64 encoded string''
                  [AStr websocketSecKey] []), w)
             else (None, w)
         | _ \<Rightarrow> (Some (400, errors_new ''WebSocket protocol violation: multiple Sec-WebSocket-Key headers''), w)))"

definition match_origin :: "unicode_tables \<Rightarrow> string \<Rightarrow> string \<Rightarrow> bool option" where
  "match_origin tab pattern s = path_match (str_lower tab pattern) (str_lower tab s)"

definition ErrBadPattern :: go_error where
  "ErrBadPattern = OtherError ''syntax error in pattern''"

text \<open>The loop over the patterns: a bad pattern is an error, otherwise whether one matches.\<close>

fun origin_authorized :: "unicode_tables \<Rightarrow> url \<Rightarrow> string list \<Rightarrow> bool res" where
  "origin_authorized tab u [] = Inr False"
| "origin_authorized tab u (hostPattern # ps) =
     (let target = (if contains hostPattern ''://'' then u_Scheme u @ ''://'' @ u_Host u else u_Host u) in
      case match_origin tab hostPattern target of
        None \<Rightarrow> Inl (Errorf ''failed to parse path pattern %q: %w'' [AStr hostPattern] [ErrBadPattern])
      | Some matched \<Rightarrow> if matched then Inr True else origin_authorized tab u ps)"

definition authenticateOrigin ::
  "unicode_tables \<Rightarrow> (string \<Rightarrow> url option) \<Rightarrow> request \<Rightarrow> string list \<Rightarrow> go_error option" where
  "authenticateOrigin tab parse_url r originHosts =
     (let origin = header_get (rq_Header r) ''Origin'' in
      if origin = [] then None
      else
        (case parse_url origin of
           None \<Rightarrow> Some (Errorf ''failed to parse Origin header %q: %w'' [AStr origin] [OtherError ''parse''])
         | Some u \<Rightarrow>
             if equal_fold tab (rq_Host r) (u_Host u) then None
             else
               (case origin_authorized tab u originHosts of
                  Inl err \<Rightarrow> Some err
                | Inr True \<Rightarrow> None
                | Inr False \<Rightarrow>
                    if u_Host u = [] then
                      Some (Errorf ''request Origin %q is not a valid URL with a host'' [AStr origin] [])
                    else
                      Some (Errorf ''request Origin %q is not authorized for Host %q'' [AStr (u_Host u), AStr (rq_Host r)] []))))"

text \<open>Two nested loops: the first protocol of the server that the client has offered, as the client spells it.\<close>

definition selectSubprotocol :: "unicode_tables \<Rightarrow> request \<Rightarrow> string list \<Rightarrow> string" where
  "selectSubprotocol tab r subprotocols =
     (let cps = headerTokens (rq_Header r) ''Sec-WebSocket-Protocol'' in
      case find (\<lambda>(sp, cp). equal_fold tab sp cp) (List.product subprotocols cps) of
        Some (sp, cp) \<Rightarrow> cp
      | None \<Rightarrow> [])"

definition keyGUID :: bytes where
  "keyGUID = bytes_of ''258EAFA5-E914-47DA-95CA-C5AB0DC85B11''"

definition secWebSocketAccept :: "string \<Rightarrow> string" where
  "secWebSocketAccept key = b64_encode (sha1_sum (bytes_of key @ keyGUID))"

section \<open>Accept\<close>

record response =
  rs_Status :: int
  rs_Header :: header
  rs_Error :: "go_error option"

record conn_config =
  cf_subprotocol :: string
  cf_client :: bool
  cf_copts :: "compression_options option"
  cf_flateThreshold :: int

text \<open>Whether the response writer can be hijacked, and the error of hijacking it.\<close>

datatype hijacker = NoHijacker | Hijacker "go_error option"

text \<open>\<open>http.Error\<close>.\<close>

definition http_error :: "header \<Rightarrow> go_error \<Rightarrow> int \<Rightarrow> response" where
  "http_error w e code =
     \<lparr>rs_Status = code,
      rs_Header = header_set ''X-Content-Type-Options'' ''nosniff''
        (header_set ''Content-Type'' ''text/plain; charset=utf-8'' (header_del ''Content-Length'' w)),
      rs_Error = Some e\<rparr>"

definition accept_defaults :: "accept_options option \<Rightarrow> accept_options" where
  "accept_defaults opts =
     (case opts of
        Some o' \<Rightarrow> o'
      | None \<Rightarrow>
          \<lparr>ao_Subprotocols = [], ao_InsecureSkipVerify = False, ao_OriginPatterns = [],
           ao_CompressionMode = CompressionDisabled, ao_CompressionThreshold = 0\<rparr>)"

text \<open>The header of the switching-protocols response, with the compression that was agreed on.\<close>

definition switching_header :: "unicode_tables \<Rightarrow> header \<Rightarrow> request \<Rightarrow> accept_options \<Rightarrow> header \<times> compression_options option" where
  "switching_header tab w r opts =
     (let w1 = header_set ''Connection'' ''Upgrade'' (header_set ''Upgrade'' ''websocket'' w);
          key = header_get (rq_Header r) ''Sec-WebSocket-Key'';
          w2 = header_set ''Sec-WebSocket-Accept'' (secWebSocketAccept key) w1;
          subproto = selectSubprotocol tab r (ao_Subprotocols opts);
          w3 = (if subproto \<noteq> [] then header_set ''Sec-WebSocket-Protocol'' subproto w2 else w2);
          copts = selectDeflate (websocketExtensions (rq_Header r)) (ao_CompressionMode opts);
          w4 = (case copts of
                  Some c \<Rightarrow> header_set ''Sec-WebSocket-Extensions'' (copts_string c) w3
                | None \<Rightarrow> w3)
      in (w4, copts))"

text \<open>
  An error of hijacking comes after the response has been written, so it no longer changes it.
\<close>

definition accept_conn ::
  "unicode_tables \<Rightarrow> (string \<Rightarrow> url option) \<Rightarrow> hijacker \<Rightarrow> header \<Rightarrow> request \<Rightarrow> accept_options option \<Rightarrow>
   response \<times> conn_config res" where
  "accept_conn tab parse_url hj w r optsp =
     (case verifyClientRequest tab w r of
        (Some (errCode, err), w1) \<Rightarrow> (http_error w1 err errCode, Inl err)
      | (None, w1) \<Rightarrow>
          let opts = accept_defaults optsp in
          (case (if ao_InsecureSkipVerify opts then None
                 else authenticateOrigin tab parse_url r (ao_OriginPatterns opts)) of
             Some err \<Rightarrow>
               let err1 = (if errors_is err ErrBadPattern then errors_new ''Forbidden'' else err) in
               (http_error w1 err1 403, Inl err1)
           | None \<Rightarrow>
               (case hj of
                  NoHijacker \<Rightarrow>
                    (http_error w1 (errors_new ''Not Implemented'') 501,
                     Inl (errors_new ''http.ResponseWriter does not implement http.Hijacker''))
                | Hijacker hijackErr \<Rightarrow>
                    let (w2, copts) = switching_header tab w1 r opts;
                        resp = \<lparr>rs_Status = 101, rs_Header = w2, rs_Error = None\<rparr> in
                    (case hijackErr of
                       Some err \<Rightarrow> (resp, Inl (wrap ''failed to hijack connection: %w'' err))
                     | None \<Rightarrow>
                         (resp,
                          Inr \<lparr>cf_subprotocol = header_get w2 ''Sec-WebSocket-Protocol'',
                               cf_client = False,
                               cf_copts = copts,
                               cf_flateThreshold = ao_CompressionThreshold opts\<rparr>)))))"

definition Accept ::
  "unicode_tables \<Rightarrow> (string \<Rightarrow> url option) \<Rightarrow> hijacker \<Rightarrow> header \<Rightarrow> request \<Rightarrow> accept_options option \<Rightarrow>
   response \<times> conn_config res" where
  "Accept tab parse_url hj w r opts =
     (case accept_conn tab parse_url hj w r opts of
        (resp, Inl err) \<Rightarrow> (resp, Inl (wrap ''failed to accept WebSocket connection: %w'' err))
      | (resp, Inr c) \<Rightarrow> (resp, Inr c))"

end
