(* ===== verification/Ws_Dial.thy ===== *)
theory Ws_Dial
  imports Ws_Handshake
begin

text \<open>
  The client side of the opening handshake, \<open>dial.go\<close>, and \<open>newConn\<close> of \<open>conn.go\<close>, with which both
  sides end. What a failed dial leaves of the body of the response, for debugging, is not modelled.
\<close>

section \<open>The request\<close>

record client_request =
  cr_Method :: string
  cr_URL :: url
  cr_Host :: string
  cr_Header :: header

text \<open>The response as the client gets it; \<open>dr_Writable\<close> says whether its body is an \<open>io.ReadWriteCloser\<close>.\<close>

record dial_response =
  dr_Status :: int
  dr_Header :: header
  dr_Writable :: bool

text \<open>\<open>secWebSocketKey\<close>: what \<open>io.ReadFull\<close> puts into the 16 bytes, or its error.\<close>

definition secWebSocketKey :: "bytes res \<Rightarrow> string res" where
  "secWebSocketKey rr =
     (case rr of
        Inl err \<Rightarrow> Inl (wrap ''failed to read random data from rand.Reader: %w'' err)
      | Inr b \<Rightarrow> Inr (b64_encode b))"

definition http_scheme :: "string \<Rightarrow> string option" where
  "http_scheme scheme =
     (if scheme = ''ws'' then Some ''http''
      else if scheme = ''wss'' then Some ''https''
      else if scheme = ''http'' \<or> scheme = ''https'' then Some scheme
      else None)"

text \<open>\<open>removeEmptyPort\<close> of \<open>net/http\<close>, which \<open>http.NewRequestWithContext\<close> applies to the host.\<close>

definition remove_empty_port :: "string \<Rightarrow> string" where
  "remove_empty_port host =
     (case last_index_of (CHR '':'') host of
        None \<Rightarrow> host
      | Some i \<Rightarrow>
          (case last_index_of (CHR '']'') host of
             None \<Rightarrow> trim_suffix host '':''
           | Some j \<Rightarrow> if i > j then trim_suffix host '':'' else host))"

definition handshake_header :: "dial_options \<Rightarrow> compression_options option \<Rightarrow> string \<Rightarrow> header" where
  "handshake_header opts copts key =
     (let h = do_HTTPHeader opts;
          h1 = header_set ''Connection'' ''Upgrade'' h;
          h2 = header_set ''Upgrade'' ''websocket'' h1;
          h3 = header_set ''Sec-WebSocket-Version'' ''13'' h2;
          h4 = header_set ''Sec-WebSocket-Key'' key h3;
          h5 = (if do_Subprotocols opts \<noteq> [] then
                  header_set ''Sec-WebSocket-Protocol'' (join_with '','' (do_Subprotocols opts)) h4
                else h4)
      in (case copts of
            Some c \<Rightarrow> header_set ''Sec-WebSocket-Extensions'' (copts_string c) h5
          | None \<Rightarrow> h5))"

text \<open>The request that \<open>handshakeRequest\<close> makes, before it is sent.\<close>

definition newHandshakeRequest ::
  "(string \<Rightarrow> url option) \<Rightarrow> (url \<Rightarrow> string) \<Rightarrow> string \<Rightarrow> dial_options \<Rightarrow> compression_options option \<Rightarrow> string \<Rightarrow>
   client_request res" where
  "newHandshakeRequest parse_url url_string urls opts copts key =
     (case parse_url urls of
        None \<Rightarrow> Inl (wrap ''failed to parse url: %w'' (OtherError ''parse''))
      | Some u \<Rightarrow>
          (case http_scheme (u_Scheme u) of
             None \<Rightarrow> Inl (Errorf ''unexpected url scheme: %q'' [AStr (u_Scheme u)] [])
           | Some scheme \<Rightarrow>
               (case parse_url (url_string (u\<lparr>u_Scheme := scheme\<rparr>)) of
                  None \<Rightarrow> Inl (wrap ''failed to create new http request: %w'' (OtherError ''parse''))
                | Some target \<Rightarrow>
                    let host = remove_empty_port (u_Host target) in
                    Inr \<lparr>cr_Method = ''GET'',
                         cr_URL = target\<lparr>u_Host := host\<rparr>,
                         cr_Host = (if length (do_Host opts) > 0 then do_Host opts else host),
                         cr_Header = handshake_header opts copts key\<rparr>)))"

text \<open>\<open>http_do\<close> is \<open>Client.Do\<close> of the HTTP client of the options.\<close>

definition handshakeRequest ::
  "(string \<Rightarrow> url option) \<Rightarrow> (url \<Rightarrow> string) \<Rightarrow> (http_client \<Rightarrow> client_request \<Rightarrow> dial_response res) \<Rightarrow>
   string \<Rightarrow> dial_options \<Rightarrow> compression_options option \<Rightarrow> string \<Rightarrow> dial_response res" where
  "handshakeRequest parse_url url_string http_do urls opts copts key =
     res_bind (newHandshakeRequest parse_url url_string urls opts copts key) (\<lambda>req.
       (case http_do (do_HTTPClient opts) req of
          Inl err \<Rightarrow> Inl (wrap ''failed to send handshake request: %w'' err)
        | Inr resp \<Rightarrow> Inr resp))"

section \<open>The response\<close>

definition verifySubprotocol :: "unicode_tables \<Rightarrow> string list \<Rightarrow> header \<Rightarrow> go_error option" where
  "verifySubprotocol tab subprotos h =
     (let proto = header_get h ''Sec-WebSocket-Protocol'' in
      if proto = [] then None
      else if list_ex (\<lambda>sp2. equal_fold tab sp2 proto) subprotos then None
      else Some (Errorf ''WebSocket protocol violation: unexpected Sec-WebSocket-Protocol from server: %q'' [AStr proto] []))"

fun verify_params :: "string list \<Rightarrow> compression_options \<Rightarrow> compression_options res" where
  "verify_params [] copts = Inr copts"
| "verify_params (p # ps) copts =
     (if p = ''client_no_context_takeover'' then verify_params ps (copts\<lparr>co_clientNoContextTakeover := True\<rparr>)
      else if p = ''server_no_context_takeover'' then verify_params ps (copts\<lparr>co_serverNoContextTakeover := True\<rparr>)
      else if has_prefix p ''server_max_window_bits='' then verify_params ps copts
      else Inl (Errorf ''unsupported permessage-deflate parameter: %q'' [AStr p] []))"

definition verifyServerExtensions :: "compression_options option \<Rightarrow> header \<Rightarrow> compression_options option res" where
  "verifyServerExtensions copts h =
     (case websocketExtensions h of
        [] \<Rightarrow> Inr None
      | ext # exts \<Rightarrow>
          (case copts of
             Some c \<Rightarrow>
               if we_name ext \<noteq> ''permessage-deflate'' \<or> exts \<noteq> [] then
                 Inl (Errorf ''WebSocket protcol violation: unsupported extensions from server: %+v''
                        [AStrs (map we_name exts)] [])
               else res_bind (verify_params (we_params ext) c) (\<lambda>c'. Inr (Some c'))
           | None \<Rightarrow>
               Inl (Errorf ''WebSocket protcol violation: unsupported extensions from server: %+v''
                      [AStrs (map we_name exts)] [])))"

definition verifyServerResponse ::
  "unicode_tables \<Rightarrow> dial_options \<Rightarrow> compression_options option \<Rightarrow> string \<Rightarrow> dial_response \<Rightarrow> compression_options option res" where
  "verifyServerResponse tab opts copts key resp =
     (let h = dr_Header resp in
      if dr_Status resp \<noteq> 101 then
        Inl (Errorf ''expected handshake response status code %v but got %v'' [AInt 101, AInt (dr_Status resp)] [])
      else if \<not> headerContainsTokenIgnoreCase tab h ''Connection'' ''Upgrade'' then
        Inl (Errorf ''WebSocket protocol violation: Connection header %q does not contain Upgrade''
               [AStr (header_get h ''Connection'')] [])
      else if \<not> headerContainsTokenIgnoreCase tab h ''Upgrade'' ''WebSocket'' then
        Inl (Errorf ''WebSocket protocol violation: Upgrade header %q does not contain websocket''
               [AStr (header_get h ''Upgrade'')] [])
      else if header_get h ''Sec-WebSocket-Accept'' \<noteq> secWebSocketAccept key then
        Inl (Errorf ''WebSocket protocol violation: invalid Sec-WebSocket-Accept %q, key %q''
               [AStr (header_get h ''Sec-WebSocket-Accept''), AStr key] [])
      else
        unless (verifySubprotocol tab (do_Subprotocols opts) h) (verifyServerExtensions copts h))"

section \<open>Dial\<close>

definition dial_conn ::
  "unicode_tables \<Rightarrow> (string \<Rightarrow> url option) \<Rightarrow> (url \<Rightarrow> string) \<Rightarrow> (http_client \<Rightarrow> client_request \<Rightarrow> dial_response res) \<Rightarrow>
   bytes res \<Rightarrow> string \<Rightarrow> dial_options \<Rightarrow> dial_response option \<times> conn_config res" where
  "dial_conn tab parse_url url_string http_do rr urls opts =
     (case secWebSocketKey rr of
        Inl err \<Rightarrow> (None, Inl (wrap ''failed to generate Sec-WebSocket-Key: %w'' err))
      | Inr key \<Rightarrow>
          let copts = (if do_CompressionMode opts \<noteq> CompressionDisabled then Some (mode_opts (do_CompressionMode opts))
                       else None) in
          (case handshakeRequest parse_url url_string http_do urls opts copts key of
             Inl err \<Rightarrow> (None, Inl err)
           | Inr resp \<Rightarrow>
               (case verifyServerResponse tab opts copts key resp of
                  Inl err \<Rightarrow> (Some resp, Inl err)
                | Inr copts1 \<Rightarrow>
                    if \<not> dr_Writable resp then
                      (Some resp, Inl (errors_new ''response body is not a io.ReadWriteCloser: %T''))
                    else
                      (Some resp,
                       Inr \<lparr>cf_subprotocol = header_get (dr_Header resp) ''Sec-WebSocket-Protocol'',
                            cf_client = True,
                            cf_copts = copts1,
                            cf_flateThreshold = do_CompressionThreshold opts\<rparr>))))"

definition native_Dial ::
  "unicode_tables \<Rightarrow> (string \<Rightarrow> url option) \<Rightarrow> (url \<Rightarrow> string) \<Rightarrow> (http_client \<Rightarrow> client_request \<Rightarrow> dial_response res) \<Rightarrow>
   bytes res \<Rightarrow> string \<Rightarrow> dial_options \<Rightarrow> dial_response option \<times> conn_config res" where
  "native_Dial tab parse_url url_string http_do rr urls opts =
     (case dial_conn tab parse_url url_string http_do rr urls opts of
        (resp, Inl err) \<Rightarrow> (resp, Inl (wrap ''failed to WebSocket dial: %w'' err))
      | (resp, Inr c) \<Rightarrow> (resp, Inr c))"

section \<open>newConn\<close>

text \<open>The size from which messages are compressed.\<close>

definition flateThreshold :: "conn_config \<Rightarrow> int" where
  "flateThreshold cfg =
     (case cf_copts cfg of
        Some c \<Rightarrow>
          if cf_flateThreshold cfg = 0 then (if \<not> flateContextTakeover (cf_client cfg) c then 512 else 128)
          else cf_flateThreshold cfg
      | None \<Rightarrow> cf_flateThreshold cfg)"

text \<open>
  The new connection over a network, which is given by the fields of \<open>net\<close> that a handshake does not
  touch: the streams, the delays, the sizes of the buffers, the masking keys, the flate library. The read limit is 32768
  bytes and one more.
\<close>

definition newConn :: "conn_config \<Rightarrow> wsconn \<Rightarrow> wsconn" where
  "newConn cfg net =
     net\<lparr>c_subprotocol := cf_subprotocol cfg,
         c_client := cf_client cfg,
         c_closing := False, c_closed := False, c_closeReceivedErr := None, c_closeSentErr := None,
         c_pingCounter := 0,
         mr_fin := True, mr_payloadLength := 0,
         lr_limit := 32769, lr_n := 32769,
         c_fl := new_flate (cf_copts cfg) (flateThreshold cfg) (fs_lib (c_fl net))\<rparr>"

end
