(* ===== verification/Handshake_Laws.thy ===== *)
theory Handshake_Laws
  imports Ws_Dial Config_Policy
begin

text \<open>
  The two sides of the opening handshake against each other and against the configurations of the
  starter: a client and a server with accepted configurations always complete the handshake and agree
  on its outcome, and the requests from other origins that a server lets in.
\<close>

section \<open>Headers\<close>

lemma header_values_set [simp]:
  "header_values (header_set k v h) k' = (if k' = canonical_header_key k then [v] else header_values h k')"
  by (simp add: header_set_def)

lemma canonical_names [simp]:
  "canonical_header_key ''Connection'' = ''Connection''"
  "canonical_header_key ''Upgrade'' = ''Upgrade''"
  "canonical_header_key ''Origin'' = ''Origin''"
  "canonical_header_key ''Sec-WebSocket-Version'' = ''Sec-Websocket-Version''"
  "canonical_header_key ''Sec-WebSocket-Key'' = ''Sec-Websocket-Key''"
  "canonical_header_key ''Sec-WebSocket-Accept'' = ''Sec-Websocket-Accept''"
  "canonical_header_key ''Sec-WebSocket-Protocol'' = ''Sec-Websocket-Protocol''"
  "canonical_header_key ''Sec-WebSocket-Extensions'' = ''Sec-Websocket-Extensions''"
  by code_simp+

definition handshake_names :: "string list" where
  "handshake_names =
     [''Connection'', ''Upgrade'', ''Origin'', ''Sec-Websocket-Version'', ''Sec-Websocket-Key'',
      ''Sec-Websocket-Accept'', ''Sec-Websocket-Protocol'', ''Sec-Websocket-Extensions'']"

text \<open>What an HTTP exchange keeps of a header, whatever else it adds.\<close>

definition carries :: "header \<Rightarrow> header \<Rightarrow> bool" where
  "carries h h' = list_all (\<lambda>k. header_values h' k = header_values h k) handshake_names"

lemma carriesD: "carries h h' \<Longrightarrow> k \<in> set handshake_names \<Longrightarrow> header_values h' k = header_values h k"
  by (simp add: carries_def list_all_iff)

lemma carried_names [simp]:
  "''Connection'' \<in> set handshake_names" "''Upgrade'' \<in> set handshake_names"
  "''Origin'' \<in> set handshake_names" "''Sec-Websocket-Version'' \<in> set handshake_names"
  "''Sec-Websocket-Key'' \<in> set handshake_names" "''Sec-Websocket-Accept'' \<in> set handshake_names"
  "''Sec-Websocket-Protocol'' \<in> set handshake_names" "''Sec-Websocket-Extensions'' \<in> set handshake_names"
  by (simp_all add: handshake_names_def)

definition token_list :: "string list \<Rightarrow> bool" where
  "token_list ps = list_all (\<lambda>p. list_all plain_char p \<and> p \<noteq> [] \<and> CHR '','' \<notin> set p) ps"

lemma tokens_joined: "token_list ps \<Longrightarrow> ps \<noteq> [] \<Longrightarrow>
    map trim_space (split_on (CHR '','') (trim_space (join_with '','' ps))) = ps"
proof -
  assume ps: "token_list ps" "ps \<noteq> []"
  have "list_all plain_char (join_with '','' ps)"
    using set_join_with [of "'',''" ps] ps
    by (fastforce simp: token_list_def list_all_iff plain_char_def ascii_char_def ascii_space_def)
  moreover have "map trim_space ps = ps"
    using ps by (intro map_idI) (simp add: token_list_def list_all_iff trim_space_plain)
  ultimately show ?thesis
    using ps split_on_join [of ps "CHR '',''"] by (simp add: trim_space_plain token_list_def list_all_iff)
qed

lemma headerTokens_none: "header_values h (canonical_header_key key) = [] \<Longrightarrow> headerTokens h key = []"
  by (simp add: headerTokens_def)

lemma headerTokens_list:
  "header_values h (canonical_header_key key) = [join_with '','' ps] \<Longrightarrow> token_list ps \<Longrightarrow> ps \<noteq> [] \<Longrightarrow>
   headerTokens h key = ps"
  by (simp add: headerTokens_def tokens_joined)

lemma contains_token:
  "header_values h (canonical_header_key key) = [v] \<Longrightarrow> token_list [v] \<Longrightarrow> equal_fold tab v token \<Longrightarrow>
   headerContainsTokenIgnoreCase tab h key token"
  using headerTokens_list [of h key "[v]"] by (simp add: headerContainsTokenIgnoreCase_def)

lemma header_get_values [simp]:
  "header_values h (canonical_header_key key) = [v] \<Longrightarrow> header_get h key = v"
  "header_values h (canonical_header_key key) = [] \<Longrightarrow> header_get h key = []"
  by (simp_all add: header_get_def)

lemma token_words:
  "token_list [''Upgrade'']" "token_list [''websocket'']"
  by code_simp+

lemma websocket_folds: "equal_fold tab ''websocket'' ''WebSocket''"
proof -
  have "list_all ascii_char ''websocket'' \<and> list_all ascii_char ''WebSocket'' \<and>
      map to_lower ''websocket'' = map to_lower ''WebSocket''"
    by code_simp
  then show ?thesis by (simp only: equal_fold_lower)
qed

section \<open>Compression\<close>

definition copts_params :: "compression_options \<Rightarrow> string list" where
  "copts_params c =
     (if co_clientNoContextTakeover c then [''client_no_context_takeover''] else []) @
     (if co_serverNoContextTakeover c then [''server_no_context_takeover''] else [])"

definition copts_join :: "compression_options \<Rightarrow> compression_options \<Rightarrow> compression_options" where
  "copts_join c d =
     \<lparr>co_clientNoContextTakeover = (co_clientNoContextTakeover c \<or> co_clientNoContextTakeover d),
      co_serverNoContextTakeover = (co_serverNoContextTakeover c \<or> co_serverNoContextTakeover d)\<rparr>"

text \<open>What one side prints the other side parses.\<close>

lemma copts_parse:
  "map trim_space (split_on (CHR '','') (trim_space (copts_string c))) = [copts_string c]"
  "map trim_space (split_on (CHR '';'') (copts_string c)) = ''permessage-deflate'' # copts_params c"
proof -
  have table: "list_all (\<lambda>(x, y).
      (let c = \<lparr>co_clientNoContextTakeover = x, co_serverNoContextTakeover = y\<rparr> in
       map trim_space (split_on (CHR '','') (trim_space (copts_string c))) = [copts_string c] \<and>
       map trim_space (split_on (CHR '';'') (copts_string c)) = ''permessage-deflate'' # copts_params c))
     [(False, False), (False, True), (True, False), (True, True)]"
    by code_simp
  obtain x y where c: "c = \<lparr>co_clientNoContextTakeover = x, co_serverNoContextTakeover = y\<rparr>"
    by (cases c) auto
  from table show
    "map trim_space (split_on (CHR '','') (trim_space (copts_string c))) = [copts_string c]"
    "map trim_space (split_on (CHR '';'') (copts_string c)) = ''permessage-deflate'' # copts_params c"
    unfolding c by (cases x; cases y; simp only: list.pred_inject Let_def prod.case simp_thms)+
qed

lemma copts_string_nonempty [simp]: "copts_string c \<noteq> []"
  by (simp add: copts_string_def)

lemma extensions_parse:
  "header_values h ''Sec-Websocket-Extensions'' = [copts_string c] \<Longrightarrow>
   websocketExtensions h = [\<lparr>we_name = ''permessage-deflate'', we_params = copts_params c\<rparr>]"
  by (simp add: websocketExtensions_def headerTokens_def copts_parse Let_def)

lemma extensions_none:
  "header_values h ''Sec-Websocket-Extensions'' = [] \<Longrightarrow> websocketExtensions h = []"
  by (simp add: websocketExtensions_def headerTokens_def)

lemma accept_params_copts: "accept_params (copts_params c) d = Some (copts_join d c)"
  by (auto simp: copts_params_def copts_join_def)

lemma verify_params_copts: "verify_params (copts_params c) d = Inr (copts_join d c)"
  by (auto simp: copts_params_def copts_join_def)

lemma copts_join_absorb [simp]: "copts_join c (copts_join d c) = copts_join d c"
  by (auto simp: copts_join_def)

text \<open>The options both sides end with: none unless both want compression.\<close>

definition agreed_compression :: "compression_mode \<Rightarrow> compression_mode \<Rightarrow> compression_options option" where
  "agreed_compression client server =
     (if client = CompressionDisabled \<or> server = CompressionDisabled then None
      else Some (copts_join (mode_opts server) (mode_opts client)))"

definition offered :: "compression_mode \<Rightarrow> compression_options option" where
  "offered mode = (if mode \<noteq> CompressionDisabled then Some (mode_opts mode) else None)"

definition ext_values :: "compression_options option \<Rightarrow> string list" where
  "ext_values copts = (case copts of None \<Rightarrow> [] | Some c \<Rightarrow> [copts_string c])"

lemma selectDeflate_agreed:
  "header_values h ''Sec-Websocket-Extensions'' = ext_values (offered client) \<Longrightarrow>
   selectDeflate (websocketExtensions h) server = agreed_compression client server"
  by (auto simp: selectDeflate_def agreed_compression_def offered_def ext_values_def extensions_parse extensions_none
      acceptDeflate_def accept_params_copts split: if_splits)

lemma verifyServerExtensions_agreed:
  "header_values h ''Sec-Websocket-Extensions'' = ext_values (agreed_compression client server) \<Longrightarrow>
   verifyServerExtensions (offered client) h = Inr (agreed_compression client server)"
  by (auto simp: verifyServerExtensions_def agreed_compression_def offered_def ext_values_def extensions_parse
      extensions_none verify_params_copts split: if_splits)

section \<open>Subprotocols\<close>

definition agreed_subprotocol :: "unicode_tables \<Rightarrow> string list \<Rightarrow> string list \<Rightarrow> string" where
  "agreed_subprotocol tab server client =
     (case find (\<lambda>sp. list_ex (equal_fold tab sp) client) server of
        None \<Rightarrow> []
      | Some sp \<Rightarrow> (case find (equal_fold tab sp) client of Some cp \<Rightarrow> cp | None \<Rightarrow> []))"

lemma find_append: "find P (xs @ ys) = (case find P xs of None \<Rightarrow> find P ys | Some x \<Rightarrow> Some x)"
  by (induction xs) auto

lemma find_map: "find P (map f xs) = map_option f (find (P \<circ> f) xs)"
  by (induction xs) auto

lemma find_None_ex: "find P xs = None \<longleftrightarrow> \<not> list_ex P xs"
  by (auto simp: find_None_iff list_ex_iff)

lemma find_product:
  "(case find (\<lambda>(sp, cp). equal_fold tab sp cp) (List.product sps cps) of Some (sp, cp) \<Rightarrow> cp | None \<Rightarrow> []) =
   agreed_subprotocol tab sps cps"
proof (induction sps)
  case (Cons sp sps)
  have "find (\<lambda>(sp, cp). equal_fold tab sp cp) (map (Pair sp) cps) = map_option (Pair sp) (find (equal_fold tab sp) cps)"
    by (simp add: find_map o_def)
  note pairs = this
  show ?case
  proof (cases "find (equal_fold tab sp) cps")
    case None
    then have "\<not> list_ex (equal_fold tab sp) cps" by (simp add: find_None_ex)
    with None pairs Cons show ?thesis by (simp add: agreed_subprotocol_def find_append)
  next
    case (Some cp)
    then have "list_ex (equal_fold tab sp) cps" by (metis find_None_ex option.distinct(1))
    with Some pairs show ?thesis by (simp add: agreed_subprotocol_def find_append)
  qed
qed (simp add: agreed_subprotocol_def)

lemma agreed_offered: "agreed_subprotocol tab sps cps = [] \<or> agreed_subprotocol tab sps cps \<in> set cps"
  by (auto simp: agreed_subprotocol_def find_Some_iff split: option.splits)

section \<open>Agreement\<close>

text \<open>
  What the server is told of a request: the method, HTTP/1.1 at least, and the header of the
  handshake.
\<close>

definition delivered :: "client_request \<Rightarrow> request \<Rightarrow> bool" where
  "delivered cr rq =
     (rq_Method rq = cr_Method cr \<and> proto_at_least rq 1 1 \<and> carries (cr_Header cr) (rq_Header rq))"

text \<open>What the caller's own header and subprotocols must not interfere with.\<close>

definition clean_dial :: "dial_options \<Rightarrow> bool" where
  "clean_dial opts =
     (header_values (do_HTTPHeader opts) ''Origin'' = [] \<and>
      header_values (do_HTTPHeader opts) ''Sec-Websocket-Protocol'' = [] \<and>
      header_values (do_HTTPHeader opts) ''Sec-Websocket-Extensions'' = [] \<and>
      token_list (do_Subprotocols opts))"

lemma handshake_header_values:
  assumes "clean_dial opts" and "h = handshake_header opts copts key"
  shows "header_values h ''Connection'' = [''Upgrade'']"
    and "header_values h ''Upgrade'' = [''websocket'']"
    and "header_values h ''Sec-Websocket-Version'' = [''13'']"
    and "header_values h ''Sec-Websocket-Key'' = [key]"
    and "header_values h ''Origin'' = []"
    and "header_values h ''Sec-Websocket-Protocol'' =
      (if do_Subprotocols opts = [] then [] else [join_with '','' (do_Subprotocols opts)])"
    and "header_values h ''Sec-Websocket-Extensions'' = ext_values copts"
  using assms
  by (auto simp: clean_dial_def handshake_header_def Let_def ext_values_def split: option.splits)

lemma newHandshakeRequest_header:
  "newHandshakeRequest parse_url url_string urls opts copts key = Inr cr \<Longrightarrow>
   cr_Method cr = ''GET'' \<and> cr_Header cr = handshake_header opts copts key"
  by (auto simp: newHandshakeRequest_def Let_def split: option.splits)

lemma verifyClientRequest_passes:
  assumes "rq_Method rq = ''GET''" and "proto_at_least rq 1 1"
    and "header_values (rq_Header rq) ''Connection'' = [''Upgrade'']"
    and "header_values (rq_Header rq) ''Upgrade'' = [''websocket'']"
    and "header_values (rq_Header rq) ''Sec-Websocket-Version'' = [''13'']"
    and "header_values (rq_Header rq) ''Sec-Websocket-Key'' = [b64_encode b]" and "length b = 16"
  shows "verifyClientRequest tab w rq = (None, w)"
proof -
  have "headerContainsTokenIgnoreCase tab (rq_Header rq) ''Connection'' ''Upgrade''"
    "headerContainsTokenIgnoreCase tab (rq_Header rq) ''Upgrade'' ''websocket''"
    using assms(3,4) by (auto intro: contains_token simp: token_words)
  moreover have "header_get (rq_Header rq) ''Sec-WebSocket-Version'' = ''13''"
    using assms(5) by (simp add: header_get_def)
  moreover have "trim_space (b64_encode b) = b64_encode b"
    by (rule trim_space_plain) (rule b64_encode_plain)
  ultimately show ?thesis
    using assms by (simp add: verifyClientRequest_def b64_roundtrip)
qed

lemma switching_header_values:
  assumes "switching_header tab w rq opts = (w', copts)" and "w = []"
  shows "header_values w' ''Connection'' = [''Upgrade'']"
    and "header_values w' ''Upgrade'' = [''websocket'']"
    and "header_values w' ''Sec-Websocket-Accept'' = [secWebSocketAccept (header_get (rq_Header rq) ''Sec-WebSocket-Key'')]"
    and "header_values w' ''Sec-Websocket-Protocol'' =
      (let sp = selectSubprotocol tab rq (ao_Subprotocols opts) in if sp = [] then [] else [sp])"
    and "header_values w' ''Sec-Websocket-Extensions'' = ext_values copts"
    and "copts = selectDeflate (websocketExtensions (rq_Header rq)) (ao_CompressionMode opts)"
  using assms
  by (auto simp: switching_header_def Let_def ext_values_def split: option.splits)

text \<open>The handshake of the native library between any two sets of options.\<close>

lemma native_handshake:
  assumes clean: "clean_dial opts" and "length b = 16"
    and request: "newHandshakeRequest parse_url url_string urls opts (offered (do_CompressionMode opts)) (b64_encode b) = Inr cr"
    and delivered: "delivered cr rq"
    and accept: "Accept tab parse_url (Hijacker None) [] rq (Some ao) = (resp, result)"
    and http: "http_do (do_HTTPClient opts) cr = Inr \<lparr>dr_Status = rs_Status resp, dr_Header = answered, dr_Writable = True\<rparr>"
    and carried: "carries (rs_Header resp) answered"
  defines "sp \<equiv> agreed_subprotocol tab (ao_Subprotocols ao) (do_Subprotocols opts)"
    and "copts \<equiv> agreed_compression (do_CompressionMode opts) (ao_CompressionMode ao)"
  shows "result = Inr \<lparr>cf_subprotocol = sp, cf_client = False, cf_copts = copts, cf_flateThreshold = ao_CompressionThreshold ao\<rparr>"
    and "snd (native_Dial tab parse_url url_string http_do (Inr b) urls opts) =
      Inr \<lparr>cf_subprotocol = sp, cf_client = True, cf_copts = copts, cf_flateThreshold = do_CompressionThreshold opts\<rparr>"
proof -
  let ?key = "b64_encode b"
  note vals = handshake_header_values [OF clean refl, of "offered (do_CompressionMode opts)" ?key]
  have sent: "header_values (rq_Header rq) k = header_values (handshake_header opts (offered (do_CompressionMode opts)) ?key) k"
    if "k \<in> set handshake_names" for k
    using delivered newHandshakeRequest_header [OF request] carriesD that by (simp add: delivered_def)
  have verified: "verifyClientRequest tab [] rq = (None, [])"
    using delivered newHandshakeRequest_header [OF request] assms(2) vals
    by (intro verifyClientRequest_passes) (simp_all add: sent delivered_def)
  have origin: "(if ao_InsecureSkipVerify ao then None else authenticateOrigin tab parse_url rq (ao_OriginPatterns ao)) = None"
    using vals(5) by (simp add: authenticateOrigin_def header_get_def sent)
  have key: "header_get (rq_Header rq) ''Sec-WebSocket-Key'' = ?key"
    using vals(4) by (simp add: header_get_def sent)
  have tokens: "headerTokens (rq_Header rq) ''Sec-WebSocket-Protocol'' = do_Subprotocols opts"
    using vals(6) clean
    by (cases "do_Subprotocols opts = []") (auto simp: sent clean_dial_def intro: headerTokens_none headerTokens_list)
  have selected: "selectSubprotocol tab rq (ao_Subprotocols ao) = sp"
    unfolding selectSubprotocol_def Let_def tokens sp_def by (rule find_product)
  obtain w copts' where sw: "switching_header tab [] rq ao = (w, copts')"
    by (cases "switching_header tab [] rq ao")
  note answer = switching_header_values [OF sw refl]
  have "copts' = copts"
    using answer(6) selectDeflate_agreed [of "rq_Header rq" "do_CompressionMode opts"] vals(7)
    by (simp add: sent copts_def)
  note answer = answer [unfolded this selected key]
  have protocol: "header_get w ''Sec-WebSocket-Protocol'' = sp"
    using answer(4) by (auto simp: header_get_def Let_def split: if_splits)
  have accepted: "resp = \<lparr>rs_Status = 101, rs_Header = w, rs_Error = None\<rparr> \<and>
      result = Inr \<lparr>cf_subprotocol = sp, cf_client = False, cf_copts = copts, cf_flateThreshold = ao_CompressionThreshold ao\<rparr>"
    using accept verified origin sw protocol \<open>copts' = copts\<close>
    by (simp add: Accept_def accept_conn_def accept_defaults_def Let_def)
  show "result = Inr \<lparr>cf_subprotocol = sp, cf_client = False, cf_copts = copts, cf_flateThreshold = ao_CompressionThreshold ao\<rparr>"
    using accepted by simp
  have received: "header_values answered k = header_values w k" if "k \<in> set handshake_names" for k
    using carriesD [OF carried that] accepted by simp
  have "headerContainsTokenIgnoreCase tab answered ''Connection'' ''Upgrade''"
    "headerContainsTokenIgnoreCase tab answered ''Upgrade'' ''WebSocket''"
    using answer(1,2) by (auto intro!: contains_token simp: received token_words websocket_folds)
  moreover have "header_get answered ''Sec-WebSocket-Accept'' = secWebSocketAccept ?key"
    using answer(3) by (simp add: header_get_def received)
  moreover have "header_get answered ''Sec-WebSocket-Protocol'' = sp"
    using answer(4) by (auto simp: header_get_def received Let_def)
  moreover from this have "verifySubprotocol tab (do_Subprotocols opts) answered = None"
    using agreed_offered [of tab "ao_Subprotocols ao" "do_Subprotocols opts"]
    by (auto simp: verifySubprotocol_def Let_def list_ex_iff sp_def)
  moreover have "verifyServerExtensions (offered (do_CompressionMode opts)) answered = Inr copts"
    using answer(5) verifyServerExtensions_agreed by (simp add: received copts_def)
  ultimately show "snd (native_Dial tab parse_url url_string http_do (Inr b) urls opts) =
      Inr \<lparr>cf_subprotocol = sp, cf_client = True, cf_copts = copts, cf_flateThreshold = do_CompressionThreshold opts\<rparr>"
    using request http accepted
    by (simp add: native_Dial_def dial_conn_def secWebSocketKey_def handshakeRequest_def verifyServerResponse_def
        offered_def [symmetric])
qed

section \<open>Accepted configurations\<close>

lemma header_values_copied_other: "k \<notin> fst ` set h \<Longrightarrow> header_values (copied h m) k = header_values m k"
  by (induction h arbitrary: m) (auto simp: copied_def)

lemma reserved_absent:
  assumes "normalizeHeaders h = Inr hs" and "isReservedHeader k"
  shows "header_values hs k = []"
proof -
  have "k \<notin> fst ` set h"
    using assms by (auto simp: normalizeHeaders_Inr headers_valid_def list_all_iff name_ok_def)
  with assms(1) show ?thesis
    by (simp add: normalizeHeaders_Inr header_values_copied_other)
qed

lemma subprotocols_token_list: "subprotocols_valid ps \<Longrightarrow> token_list ps"
  using token_plain by (fastforce simp: subprotocols_valid_def token_list_def subprotocol_ok_def token_matches_def list_all_iff)

lemma normalized_dial:
  assumes "normalizeClientConfig parse_url url_string tr cc = Inr nc"
  shows "clean_dial (nc_dial nc)" and "do_Subprotocols (nc_dial nc) = cc_Subprotocols cc"
    and "do_CompressionMode (nc_dial nc) = (if cc_Compression cc then CompressionNoContextTakeover else CompressionDisabled)"
    and "do_CompressionThreshold (nc_dial nc) = 0"
proof -
  obtain hs a where hs: "normalizeHeaders (cc_Header cc) = Inr hs"
    and auth: "with_authorization a hs = Inr (do_HTTPHeader (nc_dial nc))"
    and sub: "normalizeSubprotocols (cc_Subprotocols cc) = Inr (do_Subprotocols (nc_dial nc))"
    and mode: "do_CompressionMode (nc_dial nc) = (if cc_Compression cc then CompressionNoContextTakeover else CompressionDisabled)"
      "do_CompressionThreshold (nc_dial nc) = 0"
    using assms by (auto elim!: normalizeClientConfig_InrE)
  have "normalizedHeaderBytes hs \<le> maxHeaderBytes"
    using hs by (simp add: normalizeHeaders_Inr bytes_copied headers_valid_def)
  then have "header_values (do_HTTPHeader (nc_dial nc)) k = []" if "isReservedHeader k" "k \<noteq> ''Authorization''" for k
    using with_authorization_Inr [OF auth] reserved_absent [OF hs that(1)] that(2) by simp
  then show "clean_dial (nc_dial nc)"
    using sub by (simp add: clean_dial_def isReservedHeader_def normalizeSubprotocols_Inr subprotocols_token_list)
  show "do_Subprotocols (nc_dial nc) = cc_Subprotocols cc"
    using sub by (simp add: normalizeSubprotocols_Inr)
  show "do_CompressionMode (nc_dial nc) = (if cc_Compression cc then CompressionNoContextTakeover else CompressionDisabled)"
    "do_CompressionThreshold (nc_dial nc) = 0"
    using mode by simp_all
qed

text \<open>
  C8. A client and a server of the starter always understand each other. If both configurations have been
  accepted, and the HTTP exchange delivers the method, HTTP/1.1 and the headers of the handshake in both
  directions, then the native \<open>Accept\<close> upgrades the request that the native \<open>Dial\<close> has sent, the
  client accepts the answer, and the two connections agree: on the subprotocol, which is the first of the server that
  the client has offered, and on compression, which is used exactly if both configurations ask for it, and then
  without context takeover in either direction and from 512 bytes on unless the server says otherwise.
\<close>

theorem handshake_agreement:
  assumes "normalizeServerConfig sc = Inr ns" and "normalizeClientConfig parse_url url_string tr cc = Inr nc"
    and "length b = 16"
    and "newHandshakeRequest parse_url url_string (nc_url nc) (nc_dial nc)
      (offered (do_CompressionMode (nc_dial nc))) (b64_encode b) = Inr cr"
    and "delivered cr rq"
    and "Accept tab parse_url (Hijacker None) [] rq (Some (ns_accept ns)) = (resp, result)"
    and "http_do (do_HTTPClient (nc_dial nc)) cr =
      Inr \<lparr>dr_Status = rs_Status resp, dr_Header = answered, dr_Writable = True\<rparr>"
    and "carries (rs_Header resp) answered"
  shows "\<exists>sv cl. result = Inr sv \<and>
    snd (native_Dial tab parse_url url_string http_do (Inr b) (nc_url nc) (nc_dial nc)) = Inr cl \<and>
    \<not> cf_client sv \<and> cf_client cl \<and>
    cf_subprotocol cl = cf_subprotocol sv \<and>
    cf_subprotocol sv = agreed_subprotocol tab (sc_Subprotocols sc) (cc_Subprotocols cc) \<and>
    cf_copts cl = cf_copts sv \<and>
    cf_copts sv =
      (if sc_Compression sc \<and> cc_Compression cc
       then Some \<lparr>co_clientNoContextTakeover = True, co_serverNoContextTakeover = True\<rparr> else None) \<and>
    (cf_copts sv \<noteq> None \<longrightarrow> flateThreshold cl = 512 \<and> flateThreshold sv = or_default 512 (sc_CompressionAt sc))"
proof -
  note dial = normalized_dial [OF assms(2)]
  have ns: "ao_Subprotocols (ns_accept ns) = sc_Subprotocols sc"
    "ao_CompressionMode (ns_accept ns) = (if sc_Compression sc then CompressionNoContextTakeover else CompressionDisabled)"
    "sc_Compression sc \<Longrightarrow> ao_CompressionThreshold (ns_accept ns) = or_default 512 (sc_CompressionAt sc) \<and>
       or_default 512 (sc_CompressionAt sc) \<noteq> 0"
    using assms(1)
    by (auto simp: normalizeServerConfig_Inr server_normal_def or_default_def defaultCompressionAt_def)
  note result = native_handshake [where http_do = http_do, OF dial(1) assms(3-8)]
  show ?thesis
    using result(1) result(2) ns dial(2-4)
    by (auto simp: agreed_compression_def copts_join_def mode_opts_def flateThreshold_def flateContextTakeover_def)
qed

text \<open>An exchange over a network that only adds a header of its own.\<close>

definition example_server :: "unit server_config" where
  "example_server =
     \<lparr>sc_OriginPatterns = [], sc_Subprotocols = [''chat.v2'', ''chat.v1''], sc_MaxMessageBytes = 0,
      sc_MaxConnections = 0, sc_Compression = True, sc_CompressionAt = 1024, sc_CloseTimeout = 0,
      sc_Authenticate = Some (), sc_AllowInsecure = False, sc_AllowAnonymous = False, sc_AllowAnyOrigin = False\<rparr>"

definition example_parses :: "string \<Rightarrow> url option" where
  "example_parses s =
     (if s = ''wss://chat.example:443/ws'' then Some example_url
      else if s = ''https://chat.example:443/ws'' then Some (example_url\<lparr>u_Scheme := ''https''\<rparr>) else None)"

definition example_print :: "url \<Rightarrow> string" where
  "example_print u = u_Scheme u @ ''://'' @ u_Host u @ u_rest u"

definition example_received :: "client_request \<Rightarrow> request" where
  "example_received cr =
     \<lparr>rq_Method = cr_Method cr, rq_ProtoMajor = 1, rq_ProtoMinor = 1, rq_Host = cr_Host cr, rq_RemoteAddr = ''192.0.2.1:5000'',
      rq_TLS = True, rq_Header = (''User-Agent'', [''Go-http-client/1.1'']) # cr_Header cr, rq_Context = background\<rparr>"

definition example_http :: "unicode_tables \<Rightarrow> accept_options \<Rightarrow> http_client \<Rightarrow> client_request \<Rightarrow> dial_response res" where
  "example_http tab ao client cr =
     (let resp = fst (Accept tab example_parses (Hijacker None) [] (example_received cr) (Some ao)) in
      Inr \<lparr>dr_Status = rs_Status resp, dr_Header = rs_Header resp, dr_Writable = True\<rparr>)"

text \<open>The tables of a repertoire in which no letter beyond ASCII has a case.\<close>

definition plain_tables :: unicode_tables where
  "plain_tables = \<lparr>uc_lower = (\<lambda>r. r), uc_fold = (\<lambda>a b. False)\<rparr>"

lemma example_delivered: "delivered cr (example_received cr)"
  by (simp add: delivered_def example_received_def proto_at_least_def carries_def handshake_names_def)

lemma Inr_exists: "\<not> isl r \<Longrightarrow> \<exists>x. r = Inr x"
  by (cases r) simp_all

theorem handshake_agreement_witness:
  "\<exists>ns nc sv cl.
     normalizeServerConfig example_server = Inr ns \<and>
     normalizeClientConfig example_parses example_print (Some example_transport) example_client = Inr nc \<and>
     snd (native_Dial plain_tables example_parses example_print (example_http plain_tables (ns_accept ns)) (Inr (replicate 16 7)) (nc_url nc) (nc_dial nc)) = Inr cl \<and>
     cf_subprotocol cl = ''chat.v1'' \<and> cf_copts cl \<noteq> None \<and> flateThreshold cl = 512"
proof -
  have "\<not> isl (normalizeServerConfig example_server)"
    "\<not> isl (normalizeClientConfig example_parses example_print (Some example_transport) example_client)"
    by code_simp+
  then obtain ns nc where ns: "normalizeServerConfig example_server = Inr ns"
    and nc: "normalizeClientConfig example_parses example_print (Some example_transport) example_client = Inr nc"
    using Inr_exists by metis
  have "\<not> isl (res_bind (normalizeClientConfig example_parses example_print (Some example_transport) example_client)
      (\<lambda>nc. newHandshakeRequest example_parses example_print (nc_url nc) (nc_dial nc)
        (offered (do_CompressionMode (nc_dial nc))) (b64_encode (replicate 16 7))))"
    by code_simp
  then obtain cr where cr: "newHandshakeRequest example_parses example_print (nc_url nc) (nc_dial nc)
        (offered (do_CompressionMode (nc_dial nc))) (b64_encode (replicate 16 7)) = Inr cr"
    using nc Inr_exists by fastforce
  obtain resp result where accept:
    "Accept plain_tables example_parses (Hijacker None) [] (example_received cr) (Some (ns_accept ns)) = (resp, result)"
    by (cases "Accept plain_tables example_parses (Hijacker None) [] (example_received cr) (Some (ns_accept ns))")
  have "agreed_subprotocol plain_tables [''chat.v2'', ''chat.v1''] [''chat.v1''] = ''chat.v1''"
    "length (replicate 16 (7 :: 8 word)) = 16"
    by code_simp+
  then show ?thesis
    using handshake_agreement [where http_do = "example_http plain_tables (ns_accept ns)", OF ns nc _ cr example_delivered accept]
      ns nc
    by (auto simp: example_http_def accept carries_def list.pred_True example_server_def example_client_def)
qed

end
