(* ===== verification/Origin_Policy.thy ===== *)
theory Origin_Policy
  imports Handshake_Laws
begin

text \<open>
  Requests from other origins. The native library matches the patterns in lower case; that a pattern
  is well formed, which the configuration has checked, does not depend on the case of its letters, so
  that no accepted configuration makes the check of an origin fail on its patterns. What an accepted
  list of patterns then lets in is stated exactly, and compared with the promise of the documentation.
\<close>

section \<open>Patterns in lower case\<close>

lemma to_lower_other: "\<not> is_lower x \<Longrightarrow> \<not> is_upper x \<Longrightarrow> to_lower c = x \<longleftrightarrow> c = x"
proof -
  assume "\<not> is_lower x" and "\<not> is_upper x"
  moreover have "is_lower (to_lower c)" if "is_upper c"
  proof -
    have "of_char (to_lower c) = (of_char c + 32 :: nat)"
      using that is_upper_code [of c] by (simp add: to_lower_def)
    then show ?thesis
      using that is_upper_code [of c] by (simp add: is_lower_def less_eq_char_def)
  qed
  ultimately show ?thesis by (auto simp: to_lower_def)
qed

lemma to_lower_special [simp]:
  "to_lower c = CHR ''['' \<longleftrightarrow> c = CHR ''[''" "to_lower c = CHR '']'' \<longleftrightarrow> c = CHR '']''"
  "to_lower c = CHR ''*'' \<longleftrightarrow> c = CHR ''*''" "to_lower c = CHR ''-'' \<longleftrightarrow> c = CHR ''-''"
  "to_lower c = CHR ''^'' \<longleftrightarrow> c = CHR ''^''" "to_lower c = CHR 0x5C \<longleftrightarrow> c = CHR 0x5C"
  "to_lower c = CHR ''/'' \<longleftrightarrow> c = CHR ''/''"
  by (rule to_lower_other; code_simp)+

lemma ascii_to_lower [simp]: "ascii_char (to_lower c) = ascii_char c"
  using is_upper_code [of c] by (auto simp: to_lower_def ascii_char_def)

lemma hd_lower: "s \<noteq> [] \<Longrightarrow> hd (map to_lower s) = to_lower (hd s)"
  by (cases s) auto

lemma get_esc_ascii:
  "list_all ascii_char chunk \<Longrightarrow>
   get_esc chunk =
     (case chunk of
        [] \<Rightarrow> None
      | c # rest \<Rightarrow>
          if c = CHR ''-'' \<or> c = CHR '']'' then None
          else if c = CHR 0x5C then
            (case rest of d # e # rest' \<Rightarrow> Some (of_char d, e # rest') | _ \<Rightarrow> None)
          else (case rest of [] \<Rightarrow> None | e # rest' \<Rightarrow> Some (of_char c, e # rest')))"
proof -
  have "(of_char c :: nat) \<noteq> rune_error" if "ascii_char c" for c
    using that by (simp add: ascii_char_def rune_error_def)
  then show "list_all ascii_char chunk \<Longrightarrow> ?thesis"
    by (auto simp: get_esc_def decode_ascii Let_def split: list.split)
qed

lemma get_esc_lower:
  "list_all ascii_char chunk \<Longrightarrow>
   map_option snd (get_esc (map to_lower chunk)) = map_option (map to_lower \<circ> snd) (get_esc chunk)"
  by (auto simp: get_esc_ascii list_all_iff split: list.split)

lemma get_esc_rest: "list_all ascii_char chunk \<Longrightarrow> get_esc chunk = Some (r, rest) \<Longrightarrow> list_all ascii_char rest \<and> rest \<noteq> []"
  by (auto simp: get_esc_ascii split: list.splits if_splits)

lemma class_ranges_lower:
  "list_all ascii_char chunk \<Longrightarrow>
   map_option fst (class_ranges (map to_lower chunk) r' n f') = map_option (map to_lower \<circ> fst) (class_ranges chunk r n f)"
proof (induction chunk r n f arbitrary: r' f' rule: class_ranges.induct)
  case (1 chunk r n f)
  show ?case
  proof (cases "chunk \<noteq> [] \<and> hd chunk = CHR '']'' \<and> 0 < n")
    case True
    then show ?thesis
      by (simp add: class_ranges.simps [of chunk] class_ranges.simps [of "map to_lower chunk"] hd_lower map_tl)
  next
    case False
    then have False': "\<not> (map to_lower chunk \<noteq> [] \<and> hd (map to_lower chunk) = CHR '']'' \<and> 0 < n)"
      by (cases chunk) simp_all
    note unfolded = class_ranges.simps [of chunk r n f] class_ranges.simps [of "map to_lower chunk" r' n f']
    note lower = get_esc_lower [OF "1.prems"]
    show ?thesis
    proof (cases "get_esc chunk")
      case None
      with lower have "get_esc (map to_lower chunk) = None" by simp
      with None False False' show ?thesis by (simp only: unfolded if_False option.case option.map)
    next
      case (Some x)
      obtain lo chunk1 where x: "x = (lo, chunk1)" by (cases x)
      with Some lower obtain lo' where g: "get_esc chunk = Some (lo, chunk1)"
        "get_esc (map to_lower chunk) = Some (lo', map to_lower chunk1)"
        by auto
      have rest: "list_all ascii_char chunk1" "chunk1 \<noteq> []"
        using get_esc_rest [OF "1.prems" g(1)] by simp_all
      have hd: "hd (map to_lower chunk1) = CHR ''-'' \<longleftrightarrow> hd chunk1 = CHR ''-''"
        using rest(2) by (cases chunk1) simp_all
      show ?thesis
      proof (cases "hd chunk1 = CHR ''-''")
        case no_dash: False
        with "1.IH"(2) [OF False Some x [symmetric] no_dash rest(1)] False False' g rest show ?thesis
          by (simp only: unfolded if_False option.case prod.case hd simp_thms)
      next
        case dash: True
        have tl: "list_all ascii_char (tl chunk1)" "tl (map to_lower chunk1) = map to_lower (tl chunk1)"
          using rest by (cases chunk1; simp)+
        note lower2 = get_esc_lower [OF tl(1)]
        show ?thesis
        proof (cases "get_esc (tl chunk1)")
          case None
          with lower2 have "get_esc (map to_lower (tl chunk1)) = None" by simp
          with None dash False False' g rest tl show ?thesis
            by (simp only: unfolded if_False if_True option.case option.map prod.case hd simp_thms)
        next
          case (Some y)
          obtain hi chunk2 where y: "y = (hi, chunk2)" by (cases y)
          with Some lower2 obtain hi' where g2: "get_esc (tl chunk1) = Some (hi, chunk2)"
            "get_esc (map to_lower (tl chunk1)) = Some (hi', map to_lower chunk2)"
            by auto
          have "list_all ascii_char chunk2"
            using get_esc_rest [OF tl(1) g2(1)] by simp
          with "1.IH"(1) [OF False g(1) refl dash g2(1) refl] dash False False' g g2 rest tl show ?thesis
            by (simp only: unfolded if_False if_True option.case prod.case hd simp_thms)
        qed
      qed
    qed
  qed
qed

lemma class_ranges_rest:
  "list_all ascii_char chunk \<Longrightarrow> class_ranges chunk r n f = Some (rest, m) \<Longrightarrow> list_all ascii_char rest"
proof (induction chunk r n f rule: class_ranges.induct)
  case (1 chunk r n f)
  have tl: "list_all ascii_char (tl xs)" if "list_all ascii_char xs" for xs
    using that by (cases xs) auto
  note unfolded = "1.prems"(2) [unfolded class_ranges.simps [of chunk r n f]]
  show ?case
  proof (cases "chunk \<noteq> [] \<and> hd chunk = CHR '']'' \<and> 0 < n")
    case True
    with unfolded "1.prems"(1) tl show ?thesis by auto
  next
    case False
    then obtain lo chunk1 where g: "get_esc chunk = Some (lo, chunk1)"
      using unfolded by (auto split: option.splits)
    have rest: "list_all ascii_char chunk1" using get_esc_rest [OF "1.prems"(1) g] by simp
    show ?thesis
    proof (cases "hd chunk1 = CHR ''-''")
      case True
      with False g unfolded obtain hi chunk2 where g2: "get_esc (tl chunk1) = Some (hi, chunk2)"
        and rec: "class_ranges chunk2 r (n + 1) (f \<or> lo \<le> r \<and> r \<le> hi) = Some (rest, m)"
        by (auto split: option.splits)
      show ?thesis
        using "1.IH"(1) [OF False g refl True g2 refl _ rec] get_esc_rest [OF tl [OF rest] g2] by simp
    next
      case no_dash: False
      with False g unfolded have "class_ranges chunk1 r (n + 1) (f \<or> lo = r) = Some (rest, m)"
        by (auto split: if_splits)
      then show ?thesis by (rule "1.IH"(2) [OF False g refl no_dash rest])
    qed
  qed
qed

section \<open>Chunks and patterns\<close>

lemma bad_chunk_Cons:
  "bad_chunk (c # chunk) \<longleftrightarrow>
      (if c = CHR ''['' then
         (case class_ranges (class_body chunk) 0 0 False of
            None \<Rightarrow> True | Some (rest, found) \<Rightarrow> bad_chunk rest)
       else if c = CHR 0x5C then chunk = [] \<or> bad_chunk (tl chunk)
       else bad_chunk chunk)"
  unfolding bad_chunk_def [of "c # chunk"] by (rule match_chunk_Cons_bad) (rule match_chunk_None_iff)

lemma class_body_lower: "class_body (map to_lower chunk) = map to_lower (class_body chunk)"
  by (cases chunk) (auto simp: class_body_def)

lemma class_body_ascii: "list_all ascii_char chunk \<Longrightarrow> list_all ascii_char (class_body chunk)"
  by (cases chunk) (auto simp: class_body_def)

lemma bad_chunk_lower: "list_all ascii_char chunk \<Longrightarrow> bad_chunk (map to_lower chunk) = bad_chunk chunk"
proof (induction chunk rule: length_induct)
  case (1 chunk)
  show ?case
  proof (cases chunk)
    case (Cons c rest)
    have ascii: "list_all ascii_char rest" using 1(2) Cons by simp
    have IH: "bad_chunk (map to_lower xs) = bad_chunk xs" if "length xs \<le> length rest" "list_all ascii_char xs" for xs
      using 1(1) that Cons by simp
    have tl: "bad_chunk (map to_lower (tl rest)) = bad_chunk (tl rest)"
      using ascii by (cases rest) (simp_all add: IH)
    have cls: "(case class_ranges (class_body (map to_lower rest)) 0 0 False of
          None \<Rightarrow> True | Some (xs, found) \<Rightarrow> bad_chunk xs) =
        (case class_ranges (class_body rest) 0 0 False of None \<Rightarrow> True | Some (xs, found) \<Rightarrow> bad_chunk xs)"
    proof (cases "class_ranges (class_body rest) 0 0 False")
      case None
      then show ?thesis
        using class_ranges_lower [OF class_body_ascii [OF ascii], of 0 0 False 0 False] by (simp add: class_body_lower)
    next
      case (Some y)
      then obtain xs found where y: "class_ranges (class_body rest) 0 0 False = Some (xs, found)" by (cases y) simp
      then obtain found' where l: "class_ranges (class_body (map to_lower rest)) 0 0 False = Some (map to_lower xs, found')"
        using class_ranges_lower [OF class_body_ascii [OF ascii], of 0 0 False 0 False] by (auto simp: class_body_lower)
      have "length xs \<le> length rest"
        using class_ranges_shorter [OF y] by (auto simp: class_body_def split: if_splits)
      with IH class_ranges_rest [OF class_body_ascii [OF ascii] y] y l show ?thesis by simp
    qed
    show ?thesis
      using tl cls IH [OF le_refl ascii] unfolding Cons
      by (simp add: bad_chunk_Cons [of c rest] bad_chunk_Cons [of "to_lower c" "map to_lower rest"] map_tl [symmetric])
  qed simp
qed

lemma scan_len_lower: "scan_len inrange (map to_lower p) = scan_len inrange p"
  by (induction inrange p rule: scan_len.induct) (auto split: list.split)

lemma scan_chunk_lower:
  "scan_chunk p = (star, chunk, rest) \<Longrightarrow> scan_chunk (map to_lower p) = (star, map to_lower chunk, map to_lower rest)"
proof -
  have drop: "dropWhile (\<lambda>c. c = CHR ''*'') (map to_lower p) = map to_lower (dropWhile (\<lambda>c. c = CHR ''*'') p)"
    by (simp add: dropWhile_map o_def)
  have "map to_lower (dropWhile P p) = map to_lower p \<longleftrightarrow> dropWhile P p = p" for P
    by (metis suffix_dropWhile suffix_order.order_iff_strict suffix_length_less length_map less_irrefl)
  with drop show "scan_chunk p = (star, chunk, rest) \<Longrightarrow> ?thesis"
    by (auto simp: scan_chunk_def Let_def scan_len_lower take_map drop_map)
qed

lemma scan_chunk_ascii:
  "list_all ascii_char p \<Longrightarrow> scan_chunk p = (star, chunk, rest) \<Longrightarrow> list_all ascii_char chunk \<and> list_all ascii_char rest"
  by (auto simp: scan_chunk_def Let_def list_all_iff dest!: in_set_takeD in_set_dropD set_dropWhileD)

lemma check_rest_lower: "list_all ascii_char p \<Longrightarrow> check_rest (map to_lower p) = check_rest p"
proof (induction p rule: check_rest.induct)
  case (1 p)
  show ?case
  proof (cases "p = []")
    case False
    obtain star chunk rest where sc: "scan_chunk p = (star, chunk, rest)" by (cases "scan_chunk p")
    note ascii = scan_chunk_ascii [OF "1.prems" sc]
    have "check_rest (map to_lower p) =
        (if bad_chunk (map to_lower chunk) then None else check_rest (map to_lower rest))"
      using False scan_chunk_lower [OF sc] by (simp add: check_rest.simps [of "map to_lower p"] bad_chunk_def)
    moreover have "check_rest p = (if bad_chunk chunk then None else check_rest rest)"
      using False sc by (simp add: check_rest.simps [of p] bad_chunk_def)
    moreover have "\<not> bad_chunk chunk \<Longrightarrow> check_rest (map to_lower rest) = check_rest rest"
      using "1.IH" [OF False sc [symmetric] refl] ascii by (simp add: bad_chunk_def)
    ultimately show ?thesis using bad_chunk_lower ascii by simp
  qed simp
qed

section \<open>Who is let in\<close>

definition origin_target :: "string \<Rightarrow> url \<Rightarrow> string" where
  "origin_target hostPattern u =
     (if contains hostPattern ''://'' then u_Scheme u @ ''://'' @ u_Host u else u_Host u)"

lemma match_origin_defined:
  "list_all ascii_char p \<Longrightarrow> check_rest p \<noteq> None \<Longrightarrow> match_origin tab p s \<noteq> None"
  by (simp only: match_origin_def str_lower_ascii path_match_bad_iff check_rest_lower not_False_eq_True)

lemma origin_authorized_Cons:
  "match_origin tab p (origin_target p u) = Some m \<Longrightarrow>
   origin_authorized tab u (p # ps) = (if m then Inr True else origin_authorized tab u ps)"
  by (simp add: origin_target_def)

lemma origin_authorized_ex:
  "list_all (\<lambda>p. match_origin tab p (origin_target p u) \<noteq> None) ps \<Longrightarrow>
   origin_authorized tab u ps = Inr (list_ex (\<lambda>p. match_origin tab p (origin_target p u) = Some True) ps)"
  by (induction ps) (auto simp: origin_authorized_Cons simp del: origin_authorized.simps(2))

text \<open>The requests that the policy of a configuration lets in, by their \<open>Origin\<close>.\<close>

definition origin_allowed :: "unicode_tables \<Rightarrow> (string \<Rightarrow> url option) \<Rightarrow> 'a server_config \<Rightarrow> request \<Rightarrow> bool" where
  "origin_allowed tab parse_url sc rq =
     (sc_AllowAnyOrigin sc \<or>
      header_get (rq_Header rq) ''Origin'' = [] \<or>
      (case parse_url (header_get (rq_Header rq) ''Origin'') of
         None \<Rightarrow> False
       | Some u \<Rightarrow>
           equal_fold tab (rq_Host rq) (u_Host u) \<or>
           list_ex (\<lambda>p. match_origin tab p (origin_target p u) = Some True) (sc_OriginPatterns sc)))"

definition origin_error :: "unicode_tables \<Rightarrow> (string \<Rightarrow> url option) \<Rightarrow> request \<Rightarrow> accept_options \<Rightarrow> go_error option" where
  "origin_error tab parse_url rq ao =
     (if ao_InsecureSkipVerify ao then None else authenticateOrigin tab parse_url rq (ao_OriginPatterns ao))"

lemma authenticateOrigin_allowed:
  assumes "normalizeServerConfig sc = Inr ns" and "list_all (list_all ascii_char) (sc_OriginPatterns sc)"
  shows "origin_error tab parse_url rq (ns_accept ns) = None \<longleftrightarrow> origin_allowed tab parse_url sc rq"
proof -
  have valid: "origins_valid (sc_OriginPatterns sc) (sc_AllowAnyOrigin sc)"
    and ns: "ao_OriginPatterns (ns_accept ns) = sort (sc_OriginPatterns sc)"
      "ao_InsecureSkipVerify (ns_accept ns) = sc_AllowAnyOrigin sc"
    using assms(1) by (simp_all add: normalizeServerConfig_Inr server_valid_def server_normal_def)
  have "match_origin tab p s \<noteq> None" if "p \<in> set (sc_OriginPatterns sc)" for p s
    using valid assms(2) that by (intro match_origin_defined) (auto simp: origins_valid_def origin_ok_def list_all_iff)
  then have "origin_authorized tab u (sort (sc_OriginPatterns sc)) =
      Inr (list_ex (\<lambda>p. match_origin tab p (origin_target p u) = Some True) (sc_OriginPatterns sc))" for u
    by (subst origin_authorized_ex) (simp_all add: list_all_iff list_ex_iff)
  then show ?thesis
    by (auto simp: origin_error_def ns authenticateOrigin_def origin_allowed_def Let_def split: option.split bool.split)
qed

lemma Accept_by_origin:
  assumes "fst (verifyClientRequest tab w rq) = None"
  shows "rs_Status (fst (Accept tab parse_url (Hijacker None) w rq (Some ao))) = (if origin_error tab parse_url rq ao = None then 101 else 403)"
    and "isl (snd (Accept tab parse_url (Hijacker None) w rq (Some ao))) = (origin_error tab parse_url rq ao \<noteq> None)"
proof -
  obtain w' where "verifyClientRequest tab w rq = (None, w')"
    using assms by (cases "verifyClientRequest tab w rq") simp
  note unfolded = this Accept_def accept_conn_def accept_defaults_def origin_error_def [symmetric] http_error_def Let_def
  show "rs_Status (fst (Accept tab parse_url (Hijacker None) w rq (Some ao))) = (if origin_error tab parse_url rq ao = None then 101 else 403)"
    and "isl (snd (Accept tab parse_url (Hijacker None) w rq (Some ao))) = (origin_error tab parse_url rq ao \<noteq> None)"
    by (cases "origin_error tab parse_url rq ao"; simp add: unfolded split: prod.split)+
qed

text \<open>
  C7. Which requests from other origins get in. With an accepted server configuration whose patterns are ASCII,
  a well-formed handshake is upgraded exactly if any origin is allowed, or it names no origin, or its origin is
  the host that it asks for, or the origin matches one of the patterns of the configuration; otherwise it is
  refused with status 403. In particular no pattern fails at this point: the check of the configuration
  is made on the pattern as written, the match on the pattern in lower case.
\<close>

theorem cross_origin_policy:
  assumes "normalizeServerConfig sc = Inr ns" and "list_all (list_all ascii_char) (sc_OriginPatterns sc)"
    and "fst (verifyClientRequest tab w rq) = None"
    and "Accept tab parse_url (Hijacker None) w rq (Some (ns_accept ns)) = (resp, result)"
  shows "if origin_allowed tab parse_url sc rq then rs_Status resp = 101 \<and> \<not> isl result
    else rs_Status resp = 403 \<and> isl result"
  using Accept_by_origin [OF assms(3), of parse_url "ns_accept ns"] authenticateOrigin_allowed [OF assms(1,2), of tab parse_url rq]
    assms(4) by auto

text \<open>A browser on \<open>app.example.com\<close> and one on another host, at a server that allows the former.\<close>

definition pattern_server :: "string list \<Rightarrow> unit server_config" where
  "pattern_server patterns =
     \<lparr>sc_OriginPatterns = patterns, sc_Subprotocols = [], sc_MaxMessageBytes = 0, sc_MaxConnections = 0,
      sc_Compression = False, sc_CompressionAt = 0, sc_CloseTimeout = 0, sc_Authenticate = None,
      sc_AllowInsecure = False, sc_AllowAnonymous = True, sc_AllowAnyOrigin = False\<rparr>"

definition browser_request :: "string \<Rightarrow> request" where
  "browser_request origin =
     \<lparr>rq_Method = ''GET'', rq_ProtoMajor = 1, rq_ProtoMinor = 1, rq_Host = ''chat.example.com'', rq_RemoteAddr = ''192.0.2.1:5000'',
      rq_TLS = True,
      rq_Header =
        [(''Connection'', [''keep-alive, Upgrade'']), (''Upgrade'', [''websocket'']), (''Origin'', [origin]),
         (''Sec-Websocket-Version'', [''13'']), (''Sec-Websocket-Key'', [''dGhlIHNhbXBsZSBub25jZQ==''])],
      rq_Context = background\<rparr>"

definition origin_url :: "string \<Rightarrow> url option" where
  "origin_url s =
     (if has_prefix s ''https://'' then
        Some \<lparr>u_Scheme = ''https'', u_User = None, u_Host = drop 8 s, u_Fragment = [], u_rest = []\<rparr>
      else None)"

theorem cross_origin_policy_witness:
  "\<exists>ns. normalizeServerConfig (pattern_server [''*.Example.com'']) = Inr ns \<and>
     rs_Status (fst (Accept plain_tables origin_url (Hijacker None) [] (browser_request ''https://app.example.COM'') (Some (ns_accept ns)))) = 101 \<and>
     rs_Status (fst (Accept plain_tables origin_url (Hijacker None) [] (browser_request ''https://app.example.org'') (Some (ns_accept ns)))) = 403"
proof -
  have "\<not> isl (normalizeServerConfig (pattern_server [''*.Example.com'']))"
    by code_simp
  then obtain ns where ns: "normalizeServerConfig (pattern_server [''*.Example.com'']) = Inr ns"
    using Inr_exists by blast
  have ascii: "list_all (list_all ascii_char) (sc_OriginPatterns (pattern_server [''*.Example.com'']))"
    by code_simp
  have verified: "fst (verifyClientRequest plain_tables [] (browser_request ''https://app.example.COM'')) = None"
    "fst (verifyClientRequest plain_tables [] (browser_request ''https://app.example.org'')) = None"
    by code_simp+
  have allowed: "origin_allowed plain_tables origin_url (pattern_server [''*.Example.com'']) (browser_request ''https://app.example.COM'')"
    "\<not> origin_allowed plain_tables origin_url (pattern_server [''*.Example.com'']) (browser_request ''https://app.example.org'')"
    by code_simp+
  show ?thesis
    using ns cross_origin_policy [OF ns ascii verified(1) surjective_pairing, of origin_url]
      cross_origin_policy [OF ns ascii verified(2) surjective_pairing, of origin_url] allowed
    by simp
qed

section \<open>Any origin without saying so\<close>

text \<open>
  The configuration rejects the pattern \<open>*\<close>, because any origin has to be asked for with
  \<open>AllowAnyOrigin\<close>, and that requires authentication. Two asterisks mean the same to
  \<open>path.Match\<close>, and pass.
\<close>

lemma path_match_stars: "path_match ''**'' name = Some (CHR ''/'' \<notin> set name)"
  by (simp add: path_match.simps [of "''**''"] scan_chunk_def Let_def)

definition host_char :: "char \<Rightarrow> bool" where
  "host_char c = (ascii_char c \<and> c \<noteq> CHR ''/'')"

lemma stars_match_host: "list_all host_char s \<Longrightarrow> match_origin tab ''**'' s = Some True"
proof -
  assume host: "list_all host_char s"
  have "str_lower tab ''**'' = ''**''"
    by (subst str_lower_ascii; code_simp)
  moreover have "CHR ''/'' \<notin> set (str_lower tab s)"
  proof -
    have ascii: "list_all ascii_char s" and slash: "\<forall>c \<in> set s. c \<noteq> CHR ''/''"
      using host by (simp_all add: list_all_iff host_char_def)
    from slash have "\<forall>c \<in> set s. to_lower c \<noteq> CHR ''/''" by (simp only: to_lower_special)
    then show ?thesis unfolding str_lower_ascii [OF ascii] by (metis imageE list.set_map)
  qed
  ultimately show ?thesis by (simp add: match_origin_def path_match_stars)
qed

text \<open>
  C38. A server that has not been configured with \<open>AllowAnyOrigin\<close>, and that admits anonymous clients, can
  still be open to every origin: the configuration with the one pattern of two asterisks is accepted, and with it
  a well-formed handshake is upgraded whatever host its origin names.
\<close>

theorem double_star_admits_any_origin:
  assumes "fst (verifyClientRequest tab w rq) = None"
    and "parse_url (header_get (rq_Header rq) ''Origin'') = Some u" and "list_all host_char (u_Host u)"
  shows "\<exists>ns. normalizeServerConfig (pattern_server [''**'']) = Inr ns \<and>
    ns_authenticate ns = None \<and> \<not> ao_InsecureSkipVerify (ns_accept ns) \<and>
    rs_Status (fst (Accept tab parse_url (Hijacker None) w rq (Some (ns_accept ns)))) = 101 \<and>
    \<not> isl (snd (Accept tab parse_url (Hijacker None) w rq (Some (ns_accept ns))))"
proof -
  have "\<not> isl (normalizeServerConfig (pattern_server [''**'']))"
    by code_simp
  then obtain ns where ns: "normalizeServerConfig (pattern_server [''**'']) = Inr ns"
    using Inr_exists by blast
  then have fields: "ns_authenticate ns = None" "\<not> ao_InsecureSkipVerify (ns_accept ns)"
    by (auto simp: normalizeServerConfig_Inr server_normal_def pattern_server_def)
  have "\<not> contains ''**'' ''://''"
    by code_simp
  then have "origin_allowed tab parse_url (pattern_server [''**'']) rq"
    using assms(2) stars_match_host [OF assms(3)]
    by (simp add: origin_allowed_def pattern_server_def origin_target_def)
  moreover have "list_all (list_all ascii_char) (sc_OriginPatterns (pattern_server [''**'']))"
    by code_simp
  ultimately have "origin_error tab parse_url rq (ns_accept ns) = None"
    using authenticateOrigin_allowed [OF ns] by blast
  then show ?thesis
    using ns fields Accept_by_origin [OF assms(1), of parse_url "ns_accept ns"] by simp
qed

theorem double_star_admits_any_origin_witness:
  "\<exists>ns. normalizeServerConfig (pattern_server [''**'']) = Inr ns \<and>
     rs_Status (fst (Accept plain_tables origin_url (Hijacker None) [] (browser_request ''https://evil.example'') (Some (ns_accept ns)))) = 101"
proof -
  have verified: "fst (verifyClientRequest plain_tables [] (browser_request ''https://evil.example'')) = None"
    by code_simp
  have "origin_url (header_get (rq_Header (browser_request ''https://evil.example'')) ''Origin'') =
      Some \<lparr>u_Scheme = ''https'', u_User = None, u_Host = ''evil.example'', u_Fragment = [], u_rest = []\<rparr>"
    "list_all host_char ''evil.example''"
    by code_simp+
  with double_star_admits_any_origin [OF verified, of origin_url] show ?thesis by fastforce
qed

end
