(* ===== verification/End_To_End.thy ===== *)
theory End_To_End
  imports Handshake_Laws Client Message_Transfer
begin

text \<open>
  The whole program from one application to the other: \<open>ServeHTTP\<close> on the native \<open>Accept\<close> and the
  native connection, and \<open>Dial\<close> on the native \<open>Dial\<close>.
\<close>

section \<open>The starter on the native handshakes\<close>

text \<open>
  What \<open>ServeHTTP\<close> gets from \<open>nativews.Accept\<close>, whose response writer has no headers yet, and what \<open>Dial\<close>
  gets from \<open>nativews.Dial\<close>. \<open>net\<close> is the network of the new connection.
\<close>

definition ws_accept ::
  "unicode_tables \<Rightarrow> (string \<Rightarrow> url option) \<Rightarrow> hijacker \<Rightarrow> wsconn \<Rightarrow> request \<Rightarrow> accept_options \<Rightarrow> wsconn res" where
  "ws_accept tab parse_url hj net rq opts =
     res_bind (snd (Accept tab parse_url hj [] rq (Some opts))) (\<lambda>cfg. Inr (newConn cfg net))"

definition ws_dial ::
  "unicode_tables \<Rightarrow> (string \<Rightarrow> url option) \<Rightarrow> (url \<Rightarrow> string) \<Rightarrow> (http_client \<Rightarrow> client_request \<Rightarrow> dial_response res) \<Rightarrow>
   bytes res \<Rightarrow> wsconn \<Rightarrow> ctx \<Rightarrow> string \<Rightarrow> dial_options \<Rightarrow> dial_response option \<times> wsconn res \<times> ctx" where
  "ws_dial tab parse_url url_string http_do rr net c urls opts =
     (let (resp, r) = native_Dial tab parse_url url_string http_do rr urls opts in
      (resp, res_bind r (\<lambda>cfg. Inr (newConn cfg net)), c))"

section \<open>Messages between two new connections\<close>

text \<open>A network over which nothing has been written yet, and whose writes succeed, with a flate library.\<close>

definition open_net :: "flate_lib \<Rightarrow> wsconn \<Rightarrow> bool" where
  "open_net lib net =
     (c_werr net = None \<and> c_werrs net = [] \<and> 0 < c_bwsize net \<and> c_sent net = [] \<and> c_buffered net = [] \<and>
      fs_lib (c_fl net) = lib)"

text \<open>An application that writes messages until one fails, and one that reads so many.\<close>

fun write_messages :: "(int \<times> bytes) list \<Rightarrow> wsconn connection \<Rightarrow> wsconn connection option" where
  "write_messages [] conn = Some conn"
| "write_messages ((t, p) # ms) conn =
     (case Write ws_ops (Some background) t p (Some conn) of
        (None, Some conn') \<Rightarrow> write_messages ms conn'
      | _ \<Rightarrow> None)"

fun read_messages :: "nat \<Rightarrow> wsconn connection \<Rightarrow> ((int \<times> bytes) list \<times> wsconn connection) option" where
  "read_messages 0 conn = Some ([], conn)"
| "read_messages (Suc k) conn =
     (case Read ws_ops (Some background) (Some conn) of
        (Inr m, Some conn') \<Rightarrow> map_option (\<lambda>(ms, h). (m # ms, h)) (read_messages k conn')
      | _ \<Rightarrow> None)"

definition fits :: "int \<Rightarrow> int \<times> bytes \<Rightarrow> bool" where
  "fits l m = ((fst m = MessageText \<or> fst m = MessageBinary) \<and> int (length (snd m)) \<le> l)"

text \<open>
  Every write at one connection succeeds, and if what it has sent is what the other is going to receive first,
  the reads there return the same messages in the same order and leave the rest.
\<close>

definition crosses :: "(int \<times> bytes) list \<Rightarrow> wsconn connection \<Rightarrow> wsconn connection \<Rightarrow> bool" where
  "crosses ms ca cb =
     (\<exists>ca' a' b. write_messages ms ca = Some ca' \<and> native ca' = Some a' \<and> native cb = Some b \<and>
       (\<forall>rest. length (written a') < 2 ^ 63 \<longrightarrow> c_in b = written a' @ rest \<longrightarrow>
         (\<exists>cb' b'. read_messages (length ms) cb = Some (ms, cb') \<and> native cb' = Some b' \<and> c_in b' = rest)))"

lemma Write_native:
  assumes "native ca = Some a" "fits (maxMessage ca) (t, p)"
  shows "Write ws_ops (Some background) t p (Some ca) =
    (let (r, a') = conn_Write (tctx_of (c_now a) background) t p a in
     (case r of Inl e \<Rightarrow> Some (sanitizeConnectionError ''write WebSocket message'' (ctx_at (c_now a) (c_now a') background) e) | Inr u \<Rightarrow> None,
      Some (ca\<lparr>native := Some a'\<rparr>)))"
  using assms
  by (auto simp: Write_def valid_conn_def ws_ops_def fits_def split: sum.split prod.split)

lemma Write_live:
  assumes "native ca = Some a" "can_write a" "fits (maxMessage ca) (t, p)"
  shows "\<exists>a' w. Write ws_ops (Some background) t p (Some ca) = (None, Some (ca\<lparr>native := Some a'\<rparr>)) \<and>
    conn_Write (tctx_of (c_now a) background) t p a = (Inr (), a') \<and> can_write a' \<and> written a' = written a @ w \<and>
    c_buffered a' = [] \<and> fs_lib (c_fl a') = fs_lib (c_fl a)"
proof -
  have t: "t = opText \<or> t = opBinary"
    using assms(3) by (auto simp: fits_def opcode_defs MessageText_def MessageBinary_def)
  obtain a' where "conn_Write (tctx_of (c_now a) background) t p a = (Inr (), a')" "can_write a'"
      "c_sent a' = written a @ wire (c_client a) (compresses a p) (fst (next_key a)) t (packed a p)" "c_buffered a' = []"
      "c_fl a' = after_write a p"
    using conn_Write_written [OF live_background assms(2) t] by blast
  then show ?thesis
    by (simp add: Write_native [OF assms(1,3)] written_def after_write_def)
qed

lemma write_messages_live:
  "native ca = Some a \<Longrightarrow> can_write a \<Longrightarrow> list_all (fits (maxMessage ca)) ms \<Longrightarrow>
   \<exists>ca' a' w. write_messages ms ca = Some ca' \<and> native ca' = Some a' \<and> written a' = written a @ w"
proof (induction ms arbitrary: ca a)
  case (Cons m ms)
  obtain t p where m: "m = (t, p)" by (cases m)
  obtain a1 w where "Write ws_ops (Some background) t p (Some ca) = (None, Some (ca\<lparr>native := Some a1\<rparr>))" "can_write a1"
      "written a1 = written a @ w"
    using Write_live [OF Cons.prems(1,2)] Cons.prems(3) m by fastforce
  then show ?case using Cons.IH [of "ca\<lparr>native := Some a1\<rparr>" a1] Cons.prems(3) m by fastforce
qed simp

lemma messages_cross:
  assumes "native ca = Some a" "can_write a" "list_all (fits (maxMessage ca)) ms" "maxMessage ca \<le> maxMessageBytes"
    and "native cb = Some b" "can_read b" "list_all (fits (ws_limit b)) ms" "in_sync a b" "flate_ok (fs_lib (c_fl a))"
    and "write_messages ms ca = Some ca'" "native ca' = Some a'" "length (written a') < 2 ^ 63"
    and "c_in b = drop (length (written a)) (written a') @ rest"
  shows "\<exists>cb' b'. read_messages (length ms) cb = Some (ms, cb') \<and> native cb' = Some b' \<and> c_in b' = rest"
  using assms
proof (induction ms arbitrary: ca a cb b)
  case (Cons m ms)
  obtain t p where m: "m = (t, p)" by (cases m)
  have fit: "fits (maxMessage ca) (t, p)" "fits (ws_limit b) (t, p)" using Cons.prems(3,7) m by simp_all
  obtain a1 w where w: "Write ws_ops (Some background) t p (Some ca) = (None, Some (ca\<lparr>native := Some a1\<rparr>))"
      "conn_Write (tctx_of (c_now a) background) t p a = (Inr (), a1)" "can_write a1" "written a1 = written a @ w"
      "c_buffered a1 = []" "fs_lib (c_fl a1) = fs_lib (c_fl a)"
    using Write_live [OF Cons.prems(1,2) fit(1)] by blast
  let ?ca1 = "ca\<lparr>native := Some a1\<rparr>"
  have more: "write_messages ms ?ca1 = Some ca'" using Cons.prems(10) w(1) m by simp
  obtain w' where w': "written a' = written a1 @ w'"
    using write_messages_live [of ?ca1 a1 ms] more w(3) Cons.prems(3,11) by auto
  have sent: "c_sent a1 = written a1" using w(5) by (simp add: written_def)
  have t: "t = opText \<or> t = opBinary"
    using fit(1) by (auto simp: fits_def opcode_defs MessageText_def MessageBinary_def)
  have "length p < 2 ^ 63" "int (length p) < lr_limit b"
    using fit Cons.prems(4) by (auto simp: fits_def ws_limit_def maxMessageBytes_def)
  moreover have "length (c_sent a1) < 2 ^ 63" "c_in b = drop (length (written a)) (c_sent a1) @ w' @ rest"
    using sent w' w(4) Cons.prems(12,13) by simp_all
  ultimately obtain b1 where b1: "conn_Read (tctx_of (c_now b) background) b = (Inr (t, p), b1)" "c_in b1 = w' @ rest"
      "can_read b1" "in_sync a1 b1"
    using conn_transfer [OF Cons.prems(8,9) t live_background Cons.prems(2) live_background [of "c_now b"] Cons.prems(6) _ w(2)]
    by blast
  let ?cb1 = "cb\<lparr>native := Some b1\<rparr>"
  have read: "Read ws_ops (Some background) (Some cb) = (Inr (t, p), Some ?cb1)"
    using b1(1) Cons.prems(5) by (simp add: Read_def valid_conn_def ws_ops_def)
  have "ws_limit b1 = ws_limit b" using ws_moves [OF conn_Read_moves(1) [OF b1(1)]] by simp
  then have "\<exists>cb' b'. read_messages (length ms) ?cb1 = Some (ms, cb') \<and> native cb' = Some b' \<and> c_in b' = rest"
    using Cons.prems(3,4,7,9,11,12) b1 w(3,6) w' more by (intro Cons.IH [of ?ca1 a1 ?cb1 b1]) simp_all
  then show ?case using read m by auto
qed (simp add: write_messages_live)

lemma new_sync:
  assumes "cf_client cb = (\<not> cf_client ca)" "cf_copts cb = cf_copts ca" "fs_lib (c_fl nb) = fs_lib (c_fl na)"
  shows "in_sync (SetReadLimit la (newConn ca na)) (SetReadLimit lb (newConn cb nb))"
  using assms by (simp add: in_sync_def SetReadLimit_def newConn_def new_flate_def window_def history_def last_n_def)

lemma new_crosses:
  assumes nets: "open_net lib na" "open_net lib nb" and lib: "flate_ok lib"
    and cf: "cf_client cb = (\<not> cf_client ca)" "cf_copts cb = cf_copts ca"
    and ms: "list_all (fits la) ms" "la \<le> maxMessageBytes" "list_all (fits lb) ms" "0 \<le> lb"
  shows "crosses ms (newConnection ws_ops (newConn ca na) la) (newConnection ws_ops (newConn cb nb) lb)"
proof -
  let ?a = "SetReadLimit la (newConn ca na)" and ?b = "SetReadLimit lb (newConn cb nb)"
  let ?ca = "newConnection ws_ops (newConn ca na) la" and ?cb = "newConnection ws_ops (newConn cb nb) lb"
  have nat: "native ?ca = Some ?a" "maxMessage ?ca = la" "native ?cb = Some ?b"
    by (simp_all add: newConnection_def ws_ops_def)
  have a: "can_write ?a" "written ?a = []" "fs_lib (c_fl ?a) = lib"
    using nets(1) by (simp_all add: can_write_def written_def SetReadLimit_def newConn_def open_net_def new_flate_def)
  have b: "can_read ?b" "ws_limit ?b = lb"
    using ms(4) by (simp_all add: can_read_def SetReadLimit_def newConn_def ws_limit_def)
  have sync: "in_sync ?a ?b"
    using new_sync [OF cf] nets by (simp add: open_net_def)
  obtain ca' a' where w: "write_messages ms ?ca = Some ca'" "native ca' = Some a'"
    using write_messages_live [OF nat(1) a(1)] ms(1) nat(2) by metis
  have "\<exists>cb' b'. read_messages (length ms) ?cb = Some (ms, cb') \<and> native cb' = Some b' \<and> c_in b' = rest"
    if "length (written a') < 2 ^ 63" "c_in ?b = written a' @ rest" for rest
    using messages_cross [OF nat(1) a(1) _ _ nat(3) b(1) _ sync _ w that(1)] that(2) ms nat(2) a(2,3) b(2) lib by simp
  then show ?thesis using w nat(3) unfolding crosses_def by blast
qed

section \<open>Two applications\<close>

lemma normalized_limit:
  "normalizeClientConfig parse_url url_string tr cc = Inr nc \<Longrightarrow> normalizeMessageLimit (cc_MaxMessageBytes cc) = Inr (nc_maxMessage nc)"
  by (auto elim!: normalizeClientConfig_InrE)

lemma limit_bounded: "normalizeMessageLimit l = Inr m \<Longrightarrow> 0 \<le> m \<and> m \<le> maxMessageBytes"
  by (auto simp: normalizeMessageLimit_Inr or_default_def limit_defs)

lemma or_default_bounds: "0 < d \<Longrightarrow> d \<le> m \<Longrightarrow> 0 \<le> x \<Longrightarrow> x \<le> m \<Longrightarrow> 0 < or_default d x \<and> or_default d x \<le> m"
  by (simp add: or_default_def)

lemma NewHandler_Inr:
  assumes "NewHandler sc False obs = Inr hdl"
  shows "normalizeServerConfig sc = Inr (hd_config hdl)" and "hd_slots hdl < hd_capacity hdl"
    and "0 \<le> ns_maxMessage (hd_config hdl)" and "ns_maxMessage (hd_config hdl) \<le> maxMessageBytes"
proof -
  have made: "normalizeServerConfig sc = Inr (hd_config hdl)" "hd_slots hdl = 0"
    "hd_capacity hdl = ns_maxConnections (hd_config hdl)"
    using assms by (auto simp: NewHandler_def res_bind_Inr unless_Inr)
  then show "normalizeServerConfig sc = Inr (hd_config hdl)" by simp
  have "server_valid sc" "hd_config hdl = server_normal sc"
    using made(1) by (simp_all add: normalizeServerConfig_Inr)
  then have "0 \<le> sc_MaxMessageBytes sc" "sc_MaxMessageBytes sc \<le> maxMessageBytes"
      "0 \<le> sc_MaxConnections sc" "sc_MaxConnections sc \<le> maxConnections"
    and fields: "ns_maxMessage (hd_config hdl) = or_default defaultMaxMessageBytes (sc_MaxMessageBytes sc)"
      "ns_maxConnections (hd_config hdl) = or_default defaultMaxConnections (sc_MaxConnections sc)"
    by (simp_all add: server_valid_def server_normal_def)
  then show "hd_slots hdl < hd_capacity hdl" "0 \<le> ns_maxMessage (hd_config hdl)" "ns_maxMessage (hd_config hdl) \<le> maxMessageBytes"
    using or_default_bounds [of defaultMaxMessageBytes maxMessageBytes "sc_MaxMessageBytes sc"]
      or_default_bounds [of defaultMaxConnections maxConnections "sc_MaxConnections sc"] made(2,3)
    by (simp_all add: limit_defs)
qed

lemma ServeHTTP_upgraded:
  assumes "fst (admission hdl rq) = None" and "hd_slots hdl < hd_capacity hdl"
    and "env_Accept env rq (ns_accept (hd_config hdl)) = Inr n"
  shows "\<exists>h log fs. ServeHTTP ops env (Some hdl) (Some rq) = (Some hdl, h, log) \<and>
    Began \<lparr>in_Direction = DirectionServer,
           in_Subprotocol = Subprotocol ops (Some (newConnection ops n (ns_maxMessage (hd_config hdl))))\<rparr> fs \<in> set log"
  using assms
  by (auto simp: ServeHTTP_def run_session_def Let_def split: prod.splits)

lemma new_subprotocol: "Subprotocol ws_ops (Some (newConnection ws_ops (newConn cfg net) l)) = cf_subprotocol cfg"
  by (simp add: Subprotocol_def valid_conn_def newConnection_def ws_ops_def SetReadLimit_def newConn_def)

text \<open>
  C5. Two applications of the starter can talk to each other. Take a handler that \<open>NewHandler\<close> has made and a
  client configuration that \<open>Dial\<close> accepts, each with compression or without, over networks that accept what is
  written, a flate library that keeps what it documents, and an HTTP exchange that delivers method, protocol version and
  the headers of the handshake. If the admission policy lets the request in, then \<open>Dial\<close> returns a connection and
  \<open>ServeHTTP\<close> runs a session; the observers on both sides are told the same subprotocol, the first of the server that
  the client has offered; the handler has its counters back afterwards; and any sequence of messages in either direction,
  of any sizes within the limits of both, is read at the other side as it was written.
\<close>

theorem applications_connect:
  assumes handler: "NewHandler sc False sobs = Inr hdl"
    and client: "normalizeClientConfig (ce_parse cenv) (ce_string cenv) (ce_transport cenv) cc = Inr nc"
      "validateObservers cobs = None"
    and flate: "flate_ok lib"
    and native: "env_Accept env = ws_accept tab (ce_parse cenv) (Hijacker None) snet"
      "ce_Dial cenv = ws_dial tab (ce_parse cenv) (ce_string cenv) http_do (Inr b) cnet" "length b = 16"
    and nets: "open_net lib snet" "open_net lib cnet"
    and request: "newHandshakeRequest (ce_parse cenv) (ce_string cenv) (nc_url nc) (nc_dial nc)
        (offered (do_CompressionMode (nc_dial nc))) (b64_encode b) = Inr cr" "delivered cr rq"
    and answer: "Accept tab (ce_parse cenv) (Hijacker None) [] rq (Some (ns_accept (hd_config hdl))) = (resp, result)"
      "http_do (do_HTTPClient (nc_dial nc)) cr =
        Inr \<lparr>dr_Status = rs_Status resp, dr_Header = answered, dr_Writable = True\<rparr>" "carries (rs_Header resp) answered"
    and admitted: "fst (admission hdl rq) = None"
    and messages: "list_all (fits (ns_maxMessage (hd_config hdl))) ms" "list_all (fits (nc_maxMessage nc)) ms"
  shows "\<exists>response sess n h log fs.
    Dial ws_ops cenv (Some c) cc cobs = (response, Inr sess) \<and>
    env_Accept env rq (ns_accept (hd_config hdl)) = Inr n \<and>
    ServeHTTP ws_ops env (Some hdl) (Some rq) = (Some hdl, h, log) \<and>
    cl_interaction sess =
      \<lparr>in_Direction = DirectionClient, in_Subprotocol = agreed_subprotocol tab (sc_Subprotocols sc) (cc_Subprotocols cc)\<rparr> \<and>
    Began \<lparr>in_Direction = DirectionServer, in_Subprotocol = agreed_subprotocol tab (sc_Subprotocols sc) (cc_Subprotocols cc)\<rparr> fs
      \<in> set log \<and>
    crosses ms (cl_connection sess) (newConnection ws_ops n (ns_maxMessage (hd_config hdl))) \<and>
    crosses ms (newConnection ws_ops n (ns_maxMessage (hd_config hdl))) (cl_connection sess)"
proof -
  let ?sp = "agreed_subprotocol tab (sc_Subprotocols sc) (cc_Subprotocols cc)"
  note dial = normalized_dial [OF client(1)] and hdl = NewHandler_Inr [OF handler]
  have "ao_Subprotocols (ns_accept (hd_config hdl)) = sc_Subprotocols sc"
    using hdl(1) by (auto simp: normalizeServerConfig_Inr server_normal_def)
  then obtain sv cl where accepted: "result = Inr sv" "cf_subprotocol sv = ?sp" "\<not> cf_client sv"
    and dialed: "snd (native_Dial tab (ce_parse cenv) (ce_string cenv) http_do (Inr b) (nc_url nc) (nc_dial nc)) = Inr cl"
      "cf_subprotocol cl = ?sp" "cf_client cl" and copts: "cf_copts cl = cf_copts sv"
    using native_handshake [where http_do = http_do, OF dial(1) native(3) request answer] dial(2) by auto
  let ?n = "newConn sv snet" and ?m = "newConn cl cnet"
  let ?cconn = "newConnection ws_ops ?m (nc_maxMessage nc)" and ?sconn = "newConnection ws_ops ?n (ns_maxMessage (hd_config hdl))"
  have accept: "env_Accept env rq (ns_accept (hd_config hdl)) = Inr ?n"
    using accepted answer(1) by (simp add: native(1) ws_accept_def)
  obtain h log fs where served: "ServeHTTP ws_ops env (Some hdl) (Some rq) = (Some hdl, h, log)"
      "Began \<lparr>in_Direction = DirectionServer, in_Subprotocol = ?sp\<rparr> fs \<in> set log"
    using ServeHTTP_upgraded [OF admitted hdl(2) accept, of ws_ops] accepted(2) by (auto simp: new_subprotocol)
  obtain response where "ce_Dial cenv (ce_handshake cenv c (nc_handshakeTimeout nc)) (nc_url nc) (nc_dial nc) =
      (response, Inr ?m, ce_handshake cenv c (nc_handshakeTimeout nc))"
    using dialed(1) by (simp add: native(2) ws_dial_def case_prod_beta)
  then obtain sess where opened: "Dial ws_ops cenv (Some c) cc cobs = (response, Inr sess)"
      "cl_connection sess = ?cconn" "cl_interaction sess = \<lparr>in_Direction = DirectionClient, in_Subprotocol = ?sp\<rparr>"
    using client dialed(2) by (simp add: Dial_def Let_def new_subprotocol)
  have "crosses ms (cl_connection sess) ?sconn" "crosses ms ?sconn (cl_connection sess)"
    using new_crosses [OF nets(2,1) flate, of sv cl] new_crosses [OF nets flate, of cl sv] messages accepted(3) dialed(3) copts
      limit_bounded [OF normalized_limit [OF client(1)]] hdl(3,4) by (simp_all add: opened(2))
  then show ?thesis
    using accept served opened(1,3) by blast
qed

text \<open>The exchange of the handshake agreement, now with \<open>ServeHTTP\<close> behind it.\<close>

definition chat_server :: "authenticate server_config" where
  "chat_server =
     \<lparr>sc_OriginPatterns = [], sc_Subprotocols = [''chat.v2'', ''chat.v1''], sc_MaxMessageBytes = 0,
      sc_MaxConnections = 0, sc_Compression = True, sc_CompressionAt = 0, sc_CloseTimeout = 0,
      sc_Authenticate = Some (\<lambda>c rq. None), sc_AllowInsecure = False, sc_AllowAnonymous = False, sc_AllowAnyOrigin = False\<rparr>"

definition chat_env :: "wsconn server_env" where
  "chat_env =
     \<lparr>env_Accept = ws_accept plain_tables example_parses (Hijacker None) (fresh_conn False),
      env_handle = (\<lambda>c conn. (Returned None, conn, c)),
      env_closeContext = background, env_race = HandshakeFirst, env_duration = 5\<rparr>"

definition chat_client_env :: "nat handler \<Rightarrow> (wsconn, dial_response) client_env" where
  "chat_client_env hdl =
     \<lparr>ce_parse = example_parses, ce_string = example_print, ce_transport = Some example_transport,
      ce_handshake = (\<lambda>c t. c),
      ce_Dial = ws_dial plain_tables example_parses example_print (example_http plain_tables (ns_accept (hd_config hdl)))
        (Inr (replicate 16 7)) (fresh_conn True)\<rparr>"

theorem applications_connect_witness:
  "\<exists>(hdl :: nat handler) (sess :: (wsconn, nat) client_session) n.
     NewHandler chat_server False [] = Inr hdl \<and>
     snd (Dial ws_ops (chat_client_env hdl) (Some background) example_client []) = Inr sess \<and>
     in_Subprotocol (cl_interaction sess) = ''chat.v1'' \<and>
     crosses [(1, example_message), (2, replicate 600 7)] (cl_connection sess) (newConnection ws_ops n (ns_maxMessage (hd_config hdl)))"
proof -
  have "\<not> isl (normalizeServerConfig chat_server)"
    "\<not> isl (normalizeClientConfig example_parses example_print (Some example_transport) example_client)"
    by code_simp+
  then obtain ns nc where ns: "normalizeServerConfig chat_server = Inr ns"
    and nc: "normalizeClientConfig example_parses example_print (Some example_transport) example_client = Inr nc"
    using Inr_exists by metis
  then obtain hdl :: "nat handler" where hdl: "NewHandler chat_server False [] = Inr hdl" and config: "hd_config hdl = ns"
    by (simp add: NewHandler_def unless_def validateObservers_def)
  have "\<not> isl (res_bind (normalizeClientConfig example_parses example_print (Some example_transport) example_client)
      (\<lambda>nc. newHandshakeRequest example_parses example_print (nc_url nc) (nc_dial nc)
        (offered (do_CompressionMode (nc_dial nc))) (b64_encode (replicate 16 7))))"
    by code_simp
  then obtain cr where cr: "newHandshakeRequest example_parses example_print (nc_url nc) (nc_dial nc)
        (offered (do_CompressionMode (nc_dial nc))) (b64_encode (replicate 16 7)) = Inr cr"
    using nc Inr_exists by fastforce
  obtain resp result where accept:
    "Accept plain_tables example_parses (Hijacker None) [] (example_received cr) (Some (ns_accept (hd_config hdl))) = (resp, result)"
    by (cases "Accept plain_tables example_parses (Hijacker None) [] (example_received cr) (Some (ns_accept (hd_config hdl)))")
  have ns_fields: "ns_authenticate ns = Some (\<lambda>c rq. None)" "ns_maxMessage ns = defaultMaxMessageBytes"
    using ns by (auto simp: normalizeServerConfig_Inr server_normal_def chat_server_def or_default_def)
  have "nc_maxMessage nc = defaultMaxMessageBytes"
    using normalized_limit [OF nc] by (simp add: normalizeMessageLimit_def example_client_def)
  then have fits: "list_all (fits (ns_maxMessage (hd_config hdl))) [(1, example_message), (2, replicate 600 7)]"
      "list_all (fits (nc_maxMessage nc)) [(1, example_message), (2, replicate 600 7)]"
    using ns_fields(2) config
    by (simp_all add: fits_def example_message_def defaultMaxMessageBytes_def MessageText_def MessageBinary_def)
  have answered: "example_http plain_tables (ns_accept (hd_config hdl)) (do_HTTPClient (nc_dial nc)) cr =
      Inr \<lparr>dr_Status = rs_Status resp, dr_Header = rs_Header resp, dr_Writable = True\<rparr>"
    using accept by (simp add: example_http_def)
  have nets: "open_net stored_lib (fresh_conn False)" "open_net stored_lib (fresh_conn True)"
    by (simp_all add: open_net_def fresh_conn_def new_flate_def)
  have agreed: "agreed_subprotocol plain_tables (sc_Subprotocols chat_server) (cc_Subprotocols example_client) = ''chat.v1''"
    by code_simp
  have admitted: "fst (admission hdl (example_received cr)) = None"
    using ns_fields(1) config by (simp add: admission_def example_received_def)
  have env: "normalizeClientConfig (ce_parse (chat_client_env hdl)) (ce_string (chat_client_env hdl))
      (ce_transport (chat_client_env hdl)) example_client = Inr nc"
    "env_Accept chat_env = ws_accept plain_tables (ce_parse (chat_client_env hdl)) (Hijacker None) (fresh_conn False)"
    "ce_Dial (chat_client_env hdl) = ws_dial plain_tables (ce_parse (chat_client_env hdl)) (ce_string (chat_client_env hdl))
      (example_http plain_tables (ns_accept (hd_config hdl))) (Inr (replicate 16 7)) (fresh_conn True)"
    "ce_parse (chat_client_env hdl) = example_parses" "ce_string (chat_client_env hdl) = example_print"
    using nc by (simp_all add: chat_client_env_def chat_env_def)
  have "carries (rs_Header resp) (rs_Header resp)"
    by (simp add: carries_def list_all_iff)
  note connected = applications_connect [where c = background and cobs = "[]", OF hdl env(1) _ stored_lib_ok env(2,3) _ nets
      cr [folded env(4,5)] example_delivered accept [folded env(4)] answered this admitted fits]
  have "validateObservers ([] :: nat observer iface list) = None" "length (replicate 16 (7 :: 8 word)) = 16"
    by (simp_all add: validateObservers_def)
  from connected [OF this] show ?thesis
    using hdl agreed by fastforce
qed

end
