(* ===== verification/Compressed_Edges.thy ===== *)
theory Compressed_Edges
  imports Message_Transfer
begin

text \<open>
  Where a compressed message is not read as the documentation says: a message of one byte more than the bound, and a
  message that is cut off.
\<close>

section \<open>A message that is delivered with its end\<close>

text \<open>The flate reader has decoded \<open>p\<close> and met the error \<open>e\<close>; it delivers the one and, with the last bytes, the other.\<close>

definition delivering :: "wsconn \<Rightarrow> bytes \<Rightarrow> go_error \<Rightarrow> bool" where
  "delivering st p e =
     (\<not> c_closed st \<and> mr_fin st \<and> fs_on (c_fl st) \<and> flate_error (c_fl st) = Some e \<and>
      flate_left (c_fl st) = drop (fs_taken (c_fl st)) p \<and> fs_taken (c_fl st) \<le> length p \<and>
      int (length p) \<le> lr_n st + int (fs_taken (c_fl st)))"

definition delivered_to :: "nat \<Rightarrow> wsconn \<Rightarrow> wsconn" where
  "delivered_to n st = st\<lparr>lr_n := lr_n st - (int n - int (fs_taken (c_fl st))), c_fl := (c_fl st)\<lparr>fs_taken := n\<rparr>\<rparr>"

lemma flate_left_taken: "flate_left (f\<lparr>fs_taken := n\<rparr>) = drop n (flate_left (f\<lparr>fs_taken := 0\<rparr>))"
  and flate_error_taken [simp]: "flate_error (f\<lparr>fs_taken := n\<rparr>) = flate_error f"
  and flate_error_dict [simp]: "flate_error (f\<lparr>fs_dict := d\<rparr>) = flate_error f"
  and flate_left_dict [simp]: "flate_left (f\<lparr>fs_dict := d\<rparr>) = flate_left f"
proof -
  show err: "flate_error (f\<lparr>fs_taken := n\<rparr>) = flate_error f" for n
    by (simp add: flate_error_def split: option.split)
  show err2: "flate_error (f\<lparr>fs_dict := d\<rparr>) = flate_error f"
    by (simp add: flate_error_def split: option.split)
  show "flate_left (f\<lparr>fs_taken := n\<rparr>) = drop n (flate_left (f\<lparr>fs_taken := 0\<rparr>))" "flate_left (f\<lparr>fs_dict := d\<rparr>) = flate_left f"
    by (simp_all add: flate_left_def Let_def err err2)
qed

lemma flate_left_advance: "flate_left (f\<lparr>fs_taken := fs_taken f + m\<rparr>) = drop m (flate_left f)"
  using flate_left_taken [where f = f and n = "fs_taken f + m"] flate_left_taken [where f = f and n = "fs_taken f"]
  by (simp add: add.commute)

lemma msg_Read_ended:
  assumes "mu_lock c st = (Inr (), st)" "limit_read c len st = ((b, x), st1)" "st' = keep_window b st1"
    and "mr_fin st'" "fs_on (c_fl st')" "x = None \<or> x = Some e" "errors_is e ErrEOF \<or> errors_is e ErrUnexpectedEOF"
  shows "msg_Read c len st = ((b, if x = None then None else Some ErrEOF), st')"
  using assms by (auto simp: msg_Read_def Let_def)

lemma msg_Read_delivering:
  assumes "live c" "delivering st p e" "fs_taken (c_fl st) < length p" "0 < len"
    and eof: "errors_is e ErrEOF \<or> errors_is e ErrUnexpectedEOF"
  shows "\<exists>m st'. 0 < m \<and> m \<le> length p - fs_taken (c_fl st) \<and> delivering st' p e \<and> fs_taken (c_fl st') = fs_taken (c_fl st) + m \<and>
    msg_Read c len st =
      ((take m (drop (fs_taken (c_fl st)) p), if m = length p - fs_taken (c_fl st) then Some ErrEOF else None), st')"
proof -
  let ?n = "fs_taken (c_fl st)"
  let ?left = "drop ?n p"
  define room where "room = (if int len > lr_n st then nat (lr_n st) else len)"
  define m where "m = min room (length ?left)"
  let ?b = "take m ?left" and ?e = "if length ?left \<le> room then Some e else None"
  let ?st1 = "st\<lparr>c_fl := (c_fl st)\<lparr>fs_taken := ?n + m\<rparr>\<rparr>"
  note d = assms(2) [unfolded delivering_def]
  have lr: "0 < lr_n st" using d assms(3) by linarith
  then have m: "0 < m" "m \<le> length p - ?n" "int m \<le> lr_n st" and last: "(length ?left \<le> room) = (m = length p - ?n)"
    using assms(3,4) by (auto simp: m_def room_def)
  have len: "length ?b = m" using m(2) by simp
  have "flate_read c room st = flate_give room st"
    using d by (subst flate_read.simps) simp
  then have raw: "raw_read c room st = ((?b, ?e), ?st1)"
    using d by (simp add: raw_read_def flate_give_def Let_def m_def take_all_iff min_def)
  have lim: "limit_read c len st = ((?b, ?e), ?st1\<lparr>lr_n := lr_n st - int m\<rparr>)"
    unfolding limit_read_def room_def [symmetric] raw
    using lr m(3) len by simp
  define st' where "st' = keep_window ?b (?st1\<lparr>lr_n := lr_n st - int m\<rparr>)"
  have st': "mr_fin st'" "fs_on (c_fl st')" "fs_taken (c_fl st') = ?n + m"
    using d by (simp_all add: st'_def keep_window_def Let_def)
  have "\<not> c_closed st'" "flate_error (c_fl st') = Some e" "lr_n st' = lr_n st - int m"
    using d by (simp_all add: st'_def keep_window_def Let_def)
  moreover have "flate_left (c_fl st') = drop (?n + m) p"
    using d by (simp add: st'_def keep_window_def Let_def flate_left_advance) (simp add: add.commute)?
  ultimately have now: "delivering st' p e"
    using d m st' by (simp add: delivering_def)
  have "msg_Read c len st = ((?b, if m = length p - ?n then Some ErrEOF else None), st')"
    using msg_Read_ended [OF mu_lock_live [OF assms(1)] lim st'_def st'(1,2), of e] d eof last by simp
  with now show ?thesis using m(1,2) st'(3) by blast
qed

lemma read_all_delivering:
  "live c \<Longrightarrow> errors_is e ErrEOF \<or> errors_is e ErrUnexpectedEOF \<Longrightarrow> delivering st p e \<Longrightarrow> fs_taken (c_fl st) < length p \<Longrightarrow>
   \<exists>st'. read_all c acc st = (Inr (acc @ drop (fs_taken (c_fl st)) p), st')"
proof (induction c acc st rule: read_all.induct)
  case (1 c acc st)
  let ?len = "max 1 (c_chunk st (length acc))" and ?n = "fs_taken (c_fl st)"
  have len: "0 < ?len" by simp
  obtain m st1 where m: "0 < m" "m \<le> length p - ?n" "delivering st1 p e" "fs_taken (c_fl st1) = ?n + m"
    and read: "msg_Read c ?len st = ((take m (drop ?n p), if m = length p - ?n then Some ErrEOF else None), st1)"
    using msg_Read_delivering [OF "1.prems"(1,3,4) len "1.prems"(2)] by blast
  show ?case
  proof (cases "m = length p - ?n")
    case True
    then show ?thesis using read by (subst read_all.simps) simp
  next
    case False
    have split: "take m (drop ?n p) @ drop (?n + m) p = drop ?n p"
      by (metis add.commute append_take_drop_id drop_drop)
    have read': "msg_Read c ?len st = ((take m (drop ?n p), None), st1)" using read False by simp
    have "fs_taken (c_fl st1) < length p" using False m by simp
    from "1.IH" [OF read' [symmetric] refl refl "1.prems"(1,2) m(3) this] show ?thesis
      using read' m(4) split by (subst read_all.simps) simp
  qed
qed

section \<open>A message that is decoded silently\<close>

text \<open>Nothing is delivered before the last byte of \<open>q\<close> has been decoded.\<close>

definition quiet :: "flate_lib \<Rightarrow> bytes \<Rightarrow> bytes \<Rightarrow> bool" where
  "quiet lib d q =
     (\<forall>q'. strict_prefix q' q \<longrightarrow> in_err (fl_inflate lib d q') = None \<and> in_ready (fl_inflate lib d q') = [])"

text \<open>Decoding has not started, or has come so far without anything to deliver.\<close>

definition decoding :: "wsconn \<Rightarrow> wsconn \<Rightarrow> bytes \<Rightarrow> bool" where
  "decoding st0 st q =
     (moves st0 st \<and> lr_n st = lr_n st0 \<and> reader_state ((c_fl st0)\<lparr>fs_consumed := q\<rparr>) (c_fl st))"

lemma decoding_refl: "fs_consumed (c_fl st) = [] \<Longrightarrow> decoding st st []"
  using reader_state_refl [of "c_fl st"] by (cases "c_fl st") (simp add: decoding_def)

lemma decodingD:
  "decoding st0 st q \<Longrightarrow> fs_consumed (c_fl st) = q \<and> fs_err (c_fl st) = fs_err (c_fl st0) \<and> fs_taken (c_fl st) = fs_taken (c_fl st0) \<and>
   fs_lib (c_fl st) = fs_lib (c_fl st0) \<and> fs_dictionary (c_fl st) = fs_dictionary (c_fl st0) \<and> fs_on (c_fl st) = fs_on (c_fl st0) \<and>
   lr_n st = lr_n st0 \<and> c_chunk st = c_chunk st0"
  by (auto simp: decoding_def reader_state_def moves_def evolves_def)

lemma decoding_byte:
  assumes "decoding st0 st q" "flate_ReadByte c st = (Inr x, st1)"
  shows "decoding st0 (st1\<lparr>c_fl := (c_fl st1)\<lparr>fs_consumed := fs_consumed (c_fl st1) @ [x]\<rparr>\<rparr>) (q @ [x])"
proof -
  note m = flate_ReadByte_moves [OF assms(2)]
  let ?f = "(c_fl st1)\<lparr>fs_consumed := fs_consumed (c_fl st1) @ [x]\<rparr>"
  have "reader_state ((c_fl st0)\<lparr>fs_consumed := q\<rparr>) (c_fl st1)"
    using assms(1) m(3) unfolding decoding_def reader_state_def by fastforce
  then obtain t b e where f: "c_fl st1 = (c_fl st0)\<lparr>fs_consumed := q, fs_tail := t, fs_buf := b, fs_buferr := e\<rparr>"
    by (auto simp: reader_state_def)
  have "?f = (c_fl st0)\<lparr>fs_consumed := q @ [x], fs_tail := t, fs_buf := b, fs_buferr := e\<rparr>"
    by (simp add: f)
  then have "reader_state ((c_fl st0)\<lparr>fs_consumed := q @ [x]\<rparr>) ?f" unfolding reader_state_def by blast
  moreover have "moves st0 (st1\<lparr>c_fl := ?f\<rparr>)"
    using assms(1) m(1) moves_fl [of st1 ?f] by (auto simp: decoding_def same_codec_def intro: moves_trans)
  ultimately show ?thesis using assms(1) m(2) by (simp add: decoding_def)
qed

text \<open>While nothing is there to deliver, a read goes on with the next byte.\<close>

lemma flate_read_byte:
  assumes "fs_err (c_fl st) = None" "fs_taken (c_fl st) = 0"
    and "in_err (fl_inflate (fs_lib (c_fl st)) (fs_dictionary (c_fl st)) (fs_consumed (c_fl st))) = None"
      "in_ready (fl_inflate (fs_lib (c_fl st)) (fs_dictionary (c_fl st)) (fs_consumed (c_fl st))) = []"
    and "flate_ReadByte c st = (Inr x, st1)"
  shows "flate_read c len st = flate_read c len (st1\<lparr>c_fl := (c_fl st1)\<lparr>fs_consumed := fs_consumed (c_fl st1) @ [x]\<rparr>\<rparr>)"
proof -
  have "flate_error (c_fl st) = None" "flate_left (c_fl st) = []"
    using assms(1-4) by (simp_all add: flate_error_def flate_left_def Let_def)
  then show ?thesis using assms(5) by (subst flate_read.simps) simp
qed

text \<open>So it consumes what its source has, whatever the source is.\<close>

lemma decode:
  assumes supplied: "\<And>st x xs. S st (x # xs) \<Longrightarrow> \<exists>st1. flate_ReadByte c st = (Inr x, st1) \<and> S st1 xs"
    and consumed: "\<And>st xs q. S st xs \<Longrightarrow> S (st\<lparr>c_fl := (c_fl st)\<lparr>fs_consumed := q\<rparr>\<rparr>) xs"
    and st0: "fs_err (c_fl st0) = None" "fs_taken (c_fl st0) = 0"
  shows "quiet (fs_lib (c_fl st0)) (fs_dictionary (c_fl st0)) (q1 @ q2) \<Longrightarrow> decoding st0 st q1 \<Longrightarrow> S st (q2 @ ys) \<Longrightarrow>
    \<exists>st'. (\<forall>len. flate_read c len st = flate_read c len st') \<and> decoding st0 st' (q1 @ q2) \<and> S st' ys"
proof (induction q2 arbitrary: q1 st)
  case (Cons x q2)
  obtain st1 where byte: "flate_ReadByte c st = (Inr x, st1)" "S st1 (q2 @ ys)"
    using supplied [of st x "q2 @ ys"] Cons.prems(3) by auto
  let ?st2 = "st1\<lparr>c_fl := (c_fl st1)\<lparr>fs_consumed := fs_consumed (c_fl st1) @ [x]\<rparr>\<rparr>"
  note d = decodingD [OF Cons.prems(2)]
  have "strict_prefix q1 (q1 @ x # q2)" by (simp add: strict_prefix_def)
  then have step: "flate_read c len st = flate_read c len ?st2" for len
    using Cons.prems(1) d st0 byte(1) by (intro flate_read_byte) (simp_all add: quiet_def)
  have "\<exists>st'. (\<forall>len. flate_read c len ?st2 = flate_read c len st') \<and> decoding st0 st' ((q1 @ [x]) @ q2) \<and> S st' ys"
    using Cons.prems(1) decoding_byte [OF Cons.prems(2) byte(1)] consumed [OF byte(2)] by (intro Cons.IH) simp_all
  then show ?case using step by simp
qed auto

lemma read_all_skip:
  assumes "\<And>len. flate_read c len st = flate_read c len st'" and "live c" "\<not> c_closed st" "\<not> c_closed st'"
    and "fs_on (c_fl st)" "fs_on (c_fl st')" "lr_n st' = lr_n st" "0 < lr_n st" "c_chunk st' = c_chunk st"
  shows "read_all c acc st = read_all c acc st'"
proof -
  have "limit_read c len st = limit_read c len st'" for len
    using assms by (simp add: limit_read_def raw_read_def)
  then have "msg_Read c len st = msg_Read c len st'" for len
    using assms(2-4) by (simp add: msg_Read_def mu_lock_live)
  then show ?thesis using assms(9) by (subst (1 2) read_all.simps) simp
qed

section \<open>One byte more\<close>

text \<open>
  C39. With compression, \<open>Read\<close> may return a message that is longer than the configured bound, by one byte. The native library
  lets one byte more than the limit through, to tell a message at the limit from a longer one; a peer that ends its
  compressed message with a final block makes the flate reader deliver \<open>io.EOF\<close> together with the last bytes, so
  the reader never asks for the byte that the limit refuses, and the message is complete. \<open>connection.go\<close> does not check again.
\<close>

theorem compressed_message_exceeds_bound:
  assumes "native conn = Some b" "maxMessage conn = ws_limit b" "0 \<le> ws_limit b"
    and "can_read b" "conn_flate b" "fs_buf (c_fl b) = []" "fs_buferr (c_fl b) = None"
    and "t = MessageText \<or> t = MessageBinary" "length q < 2 ^ 63" "c_client b \<Longrightarrow> key = 0"
    and "c_in b = wire (\<not> c_client b) True key t q @ rest"
    and "quiet (fs_lib (c_fl b)) (dictionary b) q"
    and "fl_inflate (fs_lib (c_fl b)) (dictionary b) q = \<lparr>in_ready = p, in_decoded = p, in_err = Some ErrEOF\<rparr>"
    and "int (length p) = maxMessage conn + 1"
  shows "fst (Read ws_ops (Some background) (Some conn)) = Inr (t, p)"
proof -
  let ?c = "tctx_of (c_now b) background"
  have t: "t = opText \<or> t = opBinary"
    using assms(8) by (auto simp: opcode_defs MessageText_def MessageBinary_def)
  obtain st0 where rd: "conn_reader ?c b = (Inr t, st0)" and src: "source st0 (q @ deflateMessageTail) rest"
    and lr: "lr_n st0 = lr_limit b"
    and fl: "c_fl st0 = (c_fl b)\<lparr>fs_on := True, fs_dict := (if mr_takeover b then Some (window b) else fs_dict (c_fl b)),
      fs_dictionary := dictionary b, fs_consumed := [], fs_taken := 0, fs_err := None, fs_tail := deflateMessageTail\<rparr>"
    using conn_reader_compressed [OF live_background assms(4) _ t assms(5,9) _ assms(11,6,7)] assms(10) by auto
  have "\<exists>st'. (\<forall>len. flate_read ?c len st0 = flate_read ?c len st') \<and> decoding st0 st' ([] @ q) \<and> source st' deflateMessageTail rest"
  proof (rule decode [where S = "\<lambda>st x. source st x rest"])
    show "\<And>st x xs. source st (x # xs) rest \<Longrightarrow> \<exists>st1. flate_ReadByte ?c st = (Inr x, st1) \<and> source st1 xs rest"
      by (rule flate_ReadByte_source [OF live_background])
    show "\<And>st xs q. source st xs rest \<Longrightarrow> source (st\<lparr>c_fl := (c_fl st)\<lparr>fs_consumed := q\<rparr>\<rparr>) xs rest"
      by (simp add: source_def)
  qed (use assms(12) src in \<open>simp_all add: fl decoding_refl\<close>)
  then obtain st' where skip: "\<And>len. flate_read ?c len st0 = flate_read ?c len st'" and st': "decoding st0 st' q" "source st' deflateMessageTail rest"
    by auto
  note d = decodingD [OF st'(1)]
  have room: "lr_n st' = int (length p)" "0 < length p" "0 < lr_n st0" using d lr assms(2,3,14) by (auto simp: ws_limit_def)
  then have now: "delivering st' p ErrEOF" "fs_taken (c_fl st') < length p"
    using st'(2) d assms(13) by (auto simp: delivering_def source_def fl flate_error_def flate_left_def Let_def)
  obtain st'' where "read_all ?c [] st' = (Inr p, st'')"
    using read_all_delivering [OF live_background _ now, of "c_now b" "[]"] d by (auto simp: fl errors_is_refl)
  moreover have "read_all ?c [] st0 = read_all ?c [] st'"
    using skip src st'(2) d room(3)
    by (intro read_all_skip [OF _ live_background]) (auto simp: source_def)
  ultimately have "conn_Read ?c b = (Inr (t, p), st'')"
    using rd by (simp add: conn_Read_def io_bind_def io_return_def)
  then show ?thesis
    using assms(1) by (simp add: Read_def valid_conn_def ws_ops_def)
qed

text \<open>Five bytes as a final stored block, for a server connection with a bound of four.\<close>

definition final_block :: bytes where
  "final_block = [0x01, 0x05, 0x00, 0xFA, 0xFF] @ example_message"

definition bounded_receiver :: "wsconn connection" where
  "bounded_receiver =
     newConnection ws_ops ((synced False)\<lparr>c_in := wire True True 0x11223344 1 final_block @ [7]\<rparr>) 4"

lemma quiet_list:
  "quiet lib d q =
     list_all (\<lambda>k. let z = fl_inflate lib d (take k q) in in_err z = None \<and> in_ready z = []) [0..<length q]"
proof -
  have "strict_prefix q' q \<Longrightarrow> length q' < length q \<and> q' = take (length q') q" for q'
    by (auto simp: strict_prefix_def prefix_def)
  moreover have "k < length q \<Longrightarrow> strict_prefix (take k q) q" for k
    by (auto simp: strict_prefix_def take_is_prefix dest: arg_cong [where f = length])
  ultimately show ?thesis
    unfolding quiet_def list_all_iff Let_def by (metis atLeastLessThan_iff le0 set_upt)
qed

theorem compressed_message_exceeds_bound_witness:
  "fst (Read ws_ops (Some background) (Some bounded_receiver)) = Inr (1, example_message) \<and>
   maxMessage bounded_receiver < int (length example_message)"
proof -
  let ?b = "SetReadLimit 4 ((synced False)\<lparr>c_in := wire True True 0x11223344 1 final_block @ [7]\<rparr>)"
  have nat: "native bounded_receiver = Some ?b" "maxMessage bounded_receiver = 4"
    by (simp_all add: bounded_receiver_def newConnection_def ws_ops_def)
  have fl: "fs_lib (c_fl ?b) = stored_lib" "fs_buf (c_fl ?b) = []" "fs_buferr (c_fl ?b) = None" "conn_flate ?b" "can_read ?b" "\<not> c_client ?b"
    "ws_limit ?b = 4" "c_in ?b = wire True True 0x11223344 1 final_block @ [7]"
    by (simp_all add: SetReadLimit_def synced_def fresh_conn_def new_flate_def conn_flate_def can_read_def ws_limit_def)
  have quiet: "quiet stored_lib d final_block" for d
    unfolding quiet_list by code_simp
  have final: "fl_inflate stored_lib d final_block = \<lparr>in_ready = example_message, in_decoded = example_message, in_err = Some ErrEOF\<rparr>" for d
    by code_simp
  have "fst (Read ws_ops (Some background) (Some bounded_receiver)) = Inr (1, example_message)"
    by (rule compressed_message_exceeds_bound [OF nat(1) _ _ fl(5,4,2,3)])
      (use nat fl quiet final in \<open>simp_all add: MessageText_def final_block_def example_message_def\<close>)
  then show ?thesis by (simp add: nat example_message_def)
qed

section \<open>A message that is cut off\<close>

text \<open>The source of the flate reader when the stream ends within a payload, before and after the buffer has been filled.\<close>

definition cut_error :: go_error where
  "cut_error = wrap ''failed to read frame payload: %w'' ErrUnexpectedEOF"

definition cut_source :: "wsconn \<Rightarrow> bytes \<Rightarrow> bool" where
  "cut_source st x =
     (\<not> c_closed st \<and> mr_fin st \<and> fs_on (c_fl st) \<and>
      (fs_buf (c_fl st) = x \<and> fs_buferr (c_fl st) = Some cut_error \<or>
       fs_buf (c_fl st) = [] \<and> fs_buferr (c_fl st) = None \<and> c_closeReceivedErr st = None \<and> c_in st = x \<and> x \<noteq> [] \<and>
       length x < mr_payloadLength st \<and> mr_payloadLength st \<le> 4096))"

lemma flate_ReadByte_cut:
  assumes "live c" "cut_source st (x # xs)"
  shows "\<exists>st1. flate_ReadByte c st = (Inr x, st1) \<and> cut_source st1 xs"
proof (cases "fs_buf (c_fl st) = []")
  case False
  then show ?thesis using assms(2) by (auto simp: cut_source_def flate_ReadByte_def split: list.splits)
next
  case True
  then have st: "fs_buferr (c_fl st) = None" "c_closeReceivedErr st = None" "c_in st = x # xs" "\<not> c_closed st" "mr_fin st"
    "fs_on (c_fl st)" "length (x # xs) < mr_payloadLength st" "min 4096 (mr_payloadLength st) = mr_payloadLength st"
    using assms(2) by (auto simp: cut_source_def)
  have "readFramePayload c (mr_payloadLength st) st = ((x # xs, Some cut_error), (elapse st)\<lparr>c_in := []\<rparr>)"
    using st by (simp add: readFramePayload_def prepareRead_def bounded_io_live [OF assms(1)] ReadFull_def cut_error_def)
  then have "mr_read c 4096 st = ((x # xs, Some cut_error), (elapse st)\<lparr>c_in := []\<rparr>)"
    using st by (subst mr_read.simps) simp
  then show ?thesis
    using True st by (auto simp: flate_ReadByte_def cut_source_def)
qed

lemma flate_ReadByte_cut_end:
  "cut_source st [] \<Longrightarrow> flate_ReadByte c st = (Inl cut_error, st\<lparr>c_fl := (c_fl st)\<lparr>fs_buferr := None\<rparr>\<rparr>)"
  by (auto simp: cut_source_def flate_ReadByte_def)

text \<open>
  C40. A compressed message that is cut off may be returned as if it were complete. When the stream of a server ends in
  the middle of the last frame of a compressed message, the error of the payload read is \<open>io.ErrUnexpectedEOF\<close>, which the
  message reader takes for the regular end of a compressed message: \<open>Read\<close> returns what has been decoded of it, and no error.
  \<open>connection.go\<close> documents one complete message.
\<close>

theorem Read_accepts_cut_message:
  assumes "native conn = Some b" "can_read b" "c_client b" "conn_flate b" "fs_buf (c_fl b) = []" "fs_buferr (c_fl b) = None"
    and "t = MessageText \<or> t = MessageBinary" "length q \<le> 4096"
    and "r \<noteq> []" "strict_prefix r q" "c_in b = writeFrameHeader (frame_for False True 0 t q) @ r"
    and "quiet (fs_lib (c_fl b)) (dictionary b) q"
    and "in_decoded (fl_inflate (fs_lib (c_fl b)) (dictionary b) r) = p" "p \<noteq> []" "int (length p) \<le> ws_limit b"
  shows "fst (Read ws_ops (Some background) (Some conn)) = Inr (t, p)"
proof -
  let ?c = "tctx_of (c_now b) background" and ?h = "frame_for False True 0 t q"
  have t: "t = opText \<or> t = opBinary"
    using assms(7) by (auto simp: opcode_defs MessageText_def MessageBinary_def)
  have "header_ok ?h" using t assms(8) by (auto simp: header_ok_def frame_for_def opcode_defs)
  then have loop: "readLoop ?c b = (Inr ?h, (elapse b)\<lparr>c_in := r\<rparr>)"
    using readLoop_frame [OF live_background assms(2) _ t _ _ assms(11)] assms(3,4) by simp
  let ?b0 = "(elapse b)\<lparr>c_in := r\<rparr>"
  define st0 where "st0 = msg_reset ?h ?b0"
  have rd: "conn_reader ?c b = (Inr t, st0)"
    using loop assms(2) t mu_lock_live [OF live_background, of b "c_now b"]
    by (auto simp: st0_def conn_reader_def io_wrap_def io_bind_def can_read_def frame_for_def opcode_defs)
  have "dictionary ?b0 = dictionary b" by (auto simp: dictionary_def mr_takeover_iff window_def)
  then have fl: "fs_lib (c_fl st0) = fs_lib (c_fl b)" "fs_dictionary (c_fl st0) = dictionary b" "fs_consumed (c_fl st0) = []"
    "fs_taken (c_fl st0) = 0" "fs_err (c_fl st0) = None" "fs_on (c_fl st0)" "fs_buf (c_fl st0) = []" "fs_buferr (c_fl st0) = None"
    using msg_reset_flate [of ?h ?b0] assms(5,6) by (simp_all add: st0_def frame_for_def)
  have longer: "length r < length q" using assms(10) by (rule prefix_length_less)
  then have src: "cut_source st0 r"
    using assms(2,8,9) fl by (simp add: cut_source_def) (simp add: st0_def can_read_def frame_for_def)
  have quiet: "quiet (fs_lib (c_fl st0)) (fs_dictionary (c_fl st0)) r"
    "in_err (fl_inflate (fs_lib (c_fl b)) (dictionary b) r) = None" "in_ready (fl_inflate (fs_lib (c_fl b)) (dictionary b) r) = []"
    using assms(10,12) by (auto simp: quiet_def fl intro: prefix_order.less_trans)
  have "\<exists>st1. (\<forall>len. flate_read ?c len st0 = flate_read ?c len st1) \<and> decoding st0 st1 ([] @ r) \<and> cut_source st1 []"
    by (rule decode [where S = cut_source, OF flate_ReadByte_cut [OF live_background]])
      (use src quiet(1) in \<open>simp_all add: fl decoding_refl\<close>, simp_all add: cut_source_def)
  then obtain st1 where skip: "\<And>len. flate_read ?c len st0 = flate_read ?c len st1" and st1: "decoding st0 st1 r" "cut_source st1 []"
    by auto
  note d = decodingD [OF st1(1)]
  define st2 where "st2 = st1\<lparr>c_fl := (c_fl st1)\<lparr>fs_buferr := None, fs_err := Some cut_error\<rparr>\<rparr>"
  have idle: "flate_error (c_fl st1) = None" "flate_left (c_fl st1) = []"
    using d quiet(2,3) fl by (simp_all add: flate_error_def flate_left_def Let_def)
  have left: "flate_error (c_fl st2) = Some cut_error" "flate_left (c_fl st2) = p" "fs_taken (c_fl st2) = 0"
    using d fl assms(13) by (simp_all add: st2_def flate_error_def flate_left_def Let_def)
  have "noEOF cut_error = cut_error" by (simp add: noEOF_def cut_error_def wrap_def)
  then have "flate_read ?c len st1 = flate_give len st2" for len
    using idle flate_ReadByte_cut_end [OF st1(2)] by (subst flate_read.simps) (simp add: st2_def)
  moreover have "flate_read ?c len st2 = flate_give len st2" for len
    using left(1) by (subst flate_read.simps) simp
  ultimately have skip2: "flate_read ?c len st0 = flate_read ?c len st2" for len using skip by simp
  have lr: "lr_n st0 = lr_limit b" "lr_n st2 = lr_n st0" "0 < lr_n st0" "int (length p) \<le> lr_n st2" "c_chunk st2 = c_chunk st0"
    using assms(15) d by (simp_all add: st2_def ws_limit_def) (simp_all add: st0_def)
  have open2: "\<not> c_closed st0" "\<not> c_closed st2" "mr_fin st2" "fs_on (c_fl st2)"
    using src st1(2) by (simp_all add: st2_def cut_source_def)
  have "delivering st2 p cut_error"
    using left lr open2 by (simp add: delivering_def)
  moreover have "errors_is cut_error ErrUnexpectedEOF"
    unfolding cut_error_def by (rule errors_is_wrap [OF errors_is_refl])
  moreover have "fs_taken (c_fl st2) < length p" using left(3) assms(14) by simp
  ultimately obtain st3 where "read_all ?c [] st2 = (Inr p, st3)"
    using read_all_delivering [OF live_background, of cut_error st2 p "c_now b" "[]"] left(3) by auto
  moreover have "read_all ?c [] st0 = read_all ?c [] st2"
    using skip2 open2 fl lr by (intro read_all_skip [OF _ live_background]) simp_all
  ultimately have "conn_Read ?c b = (Inr (t, p), st3)"
    using rd by (simp add: conn_Read_def io_bind_def io_return_def)
  then show ?thesis
    using assms(1) by (simp add: Read_def valid_conn_def ws_ops_def)
qed

text \<open>A server that stops after four of the five bytes of the block.\<close>

definition cut_receiver :: "wsconn connection" where
  "cut_receiver =
     newConnection ws_ops
       ((synced True)\<lparr>c_in := writeFrameHeader (frame_for False True 0 1 final_block) @ butlast final_block\<rparr>) 1024"

theorem Read_accepts_cut_message_witness:
  "fst (Read ws_ops (Some background) (Some cut_receiver)) = Inr (1, butlast example_message)"
proof -
  let ?b = "SetReadLimit 1024 ((synced True)\<lparr>c_in := writeFrameHeader (frame_for False True 0 1 final_block) @ butlast final_block\<rparr>)"
  have nat: "native cut_receiver = Some ?b"
    by (simp add: cut_receiver_def newConnection_def ws_ops_def)
  have fl: "fs_lib (c_fl ?b) = stored_lib" "fs_buf (c_fl ?b) = []" "fs_buferr (c_fl ?b) = None" "conn_flate ?b" "can_read ?b" "c_client ?b"
    "ws_limit ?b = 1024" "c_in ?b = writeFrameHeader (frame_for False True 0 1 final_block) @ butlast final_block"
    by (simp_all add: SetReadLimit_def synced_def fresh_conn_def new_flate_def conn_flate_def can_read_def ws_limit_def)
  have quiet: "quiet stored_lib d final_block" for d
    unfolding quiet_list by code_simp
  have decoded: "in_decoded (fl_inflate stored_lib d (butlast final_block)) = butlast example_message" for d
    by code_simp
  have "strict_prefix (butlast final_block) final_block"
    by (simp add: strict_prefix_def final_block_def example_message_def)
  then show ?thesis
    by (intro Read_accepts_cut_message [OF nat fl(5,6,4,2,3) _ _ _ _ fl(8)])
      (use fl quiet decoded in \<open>simp_all add: MessageText_def final_block_def example_message_def\<close>)
qed

end
