(* ===== verification/Gate_World.thy ===== *)
theory Gate_World
  imports Go_Text
begin

text \<open>
  The world of the repository's quality gate (\<open>internal/qualitygate\<close>): a file system, the processes it
  starts and the events an observer of the gate sees, with the operations of \<open>os\<close>, \<open>io/fs\<close> and
  \<open>os/exec\<close> that the gate calls. What a process does is a parameter: it may depend on everything that
  happened before and may leave any file system behind.
\<close>

section \<open>The file system\<close>

text \<open>
  A path is the list of its components below the root directory. Reading a file may fail; a special
  file is anything that is neither a directory nor a regular file. The entries of a directory are
  in the order of their names, which is the order of \<open>fs.ReadDir\<close>.
\<close>

type_synonym path = "string list"

datatype node =
    RegularFile "string res"
  | SpecialFile "string res"
  | Folder "(string \<times> node) list"
  | LockedFolder go_error

definition path_text :: "path \<Rightarrow> string" where
  "path_text p = (if p = [] then ''/'' else concat (map (\<lambda>c. CHR ''/'' # c) p))"

text \<open>The slash-separated name of an entry relative to the root of a walk.\<close>

definition rel_text :: "path \<Rightarrow> string" where
  "rel_text p = (if p = [] then ''.'' else join_with ''/'' p)"

fun node_at :: "path \<Rightarrow> node \<Rightarrow> node option" where
  "node_at [] n = Some n"
| "node_at (c # p) (Folder es) = (case map_of es c of Some n \<Rightarrow> node_at p n | None \<Rightarrow> None)"
| "node_at (c # p) n = None"

fun put_entry :: "string \<Rightarrow> node \<Rightarrow> (string \<times> node) list \<Rightarrow> (string \<times> node) list" where
  "put_entry c n [] = [(c, n)]"
| "put_entry c n ((d, m) # es) =
     (if c = d then (c, n) # es
      else if c < d then (c, n) # (d, m) # es
      else (d, m) # put_entry c n es)"

primrec put_node :: "path \<Rightarrow> node \<Rightarrow> node \<Rightarrow> node" where
  "put_node [] v n = v"
| "put_node (c # p) v n =
     (case n of
        Folder es \<Rightarrow>
          Folder (put_entry c (put_node p v (case map_of es c of Some m \<Rightarrow> m | None \<Rightarrow> Folder [])) es)
      | _ \<Rightarrow> n)"

primrec remove_node :: "path \<Rightarrow> node \<Rightarrow> node" where
  "remove_node [] n = n"
| "remove_node (c # p) n =
     (case n of
        Folder es \<Rightarrow>
          Folder (if p = [] then filter (\<lambda>e. fst e \<noteq> c) es
                  else map (\<lambda>e. (fst e, if fst e = c then remove_node p (snd e) else snd e)) es)
      | _ \<Rightarrow> n)"

section \<open>Processes and events\<close>

record call =
  call_dir :: path
  call_env :: "string list"
  call_exe :: string
  call_args :: "string list"

record process_end =
  pr_stdout :: string
  pr_stderr :: string
  pr_err :: "go_error option"

text \<open>
  \<open>Removing p r\<close> and \<open>RemovingTree p r\<close> record the calls of \<open>os.Remove\<close> and \<open>os.RemoveAll\<close> with the error that
  they return; \<open>Created p\<close> records that a file or directory has been, or may have been, created.
  \<open>Printed f as es\<close> is a line of output with format \<open>f\<close>, plain arguments \<open>as\<close> and the errors \<open>es\<close>.
\<close>

datatype event =
    Ran call
  | Created path
  | Removing path "go_error option"
  | RemovingTree path "go_error option"
  | Printed string "err_arg list" "go_error list"

text \<open>
  \<open>g_names\<close> are the names that \<open>os.CreateTemp\<close> and \<open>os.MkdirTemp\<close> will draw, \<open>g_faults\<close> the results of
  the next system calls that create, write, close or remove something.
\<close>

record gstate =
  g_fs :: node
  g_names :: "string list"
  g_faults :: "go_error option list"
  g_log :: "event list"

text \<open>\<open>float64\<close>: not a number, an infinity (with its sign) or an integer times a power of two.\<close>

datatype float64 = NaN | Infinite bool | Finite int int

fun float_less :: "float64 \<Rightarrow> float64 \<Rightarrow> bool" where
  "float_less (Finite m e) (Finite n f) = (let d = min e f in m * 2 ^ nat (e - d) < n * 2 ^ nat (f - d))"
| "float_less (Finite m e) (Infinite negative) = (\<not> negative)"
| "float_less (Infinite negative) (Finite n f) = negative"
| "float_less (Infinite a) (Infinite b) = (a \<and> \<not> b)"
| "float_less NaN y = False"
| "float_less x NaN = False"

text \<open>
  Everything outside the gate. \<open>sys_exec\<close> is a process, which may depend on all events before it;
  \<open>sys_Sum256\<close> is SHA-256 (32 bytes), \<open>sys_Format1\<close> the verb \<open>%.1f\<close> and \<open>sys_elapsed\<close> the rounded
  time that a step took. The decoders are \<open>encoding/json\<close> into the gate's structs;
  \<open>sys_Decode_raw\<close> is a further \<open>Decode\<close> on the rest of the input, with \<open>io.EOF\<close> when only white space is left.
\<close>

record compatibilityVersions =
  cv_Schema :: int
  cv_Minimum :: string
  cv_Current :: string

record requirement =
  rq_Path :: string
  rq_Version :: string
  rq_Indirect :: bool

record sbom_creation = sc_Created :: string sc_Creators :: "string list"

record releaseSBOM =
  sb_SPDXVersion :: string
  sb_DataLicense :: string
  sb_SPDXID :: string
  sb_Name :: string
  sb_DocumentNamespace :: string
  sb_CreationInfo :: sbom_creation
  sb_Packages :: nat
  sb_Relationships :: nat

record sys =
  sys_Version :: string
  sys_Environ :: "string list"
  sys_Getwd :: "path res"
  sys_TempDir :: path
  sys_exec :: "event list \<Rightarrow> call \<Rightarrow> node \<Rightarrow> process_end \<times> node"
  sys_Sum256 :: "string \<Rightarrow> string"
  sys_ParseFloat :: "string \<Rightarrow> float64 res"
  sys_Format1 :: "float64 \<Rightarrow> string"
  sys_elapsed :: "string \<Rightarrow> string"
  sys_Decode_compatibility :: "string \<Rightarrow> (compatibilityVersions \<times> string) res"
  sys_Decode_raw :: "string \<Rightarrow> string res"
  sys_Unmarshal_require :: "string \<Rightarrow> requirement list res"
  sys_Unmarshal_module :: "string \<Rightarrow> (string \<times> string) res"
  sys_Unmarshal_tools :: "string \<Rightarrow> (requirement list \<times> string list) res"
  sys_Decode_SBOM :: "string \<Rightarrow> (releaseSBOM \<times> string) res"

section \<open>Sequencing\<close>

type_synonym 'a gate = "gstate \<Rightarrow> 'a res \<times> gstate"

definition g_return :: "'a \<Rightarrow> 'a gate" where
  "g_return x st = (Inr x, st)"

definition g_fail :: "go_error \<Rightarrow> 'a gate" where
  "g_fail e st = (Inl e, st)"

definition g_bind :: "'a gate \<Rightarrow> ('a \<Rightarrow> 'b gate) \<Rightarrow> 'b gate" where
  "g_bind m f st = (case m st of (Inl e, st') \<Rightarrow> (Inl e, st') | (Inr x, st') \<Rightarrow> f x st')"

definition g_lift :: "'a res \<Rightarrow> 'a gate" where
  "g_lift r st = (r, st)"

text \<open>A failed operation whose error is returned with a context.\<close>

definition g_wrap :: "(go_error \<Rightarrow> go_error) \<Rightarrow> 'a gate \<Rightarrow> 'a gate" where
  "g_wrap f m st = (case m st of (Inl e, st') \<Rightarrow> (Inl (f e), st') | (Inr x, st') \<Rightarrow> (Inr x, st'))"

definition g_check :: "bool \<Rightarrow> go_error \<Rightarrow> unit gate" where
  "g_check bad e = (if bad then g_fail e else g_return ())"

text \<open>\<open>defer\<close> of a function that cannot change the result.\<close>

definition g_defer :: "(gstate \<Rightarrow> gstate) \<Rightarrow> 'a gate \<Rightarrow> 'a gate" where
  "g_defer f m st = (let (r, st') = m st in (r, f st'))"

text \<open>A clean-up that runs only when the operation has failed.\<close>

definition g_on_error :: "(gstate \<Rightarrow> gstate) \<Rightarrow> 'a gate \<Rightarrow> 'a gate" where
  "g_on_error f m st = (case m st of (Inl e, st') \<Rightarrow> (Inl e, f st') | (Inr x, st') \<Rightarrow> (Inr x, st'))"

fun g_each :: "('a \<Rightarrow> unit gate) \<Rightarrow> 'a list \<Rightarrow> unit gate" where
  "g_each f [] = g_return ()"
| "g_each f (x # xs) = g_bind (f x) (\<lambda>u. g_each f xs)"

definition log_event :: "event \<Rightarrow> gstate \<Rightarrow> gstate" where
  "log_event ev st = st\<lparr>g_log := g_log st @ [ev]\<rparr>"

definition g_print :: "string \<Rightarrow> err_arg list \<Rightarrow> unit gate" where
  "g_print msg args st = (Inr (), log_event (Printed msg args []) st)"

section \<open>System calls\<close>

definition ErrNotExist :: go_error where
  "ErrNotExist = errors_new ''file does not exist''"

definition next_fault :: "gstate \<Rightarrow> go_error option \<times> gstate" where
  "next_fault st = (case g_faults st of [] \<Rightarrow> (None, st) | e # es \<Rightarrow> (e, st\<lparr>g_faults := es\<rparr>))"

definition os_ReadFile :: "path \<Rightarrow> string gate" where
  "os_ReadFile p st =
     (case node_at p (g_fs st) of
        Some (RegularFile r) \<Rightarrow> (r, st)
      | Some (SpecialFile r) \<Rightarrow> (r, st)
      | Some n \<Rightarrow> (Inl (OtherError ''is a directory''), st)
      | None \<Rightarrow> (Inl (wrap ''open: %w'' ErrNotExist), st))"

definition os_WriteFile :: "path \<Rightarrow> string \<Rightarrow> unit gate" where
  "os_WriteFile p content st =
     (let (fault, st1) = next_fault (log_event (Created p) st) in
      case fault of
        Some e \<Rightarrow> (Inl e, st1)
      | None \<Rightarrow> (Inr (), st1\<lparr>g_fs := put_node p (RegularFile (Inr content)) (g_fs st1)\<rparr>))"

text \<open>The first drawn name that is not taken.\<close>

fun fresh_name :: "(string \<Rightarrow> string) \<Rightarrow> path \<Rightarrow> node \<Rightarrow> string list \<Rightarrow> (string \<times> string list) option" where
  "fresh_name pattern dir fs [] = None"
| "fresh_name pattern dir fs (r # rs) =
     (if node_at (dir @ [pattern r]) fs = None then Some (pattern r, rs) else fresh_name pattern dir fs rs)"

definition os_temp :: "sys \<Rightarrow> node \<Rightarrow> (string \<Rightarrow> string) \<Rightarrow> path gate" where
  "os_temp sys new pattern st =
     (let (fault, st1) = next_fault st in
      case fault of
        Some e \<Rightarrow> (Inl e, st1)
      | None \<Rightarrow>
          (case fresh_name pattern (sys_TempDir sys) (g_fs st1) (g_names st1) of
             None \<Rightarrow> (Inl (OtherError ''file exists''), st1\<lparr>g_names := []\<rparr>)
           | Some (name, rest) \<Rightarrow>
               let p = sys_TempDir sys @ [name] in
               (Inr p, log_event (Created p) (st1\<lparr>g_names := rest, g_fs := put_node p new (g_fs st1)\<rparr>))))"

definition os_CreateTemp :: "sys \<Rightarrow> string \<Rightarrow> string \<Rightarrow> path gate" where
  "os_CreateTemp sys pre post = os_temp sys (RegularFile (Inr [])) (\<lambda>r. pre @ r @ post)"

definition os_MkdirTemp :: "sys \<Rightarrow> string \<Rightarrow> path gate" where
  "os_MkdirTemp sys pre = os_temp sys (Folder []) (\<lambda>r. pre @ r)"

text \<open>\<open>file.Write\<close> on a file that has just been created, and \<open>file.Close\<close>.\<close>

definition file_Write :: "path \<Rightarrow> string \<Rightarrow> unit gate" where
  "file_Write p content st =
     (let (fault, st1) = next_fault st in
      case fault of
        Some e \<Rightarrow> (Inl e, st1)
      | None \<Rightarrow> (Inr (), st1\<lparr>g_fs := put_node p (RegularFile (Inr content)) (g_fs st1)\<rparr>))"

definition file_Close :: "unit gate" where
  "file_Close st = (let (fault, st1) = next_fault st in (case fault of Some e \<Rightarrow> Inl e | None \<Rightarrow> Inr (), st1))"

definition os_Remove :: "path \<Rightarrow> unit gate" where
  "os_Remove p st =
     (if node_at p (g_fs st) = None then
        (let e = wrap ''remove: %w'' ErrNotExist in (Inl e, log_event (Removing p (Some e)) st))
      else
        let (fault, st1) = next_fault st; st2 = log_event (Removing p fault) st1 in
        (case fault of
           Some e \<Rightarrow> (Inl e, st2)
         | None \<Rightarrow> (Inr (), st2\<lparr>g_fs := remove_node p (g_fs st2)\<rparr>)))"

definition os_RemoveAll :: "path \<Rightarrow> unit gate" where
  "os_RemoveAll p st =
     (let (fault, st1) = next_fault st; st2 = log_event (RemovingTree p fault) st1 in
      case fault of
        Some e \<Rightarrow> (Inl e, st2)
      | None \<Rightarrow> (Inr (), st2\<lparr>g_fs := remove_node p (g_fs st2)\<rparr>))"

text \<open>\<open>os.OpenRoot\<close>; closing it is a system call, too.\<close>

definition os_OpenRoot :: "path \<Rightarrow> node gate" where
  "os_OpenRoot p st =
     (case node_at p (g_fs st) of
        Some (Folder es) \<Rightarrow> (Inr (Folder es), st)
      | Some (LockedFolder e) \<Rightarrow> (Inr (LockedFolder e), st)
      | Some n \<Rightarrow> (Inl (OtherError ''not a directory''), st)
      | None \<Rightarrow> (Inl (wrap ''open: %w'' ErrNotExist), st))"

definition run_process :: "sys \<Rightarrow> call \<Rightarrow> gstate \<Rightarrow> process_end \<times> gstate" where
  "run_process sys c st =
     (let (result, fs) = sys_exec sys (g_log st) c (g_fs st) in
      (result, (log_event (Ran c) st)\<lparr>g_fs := fs\<rparr>))"

section \<open>What a computation does\<close>

text \<open>All events that a computation adds to the log satisfy a predicate.\<close>

definition emits :: "(event \<Rightarrow> bool) \<Rightarrow> 'a gate \<Rightarrow> bool" where
  "emits ok m = (\<forall>st. \<exists>new. g_log (snd (m st)) = g_log st @ new \<and> list_all ok new)"

named_theorems emits_rules \<open>composition of event predicates\<close>

lemma emitsI:
  assumes "\<And>st. \<exists>new. g_log (snd (m st)) = g_log st @ new \<and> list_all ok new"
  shows "emits ok m"
  using assms by (simp add: emits_def)

lemma emits_quiet: "(\<And>st. g_log (snd (m st)) = g_log st) \<Longrightarrow> emits ok m"
  by (auto simp: emits_def)

lemma emits_weaken: "emits ok m \<Longrightarrow> (\<And>ev. ok ev \<Longrightarrow> ok' ev) \<Longrightarrow> emits ok' m"
  unfolding emits_def by (metis (mono_tags, lifting) list.pred_mono_strong)

lemma emits_bind [emits_rules]:
  assumes "emits ok m" "\<And>x. emits ok (f x)"
  shows "emits ok (g_bind m f)"
proof (rule emitsI)
  fix st
  obtain r st1 where m: "m st = (r, st1)" by (cases "m st")
  obtain new1 where new1: "g_log st1 = g_log st @ new1" "list_all ok new1"
    using assms(1) m unfolding emits_def by (metis snd_conv)
  show "\<exists>new. g_log (snd (g_bind m f st)) = g_log st @ new \<and> list_all ok new"
  proof (cases r)
    case (Inl e)
    then show ?thesis using m new1 by (simp add: g_bind_def)
  next
    case (Inr x)
    obtain new2 where "g_log (snd (f x st1)) = g_log st1 @ new2" "list_all ok new2"
      using assms(2) unfolding emits_def by metis
    then show ?thesis using m new1 Inr by (auto simp: g_bind_def intro!: exI [of _ "new1 @ new2"])
  qed
qed

lemma emits_return [emits_rules]: "emits ok (g_return x)"
  by (rule emits_quiet) (simp add: g_return_def)

lemma emits_fail [emits_rules]: "emits ok (g_fail e)"
  by (rule emits_quiet) (simp add: g_fail_def)

lemma emits_lift [emits_rules]: "emits ok (g_lift r)"
  by (rule emits_quiet) (simp add: g_lift_def)

lemma emits_check [emits_rules]: "emits ok (g_check bad e)"
  by (simp add: g_check_def emits_return emits_fail)

lemma emits_wrap [emits_rules]: "emits ok m \<Longrightarrow> emits ok (g_wrap f m)"
  unfolding emits_def g_wrap_def by (auto split: prod.splits sum.splits) (metis snd_conv)+

lemma emits_print [emits_rules]: "ok (Printed msg args []) \<Longrightarrow> emits ok (g_print msg args)"
  by (rule emitsI) (simp add: g_print_def log_event_def)

lemma emits_each [emits_rules]: "(\<And>x. x \<in> set xs \<Longrightarrow> emits ok (f x)) \<Longrightarrow> emits ok (g_each f xs)"
  by (induction xs) (auto intro!: emits_rules)

lemma emits_if [emits_rules]: "(b \<Longrightarrow> emits ok m) \<Longrightarrow> (\<not> b \<Longrightarrow> emits ok m') \<Longrightarrow> emits ok (if b then m else m')"
  by simp

lemma next_fault_log [simp]: "g_log (snd (next_fault st)) = g_log st" "g_fs (snd (next_fault st)) = g_fs st"
  by (simp_all add: next_fault_def split: list.split)

lemma log_event_simps [simp]: "g_log (log_event ev st) = g_log st @ [ev]" "g_fs (log_event ev st) = g_fs st"
  by (simp_all add: log_event_def)

lemma next_fault_keeps: "next_fault st = (e, st') \<Longrightarrow> g_log st' = g_log st \<and> g_fs st' = g_fs st"
  using next_fault_log [of st] by simp

lemma emits_ReadFile [emits_rules]: "emits ok (os_ReadFile p)"
  by (rule emits_quiet) (simp add: os_ReadFile_def split: option.split node.split)

lemma emits_OpenRoot [emits_rules]: "emits ok (os_OpenRoot p)"
  by (rule emits_quiet) (simp add: os_OpenRoot_def split: option.split node.split)

lemma emits_WriteFile [emits_rules]: "ok (Created p) \<Longrightarrow> emits ok (os_WriteFile p content)"
  by (rule emitsI) (auto simp: os_WriteFile_def Let_def split: prod.splits option.splits dest!: next_fault_keeps)

lemma emits_temp [emits_rules]: "(\<And>p. ok (Created p)) \<Longrightarrow> emits ok (os_temp sys new pattern)"
  by (rule emitsI) (auto simp: os_temp_def Let_def split: prod.splits option.splits dest!: next_fault_keeps)

lemma emits_CreateTemp [emits_rules]: "(\<And>p. ok (Created p)) \<Longrightarrow> emits ok (os_CreateTemp sys pre post)"
  by (simp add: os_CreateTemp_def emits_temp)

lemma emits_MkdirTemp [emits_rules]: "(\<And>p. ok (Created p)) \<Longrightarrow> emits ok (os_MkdirTemp sys pre)"
  by (simp add: os_MkdirTemp_def emits_temp)

lemma emits_Write [emits_rules]: "emits ok (file_Write p content)"
  by (rule emits_quiet) (auto simp: file_Write_def Let_def split: prod.splits option.splits dest!: next_fault_keeps)

lemma emits_Close [emits_rules]: "emits ok file_Close"
  by (rule emits_quiet) (auto simp: file_Close_def Let_def split: prod.splits option.splits dest!: next_fault_keeps)

lemma emits_Remove [emits_rules]: "(\<And>r. ok (Removing p r)) \<Longrightarrow> emits ok (os_Remove p)"
  by (rule emitsI) (auto simp: os_Remove_def Let_def split: prod.splits option.splits dest!: next_fault_keeps)

lemma emits_RemoveAll [emits_rules]: "(\<And>r. ok (RemovingTree p r)) \<Longrightarrow> emits ok (os_RemoveAll p)"
  by (rule emitsI) (auto simp: os_RemoveAll_def Let_def split: prod.splits option.splits dest!: next_fault_keeps)

text \<open>The state that a computation leaves, as a computation of its own.\<close>

lemma emits_defer [emits_rules]:
  assumes "emits ok m" "\<And>st. \<exists>new. g_log (f st) = g_log st @ new \<and> list_all ok new"
  shows "emits ok (g_defer f m)"
proof (rule emitsI)
  fix st
  obtain new1 where "g_log (snd (m st)) = g_log st @ new1" "list_all ok new1"
    using assms(1) unfolding emits_def by blast
  moreover obtain new2 where "g_log (f (snd (m st))) = g_log (snd (m st)) @ new2" "list_all ok new2"
    using assms(2) by blast
  ultimately show "\<exists>new. g_log (snd (g_defer f m st)) = g_log st @ new \<and> list_all ok new"
    by (auto simp: g_defer_def split_beta Let_def intro!: exI [of _ "new1 @ new2"])
qed

lemma emits_on_error [emits_rules]:
  assumes "emits ok m" "\<And>st. \<exists>new. g_log (f st) = g_log st @ new \<and> list_all ok new"
  shows "emits ok (g_on_error f m)"
proof (rule emitsI)
  fix st
  obtain r st1 where m: "m st = (r, st1)" by (cases "m st")
  obtain new1 where new1: "g_log st1 = g_log st @ new1" "list_all ok new1"
    using assms(1) m unfolding emits_def by (metis snd_conv)
  obtain new2 where "g_log (f st1) = g_log st1 @ new2" "list_all ok new2"
    using assms(2) by blast
  then show "\<exists>new. g_log (snd (g_on_error f m st)) = g_log st @ new \<and> list_all ok new"
    using m new1 by (cases r) (auto simp: g_on_error_def intro!: exI [of _ "new1 @ new2"])
qed

text \<open>A process that satisfies the predicate.\<close>

lemma run_process_log: "run_process sys c st = (result, st') \<Longrightarrow> g_log st' = g_log st @ [Ran c]"
  by (auto simp: run_process_def split_beta)

end
