(* ===== verification/Gate_Exec.thy ===== *)
theory Gate_Exec
  imports Gate_World
begin

text \<open>
  How the quality gate starts processes: the two environments, the four ways to run a command, the
  resolution of tools and of the repository root, and the digests of a directory tree.
\<close>

section \<open>Constants\<close>

definition requiredGoVersion :: string where "requiredGoVersion = ''go1.26.6''"
definition modulePath :: string where "modulePath = ''github.com/spice-framework/starter-websocket''"
definition spiceModulePath :: string where "spiceModulePath = ''github.com/spice-framework/spice''"
definition minimumCoverage :: float64 where "minimumCoverage = Finite 85 0"
definition compatibilityFile :: string where "compatibilityFile = ''spice-compatibility.json''"
definition compatibilityV1 :: int where "compatibilityV1 = 1"

section \<open>Environments\<close>

text \<open>
  \<open>strings.ToUpper\<close> as far as the result can be ASCII: the letters, and the two other characters whose
  upper case is an ASCII letter, U+017F (\<open>C5 BF\<close>) and U+0131 (\<open>C4 B1\<close>). The rest of a text
  stays as it is: it is not ASCII before or after, and it is only compared with ASCII names.
\<close>

fun to_upper_text :: "string \<Rightarrow> string" where
  "to_upper_text (a # b # s) =
     (if a = CHR 0xC5 \<and> b = CHR 0xBF then CHR ''S'' # to_upper_text s
      else if a = CHR 0xC4 \<and> b = CHR 0xB1 then CHR ''I'' # to_upper_text s
      else to_upper a # to_upper_text (b # s))"
| "to_upper_text [a] = [to_upper a]"
| "to_upper_text [] = []"

text \<open>\<open>maps.Copy\<close> on association lists.\<close>

fun map_put :: "string \<Rightarrow> string \<Rightarrow> (string \<times> string) list \<Rightarrow> (string \<times> string) list" where
  "map_put k v [] = [(k, v)]"
| "map_put k v ((k', v') # kvs) = (if k = k' then (k, v) # kvs else (k', v') # map_put k v kvs)"

definition maps_Copy :: "(string \<times> string) list \<Rightarrow> (string \<times> string) list \<Rightarrow> (string \<times> string) list" where
  "maps_Copy values overrides = fold (\<lambda>(k, v). map_put k v) overrides values"

text \<open>The entries of the inherited environment that the values do not replace, with the values, sorted.\<close>

definition kept_entry :: "(string \<times> string) list \<Rightarrow> string \<Rightarrow> bool" where
  "kept_entry values entry =
     (case cut_at (CHR ''='') entry of
        None \<Rightarrow> False
      | Some (key, rest) \<Rightarrow> to_upper_text key \<notin> fst ` set values)"

definition entry_text :: "string \<times> string \<Rightarrow> string" where
  "entry_text kv = fst kv @ CHR ''='' # snd kv"

definition environment_with :: "(string \<times> string) list \<Rightarrow> string list \<Rightarrow> string list" where
  "environment_with values environ = sort (filter (kept_entry values) environ @ map entry_text values)"

definition mergedEnvironment :: "string list \<Rightarrow> (string \<times> string) list \<Rightarrow> string list" where
  "mergedEnvironment environ overrides =
     environment_with
       (maps_Copy [(''GOWORK'', ''off''), (''GOPROXY'', ''off''), (''GOFLAGS'', []), (''GOTOOLCHAIN'', ''local'')] overrides)
       environ"

definition onlineEnvironment :: "string list \<Rightarrow> string list" where
  "onlineEnvironment environ =
     environment_with [(''GOWORK'', ''off''), (''GOFLAGS'', []), (''GOTOOLCHAIN'', ''local'')] environ"

section \<open>Commands\<close>

definition command_text :: "string \<Rightarrow> string list \<Rightarrow> err_arg list" where
  "command_text exe args = [AStr exe, AStr (join_with '' '' args)]"

definition command_call :: "sys \<Rightarrow> path \<Rightarrow> (string \<times> string) list \<Rightarrow> string \<Rightarrow> string list \<Rightarrow> call" where
  "command_call sys dir environment exe args =
     \<lparr>call_dir = dir, call_env = mergedEnvironment (sys_Environ sys) environment, call_exe = exe, call_args = args\<rparr>"

definition network_call :: "sys \<Rightarrow> path \<Rightarrow> string list \<Rightarrow> call" where
  "network_call sys dir args =
     \<lparr>call_dir = dir, call_env = onlineEnvironment (sys_Environ sys), call_exe = ''go'', call_args = args\<rparr>"

definition command :: "sys \<Rightarrow> path \<Rightarrow> (string \<times> string) list \<Rightarrow> string \<Rightarrow> string list \<Rightarrow> unit gate" where
  "command sys dir environment exe args st =
     (let (result, st1) = run_process sys (command_call sys dir environment exe args) st in
      case pr_err result of
        Some err \<Rightarrow> (Inl (Errorf ''%s %s: %w'' (command_text exe args) [err]), st1)
      | None \<Rightarrow> (Inr (), st1))"

definition networkCommand :: "sys \<Rightarrow> path \<Rightarrow> string list \<Rightarrow> unit gate" where
  "networkCommand sys dir args st =
     (let (result, st1) = run_process sys (network_call sys dir args) st in
      case pr_err result of
        Some err \<Rightarrow> (Inl (Errorf ''go %s: %w'' [AStr (join_with '' '' args)] [err]), st1)
      | None \<Rightarrow> (Inr (), st1))"

definition networkCapture :: "sys \<Rightarrow> path \<Rightarrow> string list \<Rightarrow> string gate" where
  "networkCapture sys dir args st =
     (let (result, st1) = run_process sys (network_call sys dir args) st in
      case pr_err result of
        Some err \<Rightarrow> (Inl (Errorf ''go %s: %w\<newline>%s'' [AStr (join_with '' '' args), AStr (trim_space (pr_stderr result))] [err]), st1)
      | None \<Rightarrow> (Inr (pr_stdout result), st1))"

definition capture :: "sys \<Rightarrow> path \<Rightarrow> (string \<times> string) list \<Rightarrow> string \<Rightarrow> string list \<Rightarrow> string gate" where
  "capture sys dir environment exe args st =
     (let (result, st1) = run_process sys (command_call sys dir environment exe args) st in
      case pr_err result of
        Some err \<Rightarrow>
          (Inl (Errorf ''%s %s: %w\<newline>%s'' (command_text exe args @ [AStr (trim_space (pr_stderr result))]) [err]), st1)
      | None \<Rightarrow> (Inr (pr_stdout result), st1))"

definition toolPath :: "sys \<Rightarrow> path \<Rightarrow> string \<Rightarrow> string gate" where
  "toolPath sys root name =
     g_bind (capture sys root [] ''go'' [''tool'', ''-C'', ''tools'', ''-n'', name]) (\<lambda>stdout.
       let p = trim_space stdout in
       if p = [] then g_fail (Errorf ''resolve tool %q: empty path'' [AStr name] []) else g_return p)"

section \<open>The repository root\<close>

function find_root :: "path \<Rightarrow> path gate" where
  "find_root current st =
     (case os_ReadFile (current @ [''go.mod'']) st of
        (Inr content, st1) \<Rightarrow>
          if contains content (''module '' @ modulePath) then (Inr current, st1)
          else if current = [] then (Inl (errors_new ''find starter-websocket repository root: go.mod not found''), st1)
          else find_root (butlast current) st1
      | (Inl e, st1) \<Rightarrow>
          if current = [] then (Inl (errors_new ''find starter-websocket repository root: go.mod not found''), st1)
          else find_root (butlast current) st1)"
  by pat_completeness auto
termination by (relation "measure (\<lambda>(current, st). length current)") auto

declare find_root.simps [simp del]

definition repositoryRoot :: "sys \<Rightarrow> path gate" where
  "repositoryRoot sys =
     g_bind (g_wrap (wrap ''get working directory: %w'') (g_lift (sys_Getwd sys))) find_root"

section \<open>Directory trees\<close>

type_synonym digests = "(string \<times> string) list"

text \<open>\<open>maps.Equal\<close> of two maps without duplicate keys.\<close>

definition maps_Equal :: "digests \<Rightarrow> digests \<Rightarrow> bool" where
  "maps_Equal a b = (length a = length b \<and> list_all (\<lambda>(k, v). map_of b k = Some v) a)"

text \<open>
  \<open>fs.WalkDir\<close> with the function of \<open>treeDigests\<close>: every entry that is not a directory is read and
  hashed; the first error ends the walk.
\<close>

fun walk_digests :: "sys \<Rightarrow> path \<Rightarrow> node \<Rightarrow> digests res"
  and walk_digests_list :: "sys \<Rightarrow> path \<Rightarrow> (string \<times> node) list \<Rightarrow> digests res" where
  "walk_digests sys rel (RegularFile r) = res_bind r (\<lambda>content. Inr [(rel_text rel, sys_Sum256 sys content)])"
| "walk_digests sys rel (SpecialFile r) = res_bind r (\<lambda>content. Inr [(rel_text rel, sys_Sum256 sys content)])"
| "walk_digests sys rel (LockedFolder e) = Inl e"
| "walk_digests sys rel (Folder es) = walk_digests_list sys rel es"
| "walk_digests_list sys rel [] = Inr []"
| "walk_digests_list sys rel ((c, n) # es) =
     res_bind (walk_digests sys (rel @ [c]) n) (\<lambda>ds. res_bind (walk_digests_list sys rel es) (\<lambda>ds'. Inr (ds @ ds')))"

text \<open>The deferred close of the root; a failure is only printed.\<close>

definition close_root :: "string \<Rightarrow> path \<Rightarrow> gstate \<Rightarrow> gstate" where
  "close_root msg root st =
     (case file_Close st of
        (Inl e, st1) \<Rightarrow> log_event (Printed msg [AStr (path_text root)] [e]) st1
      | (Inr u, st1) \<Rightarrow> st1)"

definition treeDigests :: "sys \<Rightarrow> path \<Rightarrow> digests gate" where
  "treeDigests sys root =
     g_bind (g_wrap (wrap ''open vendor root: %w'') (os_OpenRoot root)) (\<lambda>opened.
       g_defer (close_root ''warning: close vendor root %q: %v'' root) (g_lift (walk_digests sys [] opened)))"

definition removeTree :: "path \<Rightarrow> gstate \<Rightarrow> gstate" where
  "removeTree p st =
     (case os_RemoveAll p st of
        (Inl e, st1) \<Rightarrow> log_event (Printed ''warning: remove temporary tree %q: %v'' [AStr (path_text p)] [e]) st1
      | (Inr u, st1) \<Rightarrow> st1)"

end
