(* ===== verification/Gate_Compat.thy ===== *)
theory Gate_Compat
  imports Gate_Exec
begin

text \<open>
  The identity of the repository and its compatibility with the two Spice core lines: the recorded
  versions, the alternate module files, and the verification of one boundary, which must leave the
  repository as it was.
\<close>

section \<open>Recorded versions\<close>

definition readCompatibility :: "sys \<Rightarrow> path \<Rightarrow> compatibilityVersions gate" where
  "readCompatibility sys root =
     g_bind (g_wrap (\<lambda>e. Errorf ''read %s: %w'' [AStr compatibilityFile] [e]) (os_ReadFile (root @ [compatibilityFile])))
       (\<lambda>content.
     g_bind (g_wrap (\<lambda>e. Errorf ''decode %s: %w'' [AStr compatibilityFile] [e]) (g_lift (sys_Decode_compatibility sys content)))
       (\<lambda>(result, rest).
     g_bind (case sys_Decode_raw sys rest of
               Inr extra \<Rightarrow> g_fail (Errorf ''%s has trailing JSON values'' [AStr compatibilityFile] [])
             | Inl e \<Rightarrow>
                 g_check (\<not> errors_is e ErrEOF) (Errorf ''decode trailing %s content: %w'' [AStr compatibilityFile] [e]))
       (\<lambda>u.
     g_bind (g_check (cv_Schema result \<noteq> compatibilityV1)
               (Errorf ''%s schema %d is unsupported'' [AStr compatibilityFile, AInt (cv_Schema result)] [])) (\<lambda>u.
     g_bind (g_check (trim_space (cv_Minimum result) = [] \<or> trim_space (cv_Current result) = [])
               (Errorf ''%s requires explicit minimum and current versions'' [AStr compatibilityFile] [])) (\<lambda>u.
     g_bind (g_check (trim_space (cv_Minimum result) \<noteq> cv_Minimum result \<or> trim_space (cv_Current result) \<noteq> cv_Current result)
               (Errorf ''%s versions must not contain surrounding whitespace'' [AStr compatibilityFile] [])) (\<lambda>u.
     g_return result))))))"

record compatibilityBoundary =
  cb_Name :: string
  cb_Version :: string

definition boundaries :: "compatibilityVersions \<Rightarrow> string \<Rightarrow> compatibilityBoundary list res" where
  "boundaries versions line =
     (if line = ''minimum'' then Inr [\<lparr>cb_Name = ''minimum'', cb_Version = cv_Minimum versions\<rparr>]
      else if line = ''current'' then Inr [\<lparr>cb_Name = ''current'', cb_Version = cv_Current versions\<rparr>]
      else if line = ''all'' then
        Inr [\<lparr>cb_Name = ''minimum'', cb_Version = cv_Minimum versions\<rparr>,
             \<lparr>cb_Name = ''current'', cb_Version = cv_Current versions\<rparr>]
      else Inl (Errorf ''compatibility line %q is invalid; require minimum, current, or all'' [AStr line] []))"

section \<open>Identity\<close>

fun first_requirement :: "string \<Rightarrow> requirement list \<Rightarrow> string option" where
  "first_requirement module [] = None"
| "first_requirement module (r # rs) =
     (if rq_Path r = module \<and> \<not> rq_Indirect r \<and> rq_Version r \<noteq> [] then Some (rq_Version r)
      else first_requirement module rs)"

definition directRequirement :: "sys \<Rightarrow> path \<Rightarrow> string \<Rightarrow> string gate" where
  "directRequirement sys root module =
     g_bind (g_wrap (wrap ''read direct module requirements: %w'') (capture sys root [] ''go'' [''mod'', ''edit'', ''-json'']))
       (\<lambda>content.
     g_bind (g_wrap (wrap ''decode go.mod metadata: %w'') (g_lift (sys_Unmarshal_require sys content))) (\<lambda>require.
     case first_requirement module require of
       Some version \<Rightarrow> g_return version
     | None \<Rightarrow> g_fail (Errorf ''go.mod must directly require %s at an exact version'' [AStr module] [])))"

definition newline :: string where
  "newline = [CHR 0x0A]"

definition checkIdentity :: "sys \<Rightarrow> path \<Rightarrow> unit gate" where
  "checkIdentity sys root =
     g_bind (g_wrap (wrap ''read go.mod: %w'') (os_ReadFile (root @ [''go.mod'']))) (\<lambda>content.
     g_bind (g_check (\<not> contains content (''module '' @ modulePath @ newline))
               (Errorf ''go.mod does not declare canonical module %s'' [AStr modulePath] [])) (\<lambda>u.
     g_bind (g_check (contains content (newline @ ''replace '') \<or> contains content (newline @ ''replace (''))
               (errors_new ''committed go.mod must not contain replace directives'')) (\<lambda>u.
     g_bind (readCompatibility sys root) (\<lambda>versions.
     g_bind (directRequirement sys root spiceModulePath) (\<lambda>minimum.
     g_check (minimum \<noteq> cv_Minimum versions)
       (Errorf ''go.mod directly requires %s at %s; compatibility minimum is %s''
          [AStr spiceModulePath, AStr minimum, AStr (cv_Minimum versions)] []))))))"

section \<open>Alternate module files\<close>

definition sumfile_of :: "path \<Rightarrow> path" where
  "sumfile_of modfile = butlast modfile @ [trim_suffix (last modfile) ''.mod'' @ ''.sum'']"

definition cleanup_file :: "path \<Rightarrow> gstate \<Rightarrow> gstate" where
  "cleanup_file p st =
     (case os_Remove p st of
        (Inl e, st1) \<Rightarrow>
          if \<not> errors_is e ErrNotExist then
            log_event (Printed ''warning: remove compatibility file %q: %v'' [AStr (path_text p)] [e]) st1
          else st1
      | (Inr u, st1) \<Rightarrow> st1)"

definition cleanup_modfile :: "path \<Rightarrow> gstate \<Rightarrow> gstate" where
  "cleanup_modfile modfile st = cleanup_file (sumfile_of modfile) (cleanup_file modfile st)"

text \<open>A failed write also closes the file; both errors are joined.\<close>

definition write_modfile :: "path \<Rightarrow> string \<Rightarrow> unit gate" where
  "write_modfile modfile content st =
     (case file_Write modfile content st of
        (Inl e, st1) \<Rightarrow>
          (case file_Close st1 of
             (r, st2) \<Rightarrow>
               (Inl (Joined (wrap ''write compatibility modfile: %w'' e # (case r of Inl e' \<Rightarrow> [e'] | Inr u \<Rightarrow> []))), st2))
      | (Inr u, st1) \<Rightarrow> g_wrap (wrap ''close compatibility modfile: %w'') file_Close st1)"

definition alternateModfile :: "sys \<Rightarrow> path \<Rightarrow> string \<Rightarrow> path gate" where
  "alternateModfile sys root spiceVersion =
     g_bind (g_wrap (wrap ''read product go.mod: %w'') (os_ReadFile (root @ [''go.mod'']))) (\<lambda>productMod.
     g_bind (g_wrap (wrap ''read product go.sum: %w'') (os_ReadFile (root @ [''go.sum'']))) (\<lambda>productSum.
     g_bind (g_wrap (wrap ''create compatibility modfile: %w'')
               (os_CreateTemp sys ''spice-starter-websocket-compat-'' ''.mod'')) (\<lambda>modfile.
     g_on_error (cleanup_modfile modfile)
       (g_bind (write_modfile modfile productMod) (\<lambda>u.
        g_bind (g_wrap (wrap ''write compatibility sumfile: %w'') (os_WriteFile (sumfile_of modfile) productSum)) (\<lambda>u.
        g_bind (command sys root [] ''go''
                  [''mod'', ''edit'', ''-modfile='' @ path_text modfile, ''-require='' @ spiceModulePath @ ''@'' @ spiceVersion])
          (\<lambda>u. g_return modfile)))))))"

section \<open>Preparation\<close>

definition resolveExactCoreVersion :: "sys \<Rightarrow> path \<Rightarrow> string \<Rightarrow> unit gate" where
  "resolveExactCoreVersion sys root version =
     g_bind (networkCapture sys root [''list'', ''-mod=mod'', ''-m'', ''-json'', spiceModulePath @ ''@'' @ version]) (\<lambda>content.
     g_bind (g_wrap (wrap ''decode resolved Spice module: %w'') (g_lift (sys_Unmarshal_module sys content)))
       (\<lambda>(mpath, mversion).
     g_check (mpath \<noteq> spiceModulePath \<or> mversion \<noteq> version)
       (Errorf ''spice version resolved as %s@%s; require exactly %s@%s''
          [AStr mpath, AStr mversion, AStr spiceModulePath, AStr version] [])))"

definition prepare_boundary :: "sys \<Rightarrow> path \<Rightarrow> compatibilityBoundary \<Rightarrow> unit gate" where
  "prepare_boundary sys root boundary =
     g_bind (g_wrap (\<lambda>e. Errorf ''validate %s Spice version: %w'' [AStr (cb_Name boundary)] [e])
               (resolveExactCoreVersion sys root (cb_Version boundary))) (\<lambda>u.
     g_bind (alternateModfile sys root (cb_Version boundary)) (\<lambda>modfile.
     g_wrap (\<lambda>e. Errorf ''prepare %s Spice graph: %w'' [AStr (cb_Name boundary)] [e])
       (g_defer (cleanup_modfile modfile)
          (networkCommand sys root [''mod'', ''download'', ''-modfile='' @ path_text modfile]))))"

definition prepareCompatibilityDependencies :: "sys \<Rightarrow> path \<Rightarrow> string \<Rightarrow> unit gate" where
  "prepareCompatibilityDependencies sys root line =
     g_bind (readCompatibility sys root) (\<lambda>versions.
     g_bind (g_lift (boundaries versions line)) (g_each (prepare_boundary sys root)))"

section \<open>Verification of a boundary\<close>

definition compatibilityPackages :: "sys \<Rightarrow> path \<Rightarrow> path \<Rightarrow> string list gate" where
  "compatibilityPackages sys root modfile =
     g_bind (g_wrap (wrap ''list compatibility product packages: %w'')
               (capture sys root [(''GOFLAGS'', ''-mod=mod'')] ''go''
                  [''list'', ''-mod=mod'', ''-modfile='' @ path_text modfile, ''-f={{.ImportPath}}'', ''./...''])) (\<lambda>content.
       let result = sort (filter (\<lambda>candidate. candidate \<noteq> modulePath @ ''/internal/qualitygate'') (str_fields content)) in
       if result = [] then g_fail (errors_new ''compatibility graph contains no product packages'')
       else g_return result)"

text \<open>The walk of \<open>compatibilityState\<close>: regular files outside of directories named \<open>.git\<close>.\<close>

fun walk_state :: "sys \<Rightarrow> path \<Rightarrow> node \<Rightarrow> digests res"
  and walk_state_list :: "sys \<Rightarrow> path \<Rightarrow> (string \<times> node) list \<Rightarrow> digests res" where
  "walk_state sys rel (RegularFile r) =
     (case r of
        Inl e \<Rightarrow> Inl (Errorf ''read compatibility state %q: %w'' [AStr (rel_text rel)] [e])
      | Inr content \<Rightarrow> Inr [(rel_text rel, sys_Sum256 sys content)])"
| "walk_state sys rel (SpecialFile r) = Inr []"
| "walk_state sys rel (LockedFolder e) = (if rel \<noteq> [] \<and> last rel = ''.git'' then Inr [] else Inl e)"
| "walk_state sys rel (Folder es) = (if rel \<noteq> [] \<and> last rel = ''.git'' then Inr [] else walk_state_list sys rel es)"
| "walk_state_list sys rel [] = Inr []"
| "walk_state_list sys rel ((c, n) # es) =
     res_bind (walk_state sys (rel @ [c]) n) (\<lambda>ds. res_bind (walk_state_list sys rel es) (\<lambda>ds'. Inr (ds @ ds')))"

definition compatibilityState :: "sys \<Rightarrow> path \<Rightarrow> digests gate" where
  "compatibilityState sys root =
     g_bind (g_wrap (wrap ''open compatibility repository root: %w'') (os_OpenRoot root)) (\<lambda>opened.
       g_defer (close_root ''warning: close compatibility repository root %q: %v'' root)
         (g_lift (walk_state sys [] opened)))"

text \<open>The checks under one alternate module file.\<close>

definition check_boundary :: "sys \<Rightarrow> path \<Rightarrow> compatibilityBoundary \<Rightarrow> path \<Rightarrow> unit gate" where
  "check_boundary sys root boundary modfile =
     (let vendor = [(''GOFLAGS'', ''-mod=mod'')]; flag = ''-modfile='' @ path_text modfile in
     g_bind (g_wrap (\<lambda>e. Errorf ''resolve %s MVS graph: %w'' [AStr (cb_Name boundary)] [e])
               (capture sys root vendor ''go''
                  [''list'', ''-mod=mod'', flag, ''-m'', ''-f={{.Version}}'', spiceModulePath])) (\<lambda>selected.
     g_bind (g_check (trim_space selected \<noteq> cb_Version boundary)
               (Errorf ''%s MVS graph selected Spice %q; require exactly %q''
                  [AStr (cb_Name boundary), AStr (trim_space selected), AStr (cb_Version boundary)] [])) (\<lambda>u.
     g_bind (compatibilityPackages sys root modfile) (\<lambda>packages.
     g_bind (g_print ''testing %s Spice %s across %s''
               [AStr (cb_Name boundary), AStr (cb_Version boundary), AStr (join_with '', '' packages)]) (\<lambda>u.
     g_bind (command sys root vendor ''go'' ([''vet'', ''-mod=mod'', flag] @ packages)) (\<lambda>u.
     command sys root vendor ''go''
       ([''test'', ''-mod=mod'', flag, ''-race'', ''-shuffle=on'', ''-count=1''] @ packages)))))))"

text \<open>The deferred comparison of the states before and after.\<close>

definition compare_state :: "sys \<Rightarrow> path \<Rightarrow> digests \<Rightarrow> unit gate \<Rightarrow> unit gate" where
  "compare_state sys root before m st =
     (let (result, st1) = m st;
          returnErr = (case result of Inl e \<Rightarrow> Some e | Inr u \<Rightarrow> None);
          (after, st2) = compatibilityState sys root st1;
          joined = (case after of
                      Inl stateErr \<Rightarrow> errors_join [returnErr, Some stateErr]
                    | Inr state \<Rightarrow>
                        if \<not> maps_Equal before state then
                          errors_join [returnErr, Some (errors_new ''compatibility verification modified repository contents'')]
                        else returnErr)
      in (case joined of Some e \<Rightarrow> Inl e | None \<Rightarrow> Inr (), st2))"

definition verifyCompatibilityBoundary :: "sys \<Rightarrow> path \<Rightarrow> compatibilityBoundary \<Rightarrow> unit gate" where
  "verifyCompatibilityBoundary sys root boundary =
     g_bind (compatibilityState sys root) (\<lambda>before.
     compare_state sys root before
       (g_bind (alternateModfile sys root (cb_Version boundary)) (\<lambda>modfile.
        g_defer (cleanup_modfile modfile) (check_boundary sys root boundary modfile))))"

definition coreCompatibility :: "sys \<Rightarrow> path \<Rightarrow> string \<Rightarrow> unit gate" where
  "coreCompatibility sys root line =
     g_bind (readCompatibility sys root) (\<lambda>versions.
     g_bind (g_lift (boundaries versions line)) (g_each (verifyCompatibilityBoundary sys root)))"

end
