(* ===== verification/Gate_Release.thy ===== *)
theory Gate_Release
  imports Gate_Compat
begin

text \<open>
  The release side of the quality gate: the authorization of the central release tools, the rehearsal
  that renders a release twice and validates the artifacts, and the release workflow.
\<close>

section \<open>Constants\<close>

definition developmentModule :: string where "developmentModule = ''github.com/spice-framework/development''"
definition developmentTool :: string where "developmentTool = developmentModule @ ''/cmd/spice-dev''"
definition developmentVersion :: string where "developmentVersion = ''v0.0.0-20260806132124-4c308d1b9fda''"
definition toolchainModule :: string where "toolchainModule = ''github.com/spice-framework/toolchain''"
definition toolchainTool :: string where "toolchainTool = toolchainModule @ ''/cmd/spice-library-release-verify''"
definition toolchainVersion :: string where "toolchainVersion = ''v0.0.0-20260806133530-71211498297c''"
definition rehearsalVersion :: string where "rehearsalVersion = ''v0.0.0-rehearsal''"

section \<open>Tool authorization\<close>

record authorization =
  au_module :: string
  au_tool :: string
  au_version :: string

definition authorizations :: "authorization list" where
  "authorizations =
     [\<lparr>au_module = developmentModule, au_tool = developmentTool, au_version = developmentVersion\<rparr>,
      \<lparr>au_module = toolchainModule, au_tool = toolchainTool, au_version = toolchainVersion\<rparr>]"

fun check_requirements :: "authorization \<Rightarrow> bool \<Rightarrow> requirement list \<Rightarrow> go_error option" where
  "check_requirements au found [] =
     (if \<not> found then
        Some (Errorf ''go.mod must require %s at exactly %s'' [AStr (au_module au), AStr (au_version au)] [])
      else None)"
| "check_requirements au found (r # rs) =
     (if rq_Path r \<noteq> au_module au then check_requirements au found rs
      else if rq_Version r \<noteq> au_version au then
        Some (Errorf ''go.mod selects release tool %s; require exactly %s'' [AStr (rq_Version r), AStr (au_version au)] [])
      else check_requirements au True rs)"

fun check_authorizations :: "requirement list \<Rightarrow> string list \<Rightarrow> authorization list \<Rightarrow> go_error option" where
  "check_authorizations require tools [] = None"
| "check_authorizations require tools (au # aus) =
     (let count = length (filter (\<lambda>t. t = au_tool au) tools) in
      if count \<noteq> 1 then
        Some (Errorf ''go.mod must authorize exactly one %s tool declaration; found %d'' [AStr (au_tool au), AInt (int count)] [])
      else
        (case check_requirements au False require of
           Some e \<Rightarrow> Some e
         | None \<Rightarrow> check_authorizations require tools aus))"

definition validateReleaseToolAuthorization :: "sys \<Rightarrow> string \<Rightarrow> go_error option" where
  "validateReleaseToolAuthorization sys content =
     (case sys_Unmarshal_tools sys content of
        Inl e \<Rightarrow> Some (wrap ''decode release tool authorization: %w'' e)
      | Inr (require, tools) \<Rightarrow> check_authorizations require tools authorizations)"

definition g_error :: "go_error option \<Rightarrow> unit gate" where
  "g_error e = (case e of Some err \<Rightarrow> g_fail err | None \<Rightarrow> g_return ())"

definition requireReleaseTool :: "sys \<Rightarrow> path \<Rightarrow> unit gate" where
  "requireReleaseTool sys root =
     g_bind (g_wrap (wrap ''read release tool authorization: %w'') (capture sys root [] ''go'' [''mod'', ''edit'', ''-json'']))
       (\<lambda>content. g_error (validateReleaseToolAuthorization sys content))"

section \<open>Artifacts\<close>

text \<open>The read of an artifact joins its error with that of the deferred close.\<close>

definition readReleaseArtifact :: "path \<Rightarrow> string \<Rightarrow> string gate" where
  "readReleaseArtifact rootPath name =
     g_bind (g_wrap (wrap ''open release artifact root: %w'') (os_OpenRoot rootPath)) (\<lambda>opened st.
       let (content, st1) = g_wrap (\<lambda>e. Errorf ''read release artifact %q: %w'' [AStr name] [e]) (os_ReadFile (rootPath @ [name])) st;
           (closed, st2) = file_Close st1;
           failure = (case content of Inl e \<Rightarrow> Some e | Inr c \<Rightarrow> None);
           closeErr = (case closed of Inl e \<Rightarrow> Some e | Inr u \<Rightarrow> None)
       in (case errors_join [failure, closeErr] of
             Some e \<Rightarrow> Inl e
           | None \<Rightarrow> content, st2))"

definition hex_char :: "nat \<Rightarrow> char" where
  "hex_char n = char_of (if n < 10 then 48 + n else 87 + n)"

definition hex_text :: "string \<Rightarrow> string" where
  "hex_text s = concat (map (\<lambda>c. [hex_char (of_char c div 16), hex_char (of_char c mod 16)]) s)"

definition digest_of :: "digests \<Rightarrow> string \<Rightarrow> string" where
  "digest_of artifacts name = (case map_of artifacts name of Some d \<Rightarrow> d | None \<Rightarrow> replicate 32 (CHR 0x00))"

definition checksum_line :: "digests \<Rightarrow> string \<Rightarrow> string" where
  "checksum_line artifacts name = hex_text (digest_of artifacts name) @ ''  '' @ name"

fun check_lines :: "nat \<Rightarrow> string list \<Rightarrow> string list \<Rightarrow> go_error option" where
  "check_lines index (line # lines) (want # wants) =
     (if line \<noteq> want then
        Some (Errorf ''checksums.txt line %d is %q; require canonical %q'' [AInt (int index + 1), AStr line, AStr want] [])
      else check_lines (index + 1) lines wants)"
| "check_lines index lines wants = None"

text \<open>The checks of \<open>validateReleaseChecksums\<close> on the content of the file.\<close>

definition check_checksums :: "string \<Rightarrow> digests \<Rightarrow> string list \<Rightarrow> go_error option" where
  "check_checksums content artifacts names =
     (if content = [] \<or> last content \<noteq> CHR 0x0A then
        Some (errors_new ''checksums.txt must end with one newline'')
      else
        let lines = split_on (CHR 0x0A) (trim_suffix content newline); ordered = sort names in
        if length lines \<noteq> length ordered then
          Some (Errorf ''checksums.txt has %d lines; require %d'' [AInt (int (length lines)), AInt (int (length ordered))] [])
        else check_lines 0 lines (map (checksum_line artifacts) ordered))"

definition validateReleaseChecksums :: "path \<Rightarrow> digests \<Rightarrow> string list \<Rightarrow> unit gate" where
  "validateReleaseChecksums root artifacts names =
     g_bind (readReleaseArtifact root ''checksums.txt'') (\<lambda>content. g_error (check_checksums content artifacts names))"

text \<open>
  \<open>validSBOMNamespace\<close> ranges over the runes of the digest. A byte of a rune outside ASCII, or of no
  rune at all, is not a digit either, so the bytes decide.
\<close>

definition validSBOMNamespace :: "string \<Rightarrow> string \<Rightarrow> bool" where
  "validSBOMNamespace value pre =
     (has_prefix value pre \<and>
      (let digest = drop (length pre) value in
       length digest = 64 \<and>
       list_all (\<lambda>c. CHR ''0'' \<le> c \<and> c \<le> CHR ''9'' \<or> CHR ''a'' \<le> c \<and> c \<le> CHR ''f'') digest))"

definition decodeReleaseSBOM :: "sys \<Rightarrow> string \<Rightarrow> releaseSBOM res" where
  "decodeReleaseSBOM sys content =
     (case sys_Decode_SBOM sys content of
        Inl e \<Rightarrow> Inl e
      | Inr (result, rest) \<Rightarrow>
          (case sys_Decode_raw sys rest of
             Inr extra \<Rightarrow> Inl (errors_new ''release SBOM has trailing JSON values'')
           | Inl e \<Rightarrow> if \<not> errors_is e ErrEOF then Inl e else Inr result))"

definition sbom_prefix :: string where
  "sbom_prefix = ''https://github.com/spice-framework/starter-websocket/releases/'' @ rehearsalVersion @ ''/spdx/v1/''"

definition validateReleaseSBOM :: "sys \<Rightarrow> string \<Rightarrow> go_error option" where
  "validateReleaseSBOM sys content =
     (case decodeReleaseSBOM sys content of
        Inl e \<Rightarrow> Some (wrap ''decode release SBOM: %w'' e)
      | Inr sbom \<Rightarrow>
          if sb_SPDXVersion sbom \<noteq> ''SPDX-2.3'' \<or> sb_DataLicense sbom \<noteq> ''CC0-1.0'' \<or> sb_SPDXID sbom \<noteq> ''SPDXRef-DOCUMENT'' \<or>
             sb_Name sbom \<noteq> ''starter-websocket '' @ rehearsalVersion \<or>
             \<not> validSBOMNamespace (sb_DocumentNamespace sbom) sbom_prefix \<or>
             sc_Creators (sb_CreationInfo sbom) \<noteq>
               [''Organization: Spice Framework'',
                ''Tool: github.com/spice-framework/development/cmd/spice-dev library-release renderer/v1''] \<or>
             sb_Packages sbom = 0 \<or> sb_Relationships sbom = 0
          then Some (errors_new ''release SBOM does not match the central renderer/v1 contract'')
          else None)"

definition release_base :: string where
  "release_base = ''starter-websocket_'' @ trim_prefix rehearsalVersion ''v''"

definition release_archive :: string where
  "release_archive = release_base @ ''_source.tar.gz''"

definition release_sbom :: string where
  "release_sbom = release_base @ ''_sbom.spdx.json''"

definition validateReleaseRehearsal :: "sys \<Rightarrow> path \<Rightarrow> digests \<Rightarrow> unit gate" where
  "validateReleaseRehearsal sys root artifacts =
     (let expected = [''checksums.txt'', release_sbom, release_archive];
          actual = sort (map fst artifacts) in
      g_bind (g_check (actual \<noteq> expected)
                (Errorf ''release rehearsal artifacts %v do not match %v; signatures are forbidden''
                   [AStrs actual, AStrs expected] [])) (\<lambda>u.
      g_bind (validateReleaseChecksums root artifacts [release_sbom, release_archive]) (\<lambda>u.
      g_bind (readReleaseArtifact root release_sbom) (\<lambda>content.
      g_error (validateReleaseSBOM sys content)))))"

section \<open>The rehearsal\<close>

definition deterministicReleaseArtifacts :: "sys \<Rightarrow> path list \<Rightarrow> digests gate" where
  "deterministicReleaseArtifacts sys outputs =
     (case outputs of
        [one, two] \<Rightarrow>
          g_bind (treeDigests sys one) (\<lambda>first.
          g_bind (treeDigests sys two) (\<lambda>second.
          g_bind (g_check (\<not> maps_Equal first second)
                    (errors_new ''identical central release rehearsals produced different artifacts'')) (\<lambda>u.
          g_return first)))
      | _ \<Rightarrow> g_fail (Errorf ''release rehearsal requires exactly two outputs; got %d'' [AInt (int (length outputs))] []))"

definition render :: "sys \<Rightarrow> path \<Rightarrow> path \<Rightarrow> path \<Rightarrow> unit gate" where
  "render sys root planFile outputDir =
     g_wrap (wrap ''render central release rehearsal: %w'')
       (command sys root [(''GOFLAGS'', ''-mod=vendor'')] ''go''
          [''tool'', developmentTool, ''library-release'', ''render'', ''--root='' @ path_text root,
           ''--plan='' @ path_text planFile, ''--output='' @ path_text outputDir])"

definition rehearse_in :: "sys \<Rightarrow> path \<Rightarrow> path \<Rightarrow> unit gate" where
  "rehearse_in sys root parent =
     (let offlineVendor = [(''GOFLAGS'', ''-mod=vendor'')] in
      g_bind (g_wrap (wrap ''resolve authorized central release tool: %w'')
                (capture sys root offlineVendor ''go'' [''tool'', ''-n'', developmentTool])) (\<lambda>resolved.
      g_bind (g_check (trim_space resolved = [])
                (errors_new ''resolve authorized central release tool: empty executable path'')) (\<lambda>u.
      g_bind (g_wrap (wrap ''plan central release rehearsal: %w'')
                (capture sys root offlineVendor ''go''
                   [''tool'', developmentTool, ''library-release'', ''plan'', ''--root='' @ path_text root,
                    ''--repo=starter-websocket'', ''--version='' @ rehearsalVersion, ''--rehearsal''])) (\<lambda>plan.
      g_bind (g_wrap (wrap ''write central release rehearsal plan: %w'')
                (os_WriteFile (parent @ [''plan.json'']) (plan @ newline))) (\<lambda>u.
      let outputs = [parent @ [''first''], parent @ [''second'']] in
      g_bind (g_each (render sys root (parent @ [''plan.json''])) outputs) (\<lambda>u.
      g_bind (deterministicReleaseArtifacts sys outputs) (\<lambda>artifacts.
      validateReleaseRehearsal sys (hd outputs) artifacts)))))))"

definition releaseRehearsal :: "sys \<Rightarrow> path \<Rightarrow> unit gate" where
  "releaseRehearsal sys root =
     g_bind (g_wrap (wrap ''create release rehearsal root: %w'')
               (os_MkdirTemp sys ''starter-websocket-release-rehearsal-'')) (\<lambda>parent.
     g_defer (removeTree parent) (rehearse_in sys root parent))"

section \<open>The release workflow\<close>

definition releaseWorkflowRevision :: string where
  "releaseWorkflowRevision = ''9ae80e32f64b29697acd9ebe629468850b4ae9f2''"

definition expectedReleaseWorkflow :: "string \<Rightarrow> string" where
  \<open>expectedReleaseWorkflow module =
     concat (map (\<lambda>line. line @ newline)
       [''name: Release'',
        [],
        ''on:'',
        ''  push:'',
        ''    tags:'',
        ''      - "v[0-9]*.[0-9]*.[0-9]*"'',
        [],
        ''permissions: {}'',
        [],
        ''concurrency:'',
        ''  group: release-${{ github.ref }}'',
        ''  cancel-in-progress: false'',
        [],
        ''jobs:'',
        ''  release:'',
        ''    name: Verify, sign, and publish'',
        ''    permissions:'',
        ''      contents: write'',
        ''    uses: spice-framework/.github/.github/workflows/library-release.yml@'' @ releaseWorkflowRevision,
        ''    with:'',
        ''      module: '' @ module,
        ''    secrets:'',
        ''      SPICE_LIBRARY_RELEASE_SIGNING_KEY: ${{ secrets.SPICE_LIBRARY_RELEASE_SIGNING_KEY }}''])\<close>

fun replace_crlf :: "string \<Rightarrow> string" where
  "replace_crlf (a # b # s) =
     (if a = CHR 0x0D \<and> b = CHR 0x0A then CHR 0x0A # replace_crlf s else a # replace_crlf (b # s))"
| "replace_crlf s = s"

definition checkReleaseWorkflow :: "path \<Rightarrow> unit gate" where
  "checkReleaseWorkflow root =
     g_bind (g_wrap (wrap ''read release workflow: %w'')
               (os_ReadFile (root @ [''.github'', ''workflows'', ''release.yml'']))) (\<lambda>content.
     g_check (replace_crlf content \<noteq> expectedReleaseWorkflow modulePath)
       (Errorf ''release workflow must call the protected central workflow at %s for module %s with only the named signing secret''
          [AStr releaseWorkflowRevision, AStr modulePath] []))"

end
