(* ===== verification/Gate_Steps.thy ===== *)
theory Gate_Steps
  imports Gate_Release
begin

text \<open>
  The verification steps of the quality gate, and \<open>run\<close> and \<open>execute\<close>, which choose the steps of a
  mode and run them in order.
\<close>

section \<open>Preparation\<close>

definition prepareDependencies :: "sys \<Rightarrow> path \<Rightarrow> unit gate" where
  "prepareDependencies sys root =
     g_bind (networkCommand sys root [''mod'', ''download'']) (\<lambda>u.
     g_bind (networkCommand sys root [''-C'', ''tools'', ''mod'', ''download'']) (\<lambda>u.
     g_bind (networkCommand sys root [''mod'', ''tidy'', ''-diff'']) (\<lambda>u.
     g_bind (networkCommand sys root [''-C'', ''tools'', ''mod'', ''tidy'', ''-diff'']) (\<lambda>u.
     checkReleaseWorkflow root))))"

section \<open>Formatting\<close>

text \<open>
  The walk of \<open>goFiles\<close>. \<open>filepath.Ext\<close> of a name is \<open>.go\<close> exactly if the name ends in \<open>.go\<close>.
\<close>

fun walk_go :: "path \<Rightarrow> path \<Rightarrow> node \<Rightarrow> string list res"
  and walk_go_list :: "path \<Rightarrow> path \<Rightarrow> (string \<times> node) list \<Rightarrow> string list res" where
  "walk_go root p (RegularFile r) = Inr (if p \<noteq> [] \<and> has_suffix (last p) ''.go'' then [path_text p] else [])"
| "walk_go root p (SpecialFile r) = Inr (if p \<noteq> [] \<and> has_suffix (last p) ''.go'' then [path_text p] else [])"
| "walk_go root p (LockedFolder e) =
     (if p \<noteq> root \<and> last p \<in> {''.git'', ''tools'', ''vendor''} then Inr [] else Inl e)"
| "walk_go root p (Folder es) =
     (if p \<noteq> root \<and> last p \<in> {''.git'', ''tools'', ''vendor''} then Inr [] else walk_go_list root p es)"
| "walk_go_list root p [] = Inr []"
| "walk_go_list root p ((c, n) # es) =
     res_bind (walk_go root (p @ [c]) n) (\<lambda>fs. res_bind (walk_go_list root p es) (\<lambda>fs'. Inr (fs @ fs')))"

definition goFiles :: "path \<Rightarrow> string list gate" where
  "goFiles root st =
     (case node_at root (g_fs st) of
        None \<Rightarrow> (Inl (wrap ''lstat: %w'' ErrNotExist), st)
      | Some n \<Rightarrow> (res_bind (walk_go root root n) (\<lambda>files. Inr (sort files)), st))"

definition format_with :: "sys \<Rightarrow> path \<Rightarrow> bool \<Rightarrow> string list \<Rightarrow> string \<Rightarrow> unit gate" where
  "format_with sys root w files name =
     g_bind (toolPath sys root name) (\<lambda>executable.
     g_bind (capture sys root [] executable ((if w then ''-w'' else ''-l'') # files)) (\<lambda>stdout.
     g_check (\<not> w \<and> trim_space stdout \<noteq> [])
       (Errorf ''%s requires formatting: %s'' [AStr name, AStr (join_with '', '' (str_fields stdout))] [])))"

definition format_files :: "sys \<Rightarrow> path \<Rightarrow> bool \<Rightarrow> unit gate" where
  "format_files sys root w =
     g_bind (goFiles root) (\<lambda>files. g_each (format_with sys root w files) [''goimports'', ''gofumpt''])"

section \<open>Modules\<close>

definition checkModule :: "sys \<Rightarrow> path \<Rightarrow> unit gate" where
  "checkModule sys root =
     g_bind (command sys root [] ''go'' [''mod'', ''tidy'', ''-diff'']) (\<lambda>u.
     g_bind (g_wrap (wrap ''create vendor comparison directory: %w'')
               (os_MkdirTemp sys ''spice-starter-websocket-vendor-'')) (\<lambda>temporary.
     g_defer (removeTree temporary)
       (let candidate = temporary @ [''vendor''] in
        g_bind (command sys root [] ''go'' [''mod'', ''vendor'', ''-o'', path_text candidate]) (\<lambda>u.
        g_bind (treeDigests sys (root @ [''vendor''])) (\<lambda>current.
        g_bind (treeDigests sys candidate) (\<lambda>expected.
        g_check (\<not> maps_Equal current expected)
          (errors_new ''vendor differs from a fresh go mod vendor result'')))))))"

section \<open>Analysis and tests\<close>

definition lint :: "sys \<Rightarrow> path \<Rightarrow> unit gate" where
  "lint sys root =
     g_bind (toolPath sys root ''golangci-lint'') (\<lambda>golangci.
     g_bind (command sys root [] golangci [''run'', ''--timeout=10m'']) (\<lambda>u.
     g_bind (toolPath sys root ''nilaway'') (\<lambda>nilaway.
     command sys root [] nilaway [''-include-pkgs='' @ modulePath, ''./...''])))"

definition security :: "sys \<Rightarrow> path \<Rightarrow> unit gate" where
  "security sys root =
     g_bind (toolPath sys root ''gosec'') (\<lambda>gosec.
     g_bind (command sys root [] gosec [''-quiet'', ''-exclude-generated'', ''./...'']) (\<lambda>u.
     g_bind (toolPath sys root ''govulncheck'') (\<lambda>govulncheck.
     command sys root [] govulncheck [''./...''])))"

definition tests :: "sys \<Rightarrow> path \<Rightarrow> unit gate" where
  "tests sys root =
     g_bind (command sys root [] ''go'' [''test'', ''-shuffle=on'', ''-count=1'', ''./...'']) (\<lambda>u.
     command sys root [] ''go'' [''test'', ''-race'', ''-shuffle=on'', ''-count=1'', ''./...''])"

definition totalCoverage :: "sys \<Rightarrow> string \<Rightarrow> float64 res" where
  "totalCoverage sys report =
     (let lines = split_on (CHR 0x0A) (trim_space report) in
      if lines = [] then Inl (errors_new ''coverage report is empty'')
      else
        let fields = str_fields (last lines) in
        if fields = [] \<or> \<not> has_suffix (last fields) ''%'' then
          Inl (errors_new ''coverage report has no total percentage'')
        else
          let v = trim_suffix (last fields) ''%'' in
          (case sys_ParseFloat sys v of
             Inl e \<Rightarrow> Inl (Errorf ''parse coverage percentage %q: %w'' [AStr v] [e])
           | Inr percentage \<Rightarrow> Inr percentage))"

text \<open>The deferred removal of the profile joins its error with the result.\<close>

definition with_removal :: "path \<Rightarrow> unit gate \<Rightarrow> unit gate" where
  "with_removal p m st =
     (let (result, st1) = m st;
          (removed, st2) = os_Remove p st1
      in (case errors_join [case result of Inl e \<Rightarrow> Some e | Inr u \<Rightarrow> None, case removed of Inl e \<Rightarrow> Some e | Inr u \<Rightarrow> None] of
            Some e \<Rightarrow> Inl e
          | None \<Rightarrow> Inr (), st2))"

definition coverage :: "sys \<Rightarrow> path \<Rightarrow> unit gate" where
  "coverage sys root =
     g_bind (g_wrap (wrap ''create coverage profile: %w'')
               (os_CreateTemp sys ''spice-starter-websocket-coverage-'' ''.out'')) (\<lambda>profile.
     g_bind (g_wrap (wrap ''close coverage profile: %w'') file_Close) (\<lambda>u.
     with_removal profile
       (g_bind (command sys root [] ''go''
                  [''test'', ''-covermode=atomic'', ''-coverprofile='' @ path_text profile, ''.'']) (\<lambda>u.
        g_bind (capture sys root [] ''go'' [''tool'', ''cover'', ''-func='' @ path_text profile]) (\<lambda>stdout.
        g_bind (g_lift (totalCoverage sys stdout)) (\<lambda>percentage.
        g_bind (g_print ''coverage %.1f%% (minimum %.1f%%)''
                  [AStr (sys_Format1 sys percentage), AStr (sys_Format1 sys minimumCoverage)]) (\<lambda>u.
        g_check (float_less percentage minimumCoverage)
          (Errorf ''coverage %.1f%% is below %.1f%%''
             [AStr (sys_Format1 sys percentage), AStr (sys_Format1 sys minimumCoverage)] []))))))))"

definition offline :: "sys \<Rightarrow> path \<Rightarrow> unit gate" where
  "offline sys root =
     g_bind (command sys root [(''GOFLAGS'', ''-mod=vendor'')] ''go'' [''test'', ''-count=1'', ''./...'']) (\<lambda>u.
     command sys root [(''GOFLAGS'', ''-mod=vendor'')] ''go'' [''build'', ''-trimpath'', ''./...''])"

section \<open>Running a mode\<close>

record step =
  st_name :: string
  st_run :: "unit gate"

definition steps_of :: "sys \<Rightarrow> path \<Rightarrow> string \<Rightarrow> string \<Rightarrow> step list option" where
  "steps_of sys root mode compatibilityLine =
     (let identity = \<lparr>st_name = ''repository identity'', st_run = checkIdentity sys root\<rparr>;
          dependencies = \<lparr>st_name = ''dependency and module preparation'', st_run = prepareDependencies sys root\<rparr>;
          preparationLine = (if mode = ''verify'' \<or> mode = ''verify-release'' then ''all'' else compatibilityLine);
          compatibilityDependencies =
            \<lparr>st_name = ''Spice compatibility preparation'',
             st_run = prepareCompatibilityDependencies sys root preparationLine\<rparr>;
          formatting = \<lparr>st_name = ''formatting'', st_run = format_files sys root False\<rparr>;
          modules = \<lparr>st_name = ''module and vendor'', st_run = checkModule sys root\<rparr>;
          vet = \<lparr>st_name = ''go vet'', st_run = command sys root [] ''go'' [''vet'', ''./...'']\<rparr>;
          release = \<lparr>st_name = ''deterministic central release rehearsal'', st_run = releaseRehearsal sys root\<rparr>
      in
      if mode = ''check'' then Some [identity, dependencies, formatting, modules, vet]
      else if mode = ''compatibility'' then
        Some [identity, compatibilityDependencies,
          \<lparr>st_name = ''Spice core compatibility'', st_run = coreCompatibility sys root compatibilityLine\<rparr>]
      else if mode = ''fmt'' then Some [\<lparr>st_name = ''formatting'', st_run = format_files sys root True\<rparr>]
      else if mode = ''release-rehearsal'' then Some [identity, release]
      else if mode = ''verify'' \<or> mode = ''verify-release'' then
        Some ([identity, dependencies, compatibilityDependencies, formatting, modules, vet,
           \<lparr>st_name = ''lint and nil safety'', st_run = lint sys root\<rparr>,
           \<lparr>st_name = ''security'', st_run = security sys root\<rparr>,
           \<lparr>st_name = ''shuffled and race tests'', st_run = tests sys root\<rparr>,
           \<lparr>st_name = ''coverage'', st_run = coverage sys root\<rparr>,
           \<lparr>st_name = ''Spice core compatibility'', st_run = coreCompatibility sys root ''all''\<rparr>,
           \<lparr>st_name = ''offline vendor'', st_run = offline sys root\<rparr>] @
          (if mode = ''verify-release'' then [release] else []))
      else None)"

definition run_step :: "sys \<Rightarrow> step \<Rightarrow> unit gate" where
  "run_step sys current =
     g_bind (g_print ''==> %s'' [AStr (st_name current)]) (\<lambda>u.
     g_bind (g_wrap (\<lambda>e. Errorf ''%s (%s): %w'' [AStr (st_name current), AStr (sys_elapsed sys (st_name current))] [e])
               (st_run current)) (\<lambda>u.
     g_print ''<== %s passed in %s'' [AStr (st_name current), AStr (sys_elapsed sys (st_name current))]))"

definition run :: "sys \<Rightarrow> path \<Rightarrow> string \<Rightarrow> string \<Rightarrow> unit gate" where
  "run sys root mode compatibilityLine =
     g_bind (g_check (sys_Version sys \<noteq> requiredGoVersion)
               (Errorf ''go version is %s; require exactly %s'' [AStr (sys_Version sys), AStr requiredGoVersion] [])) (\<lambda>u.
     case steps_of sys root mode compatibilityLine of
       None \<Rightarrow> g_fail (Errorf ''unknown mode %q'' [AStr mode] [])
     | Some steps \<Rightarrow>
         g_bind (g_each (run_step sys) steps) (\<lambda>u.
         g_bind (g_print ''==> all verification passed'' []) (\<lambda>u.
         requireReleaseTool sys root)))"

text \<open>The exit status; \<open>mode\<close> and \<open>line\<close> are the parsed flags.\<close>

definition execute :: "sys \<Rightarrow> string \<Rightarrow> string \<Rightarrow> gstate \<Rightarrow> int \<times> gstate" where
  "execute sys mode line st =
     (case g_bind (repositoryRoot sys) (\<lambda>root. run sys root mode line) st of
        (Inl e, st1) \<Rightarrow> (1, log_event (Printed ''quality gate failed: %v'' [] [e]) st1)
      | (Inr u, st1) \<Rightarrow> (0, st1))"

end
