(* ===== verification/Gate_Env.thy ===== *)
theory Gate_Env
  imports Gate_Exec
begin

text \<open>
  What the environments of the quality gate guarantee to the processes that run in them.
\<close>

text \<open>The variable that an entry of an environment sets, and all entries for one variable.\<close>

definition variable :: "string \<Rightarrow> string option" where
  "variable e = map_option (\<lambda>kv. to_upper_text (fst kv)) (cut_at (CHR ''='') e)"

definition settings :: "string \<Rightarrow> string list \<Rightarrow> string list" where
  "settings k env = filter (\<lambda>e. variable e = Some k) env"

definition proper_key :: "string \<Rightarrow> bool" where
  "proper_key k = (to_upper_text k = k \<and> CHR ''='' \<notin> set k)"

lemma variable_entry: "proper_key k \<Longrightarrow> variable (entry_text (k, v)) = Some k"
  using cut_at_found [of "CHR ''=''" k v] by (simp add: variable_def entry_text_def proper_key_def)

lemma kept_variable: "kept_entry values e \<longleftrightarrow> (\<exists>k. variable e = Some k \<and> k \<notin> fst ` set values)"
  by (auto simp: kept_entry_def variable_def split: option.split)

lemma filter_unique:
  "distinct (map fst kvs) \<Longrightarrow> (k, v) \<in> set kvs \<Longrightarrow> filter (\<lambda>kv. fst kv = k) kvs = [(k, v)]"
proof (induction kvs)
  case (Cons kv kvs)
  then show ?case
    by (cases "fst kv = k") (auto simp: image_iff intro!: filter_False)
qed simp

lemma settings_environment:
  assumes "distinct (map fst values)" "\<forall>k \<in> fst ` set values. proper_key k" "(k, v) \<in> set values"
  shows "settings k (environment_with values environ) = [entry_text (k, v)]"
proof -
  have "filter (\<lambda>e. variable e = Some k) (filter (kept_entry values) environ) = []"
    using assms(3) by (force simp: filter_empty_conv kept_variable image_iff)
  moreover have "filter (\<lambda>e. variable e = Some k) (map entry_text values) =
      map entry_text (filter (\<lambda>kv. fst kv = k) values)"
    using assms(2) by (induction "values") (auto simp: variable_entry)
  ultimately show ?thesis
    using filter_unique [OF assms(1,3)] by (simp add: settings_def environment_with_def filter_sort)
qed

text \<open>The overrides of the gate: none, or one value of \<open>GOFLAGS\<close>.\<close>

definition go_flags :: "string option \<Rightarrow> (string \<times> string) list" where
  "go_flags f = (case f of None \<Rightarrow> [] | Some v \<Rightarrow> [(''GOFLAGS'', v)])"

definition offline_values :: "string option \<Rightarrow> (string \<times> string) list" where
  "offline_values f =
     [(''GOWORK'', ''off''), (''GOPROXY'', ''off''), (''GOFLAGS'', case f of None \<Rightarrow> [] | Some v \<Rightarrow> v), (''GOTOOLCHAIN'', ''local'')]"

lemma mergedEnvironment_values:
  "mergedEnvironment environ (go_flags f) = environment_with (offline_values f) environ"
  by (simp add: mergedEnvironment_def go_flags_def maps_Copy_def offline_values_def split: option.split)

lemma proper_keys:
  "proper_key ''GOWORK''" "proper_key ''GOPROXY''" "proper_key ''GOFLAGS''" "proper_key ''GOTOOLCHAIN''"
  by (simp_all add: proper_key_def to_upper_def is_lower_def less_eq_char_def)

text \<open>
  C28. Whatever environment the gate inherits (duplicates, other spellings of a name, entries without a
  value), a process that it starts with its default environment finds exactly one setting of each of
  the variables that keep it offline and on the local toolchain, whatever the case of the letters:
  \<open>GOPROXY=off\<close>, \<open>GOWORK=off\<close>, \<open>GOTOOLCHAIN=local\<close> and the \<open>GOFLAGS\<close> of the caller, in an environment that
  is sorted and hence does not depend on the iteration order of the map.
\<close>

theorem mergedEnvironment_isolates:
  "sorted (mergedEnvironment environ (go_flags f)) \<and>
   settings ''GOPROXY'' (mergedEnvironment environ (go_flags f)) = [''GOPROXY=off''] \<and>
   settings ''GOWORK'' (mergedEnvironment environ (go_flags f)) = [''GOWORK=off''] \<and>
   settings ''GOTOOLCHAIN'' (mergedEnvironment environ (go_flags f)) = [''GOTOOLCHAIN=local''] \<and>
   settings ''GOFLAGS'' (mergedEnvironment environ (go_flags f)) = [''GOFLAGS='' @ (case f of None \<Rightarrow> [] | Some v \<Rightarrow> v)]"
proof -
  have vals: "distinct (map fst (offline_values f))" "\<forall>k \<in> fst ` set (offline_values f). proper_key k"
    using proper_keys by (simp_all add: offline_values_def)
  show ?thesis
    unfolding mergedEnvironment_values
    using settings_environment [OF vals, of "''GOPROXY''" "''off''"] settings_environment [OF vals, of "''GOWORK''" "''off''"]
      settings_environment [OF vals, of "''GOTOOLCHAIN''" "''local''"]
      settings_environment [OF vals, of "''GOFLAGS''" "case f of None \<Rightarrow> [] | Some v \<Rightarrow> v"]
    by (simp add: offline_values_def entry_text_def environment_with_def)
qed

text \<open>
  The environment of the network phase inherits everything but three variables: it sets \<open>GOWORK\<close>,
  \<open>GOFLAGS\<close> and \<open>GOTOOLCHAIN\<close>, and every other entry of the inherited environment that has a value goes
  through as it is. In particular \<open>GOSUMDB=off\<close>, \<open>GONOSUMDB\<close> and \<open>GOPRIVATE\<close> reach the go command, so that
  the comment of \<open>networkCapture\<close>, by which modules are authenticated with the public checksum
  database, holds only in an environment without them.
\<close>

theorem onlineEnvironment_inherits:
  "e \<in> set (onlineEnvironment environ) \<longleftrightarrow>
     e \<in> {''GOWORK=off'', ''GOFLAGS='', ''GOTOOLCHAIN=local''} \<or>
     (e \<in> set environ \<and> variable e \<notin> {None, Some ''GOWORK'', Some ''GOFLAGS'', Some ''GOTOOLCHAIN''})"
  by (cases "variable e")
    (auto simp: onlineEnvironment_def environment_with_def kept_variable entry_text_def)

lemma command_offline: "''GOPROXY=off'' \<in> set (call_env (command_call sys dir (go_flags f) exe args))"
  by (simp add: command_call_def mergedEnvironment_values environment_with_def offline_values_def entry_text_def)

end
