(* ===== verification/Gate_Trace.thy ===== *)
theory Gate_Trace
  imports Gate_Steps Gate_Env
begin

text \<open>
  What the steps of the quality gate do to the world, event by event. The contract of a policy states
  which events are allowed; every operation of the gate is shown once to keep to it, and
  the interpretations in \<open>Gate_Laws\<close> and \<open>Gate_Cleanup\<close> are the policies that the properties use.
\<close>

section \<open>Policies\<close>

definition step_message :: "string \<Rightarrow> bool" where
  "step_message msg = (msg = ''==> %s'' \<or> msg = ''<== %s passed in %s'')"

text \<open>The network commands of the preparation, all of them on modules.\<close>

definition module_args :: "string list \<Rightarrow> bool" where
  "module_args args = (''mod'' \<in> set args \<or> take 3 args = [''list'', ''-mod=mod'', ''-m''])"

lemma emits_case_prod [emits_rules]: "(\<And>a b. emits ok (f a b)) \<Longrightarrow> emits ok (case x of (a, b) \<Rightarrow> f a b)"
  by (cases x) simp

lemma emits_case_option [emits_rules]:
  "emits ok m \<Longrightarrow> (\<And>x. emits ok (f x)) \<Longrightarrow> emits ok (case opt of None \<Rightarrow> m | Some x \<Rightarrow> f x)"
  by (cases opt) simp_all

lemma emits_case_sum [emits_rules]:
  "(\<And>e. emits ok (f e)) \<Longrightarrow> (\<And>x. emits ok (g x)) \<Longrightarrow> emits ok (case r of Inl e \<Rightarrow> f e | Inr x \<Rightarrow> g x)"
  by (cases r) simp_all

lemma emits_Let [emits_rules]: "(\<And>x. emits ok (f x)) \<Longrightarrow> emits ok (let x = v in f x)"
  by (simp add: Let_def)

text \<open>Code that runs two computations, whatever comes out of the first.\<close>

lemma emits_two:
  assumes "emits ok m" "emits ok n" "\<And>st. snd (h st) = snd (n (snd (m st)))"
  shows "emits ok h"
proof (rule emitsI)
  fix st
  obtain new1 where "g_log (snd (m st)) = g_log st @ new1" "list_all ok new1"
    using assms(1) unfolding emits_def by blast
  moreover obtain new2 where "g_log (snd (n (snd (m st)))) = g_log (snd (m st)) @ new2" "list_all ok new2"
    using assms(2) unfolding emits_def by blast
  ultimately show "\<exists>new. g_log (snd (h st)) = g_log st @ new \<and> list_all ok new"
    by (auto simp: assms(3) intro!: exI [of _ "new1 @ new2"])
qed

text \<open>The least that a policy allows: removals, messages and offline go commands on modules.\<close>

locale module_policy =
  fixes sys :: sys and ok :: "event \<Rightarrow> bool"
  assumes ok_module: "module_args args \<Longrightarrow> ok (Ran (command_call sys dir (go_flags f) ''go'' args))"
    and ok_removing: "ok (Removing p r)"
    and ok_removing_tree: "ok (RemovingTree p r)"
    and ok_message: "\<not> step_message msg \<Longrightarrow> ok (Printed msg vals errs)"
begin

lemmas allowed = ok_removing ok_removing_tree ok_message

lemma emits_module_commands:
  "module_args args \<Longrightarrow> emits ok (command sys dir [] ''go'' args)"
  "module_args args \<Longrightarrow> emits ok (capture sys dir [] ''go'' args)"
  using ok_module [of args dir None]
  by (auto simp: go_flags_def command_def capture_def Let_def split: prod.splits option.splits
      intro!: emitsI dest!: run_process_log)

lemmas module_rules = emits_rules emits_module_commands

text \<open>The deferred functions.\<close>

lemma close_root_allowed:
  "\<not> step_message msg \<Longrightarrow> \<exists>new. g_log (close_root msg root st) = g_log st @ new \<and> list_all ok new"
  using emits_Close [of ok] ok_message unfolding emits_def
  by (fastforce simp: close_root_def split: prod.splits sum.splits dest: spec [of _ st])

lemma removeTree_allowed: "\<exists>new. g_log (removeTree p st) = g_log st @ new \<and> list_all ok new"
proof -
  obtain new where new: "g_log (snd (os_RemoveAll p st)) = g_log st @ new" "list_all ok new"
    using emits_RemoveAll [of ok p, OF ok_removing_tree] unfolding emits_def by blast
  have "ok (Printed ''warning: remove temporary tree %q: %v'' args errs)" for args errs
    by (rule ok_message) (simp add: step_message_def)
  then show ?thesis
    using new by (cases "os_RemoveAll p st"; cases "fst (os_RemoveAll p st)") (auto simp: removeTree_def)
qed

lemma cleanup_file_allowed: "\<exists>new. g_log (cleanup_file p st) = g_log st @ new \<and> list_all ok new"
proof -
  obtain new where new: "g_log (snd (os_Remove p st)) = g_log st @ new" "list_all ok new"
    using emits_Remove [of ok p, OF ok_removing] unfolding emits_def by blast
  have "ok (Printed ''warning: remove compatibility file %q: %v'' args errs)" for args errs
    by (rule ok_message) (simp add: step_message_def)
  then show ?thesis
    using new by (cases "os_Remove p st"; cases "fst (os_Remove p st)") (auto simp: cleanup_file_def)
qed

lemma cleanup_modfile_allowed: "\<exists>new. g_log (cleanup_modfile p st) = g_log st @ new \<and> list_all ok new"
  using cleanup_file_allowed [of p st] cleanup_file_allowed [of "sumfile_of p" "cleanup_file p st"]
  by (force simp: cleanup_modfile_def)

lemmas deferred = close_root_allowed removeTree_allowed cleanup_modfile_allowed

text \<open>The operations that run only such commands.\<close>

lemma emits_readCompatibility: "emits ok (readCompatibility sys p)"
  unfolding readCompatibility_def by (intro module_rules)

lemma emits_directRequirement: "emits ok (directRequirement sys p module)"
  unfolding directRequirement_def by (intro module_rules) (simp add: module_args_def)

lemma emits_checkIdentity: "emits ok (checkIdentity sys p)"
  unfolding checkIdentity_def by (intro module_rules emits_readCompatibility emits_directRequirement)

lemma emits_write_modfile: "emits ok (write_modfile p content)"
proof (rule emits_quiet)
  fix st
  have quiet: "g_log (snd (file_Write p content st)) = g_log st" "g_log (snd (file_Close st')) = g_log st'" for st'
    by (auto simp: file_Write_def file_Close_def Let_def split: prod.splits option.splits dest!: next_fault_keeps)
  show "g_log (snd (write_modfile p content st)) = g_log st"
    using quiet by (auto simp: write_modfile_def g_wrap_def split: prod.split sum.split) (metis snd_conv)+
qed

lemma emits_checkReleaseWorkflow: "emits ok (checkReleaseWorkflow p)"
  unfolding checkReleaseWorkflow_def by (intro module_rules)

end

text \<open>The same with files that are created.\<close>

locale module_file_policy = module_policy +
  assumes ok_created: "ok (Created p)"
begin

lemma emits_alternateModfile: "emits ok (alternateModfile sys p version)"
  unfolding alternateModfile_def by (intro module_rules emits_write_modfile cleanup_modfile_allowed allowed ok_created) (simp add: module_args_def)

end

text \<open>The steps after the preparation: any command, but offline.\<close>

locale gate_policy = module_policy +
  assumes ok_command: "ok (Ran (command_call sys dir (go_flags f) exe args))"
begin

lemma emits_commands:
  "emits ok (command sys dir [] exe args)" "emits ok (command sys dir [(''GOFLAGS'', v)] exe args)"
  "emits ok (capture sys dir [] exe args)" "emits ok (capture sys dir [(''GOFLAGS'', v)] exe args)"
  using ok_command [of dir None exe args] ok_command [of dir "Some v" exe args]
  by (auto simp: go_flags_def command_def capture_def Let_def split: prod.splits option.splits
      intro!: emitsI dest!: run_process_log)

lemmas rules = emits_rules emits_commands

text \<open>The operations.\<close>

lemma emits_treeDigests: "emits ok (treeDigests sys p)"
  unfolding treeDigests_def by (intro rules close_root_allowed) (simp add: step_message_def)

lemma emits_compatibilityState: "emits ok (compatibilityState sys p)"
  unfolding compatibilityState_def by (intro rules close_root_allowed) (simp add: step_message_def)

lemma emits_toolPath: "emits ok (toolPath sys p name)"
  unfolding toolPath_def Let_def by (intro rules)

lemma emits_check_boundary: "emits ok (check_boundary sys p boundary modfile)"
  unfolding check_boundary_def compatibilityPackages_def Let_def
  by (intro rules allowed) (simp add: step_message_def)

lemma emits_compare_state: "emits ok m \<Longrightarrow> emits ok (compare_state sys p before m)"
  by (rule emits_two [OF _ emits_compatibilityState]) (auto simp: compare_state_def Let_def split_beta)

lemma emits_requireReleaseTool: "emits ok (requireReleaseTool sys p)"
  unfolding requireReleaseTool_def g_error_def by (intro rules)

lemma emits_readReleaseArtifact: "emits ok (readReleaseArtifact p name)"
  unfolding readReleaseArtifact_def
  by (intro rules emits_two [OF emits_wrap [OF emits_ReadFile] emits_Close]) (auto simp: Let_def split_beta)

lemma emits_validateReleaseRehearsal: "emits ok (validateReleaseRehearsal sys p artifacts)"
  unfolding validateReleaseRehearsal_def validateReleaseChecksums_def g_error_def Let_def
  by (intro rules emits_readReleaseArtifact)

lemma emits_deterministicReleaseArtifacts: "emits ok (deterministicReleaseArtifacts sys outputs)"
  unfolding deterministicReleaseArtifacts_def
  by (cases outputs rule: list.exhaust; cases "tl outputs"; cases "tl (tl outputs)")
    (auto intro!: rules emits_treeDigests)

lemma emits_format_files: "emits ok (format_files sys p w)"
proof -
  have "emits ok (goFiles p)" by (rule emits_quiet) (simp add: goFiles_def split: option.split)
  then show ?thesis
    unfolding format_files_def format_with_def by (intro rules emits_toolPath)
qed

lemma emits_lint: "emits ok (lint sys p)"
  unfolding lint_def by (intro rules emits_toolPath)

lemma emits_security: "emits ok (security sys p)"
  unfolding security_def by (intro rules emits_toolPath)

lemma emits_tests: "emits ok (tests sys p)"
  unfolding tests_def by (intro rules)

lemma emits_offline: "emits ok (offline sys p)"
  unfolding offline_def by (intro rules)

lemma emits_with_removal: "emits ok m \<Longrightarrow> emits ok (with_removal p m)"
  by (rule emits_two [OF _ emits_Remove [of ok p]]) (auto simp: with_removal_def Let_def split_beta ok_removing)

end

locale gate_file_policy = gate_policy + module_file_policy
begin

lemma emits_verifyCompatibilityBoundary: "emits ok (verifyCompatibilityBoundary sys p boundary)"
  unfolding verifyCompatibilityBoundary_def
  by (intro rules emits_compatibilityState emits_compare_state emits_alternateModfile cleanup_modfile_allowed
      emits_check_boundary)

lemma emits_coreCompatibility: "emits ok (coreCompatibility sys p line)"
  unfolding coreCompatibility_def by (intro rules emits_readCompatibility emits_verifyCompatibilityBoundary)

lemma emits_releaseRehearsal: "emits ok (releaseRehearsal sys p)"
  unfolding releaseRehearsal_def rehearse_in_def render_def Let_def
  by (intro rules removeTree_allowed emits_deterministicReleaseArtifacts emits_validateReleaseRehearsal allowed ok_created)

lemma emits_checkModule: "emits ok (checkModule sys p)"
  unfolding checkModule_def Let_def by (intro rules removeTree_allowed emits_treeDigests allowed ok_created)

lemma emits_coverage: "emits ok (coverage sys p)"
  unfolding coverage_def by (intro rules emits_with_removal allowed ok_created) (simp_all add: step_message_def)

lemmas offline_steps = emits_checkIdentity emits_format_files emits_checkModule emits_lint emits_security
  emits_tests emits_offline emits_coverage emits_coreCompatibility emits_releaseRehearsal emits_commands

end

text \<open>The preparation may also use the network, for modules.\<close>

locale network_policy = module_policy +
  assumes ok_network: "module_args args \<Longrightarrow> ok (Ran (network_call sys dir args))"
begin

lemma emits_networkCommand: "module_args args \<Longrightarrow> emits ok (networkCommand sys dir args)"
  using ok_network by (intro emitsI) (auto simp: networkCommand_def Let_def split: prod.splits option.splits dest!: run_process_log)

lemma emits_networkCapture: "module_args args \<Longrightarrow> emits ok (networkCapture sys dir args)"
  using ok_network by (intro emitsI) (auto simp: networkCapture_def Let_def split: prod.splits option.splits dest!: run_process_log)

lemma emits_prepareDependencies: "emits ok (prepareDependencies sys p)"
  unfolding prepareDependencies_def
  by (intro module_rules emits_networkCommand emits_checkReleaseWorkflow) (simp_all add: module_args_def)

end

locale preparation_policy = network_policy + module_file_policy
begin

lemma emits_prepareCompatibilityDependencies: "emits ok (prepareCompatibilityDependencies sys p line)"
  unfolding prepareCompatibilityDependencies_def prepare_boundary_def resolveExactCoreVersion_def
  by (intro module_rules emits_readCompatibility emits_networkCapture emits_networkCommand emits_alternateModfile
      cleanup_modfile_allowed)
    (simp_all add: module_args_def)

end

end
