(* ===== verification/Gate_Laws.thy ===== *)
theory Gate_Laws
  imports Gate_Trace
begin

text \<open>
  Properties of whole runs of the quality gate: when go commands may fetch modules, and what a run reports.
\<close>

section \<open>Policies\<close>



definition step_free :: "event \<Rightarrow> bool" where
  "step_free ev = (case ev of Printed msg args errs \<Rightarrow> \<not> step_message msg | _ \<Rightarrow> True)"




interpretation quiet: gate_file_policy sys step_free for sys
  by unfold_locales (simp_all add: step_free_def)

interpretation quiet_network: preparation_policy sys step_free for sys
  by unfold_locales (simp_all add: step_free_def)

section \<open>Fetching modules\<close>








section \<open>Reporting\<close>

definition started_steps :: "event list \<Rightarrow> string list" where
  "started_steps log =
     List.map_filter
       (\<lambda>ev. case ev of Printed msg [AStr n] errs \<Rightarrow> if msg = ''==> %s'' then Some n else None | _ \<Rightarrow> None) log"

definition passed_steps :: "event list \<Rightarrow> string list" where
  "passed_steps log =
     List.map_filter
       (\<lambda>ev. case ev of Printed msg [AStr n, AStr t] errs \<Rightarrow> if msg = ''<== %s passed in %s'' then Some n else None | _ \<Rightarrow> None) log"

lemma steps_simps [simp]:
  "started_steps [] = []" "passed_steps [] = []"
  "started_steps (xs @ ys) = started_steps xs @ started_steps ys"
  "passed_steps (xs @ ys) = passed_steps xs @ passed_steps ys"
  "started_steps (Printed ''==> %s'' [AStr n] errs # log) = n # started_steps log"
  "passed_steps (Printed ''==> %s'' [AStr n] errs # log) = passed_steps log"
  "started_steps (Printed ''<== %s passed in %s'' [AStr n, AStr t] errs # log) = started_steps log"
  "passed_steps (Printed ''<== %s passed in %s'' [AStr n, AStr t] errs # log) = n # passed_steps log"
  by (simp_all add: started_steps_def passed_steps_def List.map_filter_def)

lemma steps_quiet: "list_all step_free log \<Longrightarrow> started_steps log = [] \<and> passed_steps log = []"
proof (induction log)
  case (Cons ev log)
  then show ?case
    by (cases ev)
      (auto simp: started_steps_def passed_steps_def List.map_filter_def step_free_def step_message_def
        split: list.splits err_arg.splits)
qed simp

text \<open>
  What passing means, apart from the loop that reports it: the checks were executed in their order, each in the state that
  its announcement left, and each returned nil; the report of each follows at once. \<open>announced\<close> and \<open>reported\<close> are
  the states after the two messages.
\<close>

definition announced :: "step \<Rightarrow> gstate \<Rightarrow> gstate" where
  "announced s st = log_event (Printed ''==> %s'' [AStr (st_name s)] []) st"

definition reported :: "sys \<Rightarrow> step \<Rightarrow> gstate \<Rightarrow> gstate" where
  "reported sys s st =
     log_event (Printed ''<== %s passed in %s'' [AStr (st_name s), AStr (sys_elapsed sys (st_name s))] []) st"

inductive all_pass :: "sys \<Rightarrow> step list \<Rightarrow> gstate \<Rightarrow> gstate \<Rightarrow> bool" for sys where
  none: "all_pass sys [] st st"
| pass: "st_run s (announced s st) = (Inr u, st1) \<Longrightarrow> all_pass sys steps (reported sys s st1) st' \<Longrightarrow>
    all_pass sys (s # steps) st st'"

inductive_simps all_pass_simps: "all_pass sys [] st st'" "all_pass sys (s # steps) st st'"

lemma run_step_result:
  "run_step sys s st =
     (case st_run s (announced s st) of
        (Inl e, st1) \<Rightarrow> (Inl (Errorf ''%s (%s): %w'' [AStr (st_name s), AStr (sys_elapsed sys (st_name s))] [e]), st1)
      | (Inr u, st1) \<Rightarrow> (Inr (), reported sys s st1))"
  by (auto simp: run_step_def announced_def reported_def g_bind_def g_print_def g_wrap_def split: prod.split sum.split)

lemma all_pass_log:
  assumes "all_pass sys steps st st'" "\<forall>s \<in> set steps. emits step_free (st_run s)"
  shows "\<exists>new. g_log st' = g_log st @ new \<and> started_steps new = map st_name steps \<and> passed_steps new = map st_name steps"
  using assms
proof (induction rule: all_pass.induct)
  case (pass s st u st1 steps st')
  obtain mid where mid: "g_log st1 = g_log (announced s st) @ mid" "list_all step_free mid"
    using pass.prems pass.hyps(1) unfolding emits_def by (metis list.set_intros(1) snd_conv)
  obtain new where new: "g_log st' = g_log (reported sys s st1) @ new" "started_steps new = map st_name steps"
      "passed_steps new = map st_name steps"
    using pass.IH pass.prems by auto
  show ?case
    using mid(1) new steps_quiet [OF mid(2)]
    by (intro exI [of _ "Printed ''==> %s'' [AStr (st_name s)] [] # mid @
          Printed ''<== %s passed in %s'' [AStr (st_name s), AStr (sys_elapsed sys (st_name s))] [] # new"])
      (simp add: announced_def reported_def)
qed simp

text \<open>How the loop over the steps ends.\<close>

lemma run_steps_end:
  "(\<exists>st'. g_each (run_step sys) steps st = (Inr (), st') \<and> all_pass sys steps st st') \<or>
   (\<exists>good s later st1 e st2. steps = good @ s # later \<and> all_pass sys good st st1 \<and> st_run s (announced s st1) = (Inl e, st2) \<and>
      g_each (run_step sys) steps st =
        (Inl (Errorf ''%s (%s): %w'' [AStr (st_name s), AStr (sys_elapsed sys (st_name s))] [e]), st2))"
proof (induction steps arbitrary: st)
  case Nil
  then show ?case by (simp add: g_return_def all_pass_simps)
next
  case (Cons s steps)
  obtain r st1 where r: "st_run s (announced s st) = (r, st1)" by (cases "st_run s (announced s st)")
  show ?case
  proof (cases r)
    case (Inl e)
    have "g_each (run_step sys) (s # steps) st =
        (Inl (Errorf ''%s (%s): %w'' [AStr (st_name s), AStr (sys_elapsed sys (st_name s))] [e]), st1)"
      using r Inl by (simp add: g_bind_def run_step_result)
    moreover have "s # steps = [] @ s # steps" "all_pass sys [] st st" by (simp_all add: all_pass_simps)
    ultimately show ?thesis using r Inl by blast
  next
    case (Inr u)
    have each: "g_each (run_step sys) (s # steps) st = g_each (run_step sys) steps (reported sys s st1)"
      using r Inr by (simp add: g_bind_def run_step_result)
    have more: "all_pass sys (s # good) st st'" if "all_pass sys good (reported sys s st1) st'" for good st'
      using that r Inr by (auto intro: all_pass.pass)
    from Cons.IH [of "reported sys s st1"] show ?thesis
    proof (elim disjE exE conjE)
      fix st' assume "g_each (run_step sys) steps (reported sys s st1) = (Inr (), st')" "all_pass sys steps (reported sys s st1) st'"
      then show ?thesis using each more by auto
    next
      fix good s' later st1' e st2
      assume split: "steps = good @ s' # later" and rest: "all_pass sys good (reported sys s st1) st1'"
          "st_run s' (announced s' st1') = (Inl e, st2)"
          "g_each (run_step sys) steps (reported sys s st1) =
             (Inl (Errorf ''%s (%s): %w'' [AStr (st_name s'), AStr (sys_elapsed sys (st_name s'))] [e]), st2)"
      have "s # steps = (s # good) @ s' # later" by (simp add: split)
      then show ?thesis using each rest more [OF rest(1)] by metis
    qed
  qed
qed

lemma steps_quiet_all:
  assumes "steps_of sys root mode line = Some steps"
  shows "\<forall>s \<in> set steps. emits step_free (st_run s)"
proof -
  note all = quiet.offline_steps quiet_network.emits_prepareDependencies quiet_network.emits_prepareCompatibilityDependencies
  show ?thesis
    using assms all by (auto simp: steps_of_def Let_def split: if_splits)
qed

text \<open>
  C30. A run executes the checks of its mode in their order and stops at the first that fails, and its result and its reports
  say what the checks have returned. With the wrong Go version or an unknown mode it fails and starts nothing. Otherwise
  some first steps were executed and returned nil, and exactly they are reported as passed. If
  there is a next one, it was announced and executed and has returned an error; the run returns this error
  with the name of the step, in the state that the step has left, so nothing runs after it. If there is none, the
  result is that of the last check, the release tool's.
\<close>

theorem run_reports_results:
  "if sys_Version sys = requiredGoVersion \<and> steps_of sys root mode line \<noteq> None then
     (\<exists>good later st1 new. steps_of sys root mode line = Some (good @ later) \<and> all_pass sys good st st1 \<and>
        g_log (snd (run sys root mode line st)) = g_log st @ new \<and> passed_steps new = map st_name good \<and>
        (case later of
           [] \<Rightarrow>
             started_steps new = map st_name good \<and>
             run sys root mode line st =
               requireReleaseTool sys root (log_event (Printed ''==> all verification passed'' [] []) st1)
         | s # rest \<Rightarrow>
             started_steps new = map st_name (good @ [s]) \<and>
             (\<exists>e st2. st_run s (announced s st1) = (Inl e, st2) \<and>
                run sys root mode line st =
                  (Inl (Errorf ''%s (%s): %w'' [AStr (st_name s), AStr (sys_elapsed sys (st_name s))] [e]), st2))))
   else isl (fst (run sys root mode line st)) \<and> snd (run sys root mode line st) = st"
proof (cases "sys_Version sys \<noteq> requiredGoVersion \<or> steps_of sys root mode line = None")
  case True
  then show ?thesis
    by (auto simp: run_def g_bind_def g_check_def g_fail_def g_return_def)
next
  case False
  then obtain steps where steps: "steps_of sys root mode line = Some steps" by auto
  note quiet = steps_quiet_all [OF steps]
  let ?fin = "g_bind (g_print ''==> all verification passed'' []) (\<lambda>u. requireReleaseTool sys root)"
  have run: "run sys root mode line st = g_bind (g_each (run_step sys) steps) (\<lambda>u. ?fin) st"
    using False steps by (simp add: run_def g_bind_def g_check_def g_return_def)
  from run_steps_end [of sys steps st] show ?thesis
  proof (elim disjE exE conjE)
    fix st1 assume each: "g_each (run_step sys) steps st = (Inr (), st1)" and pass: "all_pass sys steps st st1"
    obtain new1 where new1: "g_log st1 = g_log st @ new1" "started_steps new1 = map st_name steps"
        "passed_steps new1 = map st_name steps"
      using all_pass_log [OF pass quiet] by blast
    have "emits step_free ?fin"
      by (intro emits_rules quiet.emits_requireReleaseTool) (simp add: step_free_def step_message_def)
    then obtain new2 where new2: "g_log (snd (?fin st1)) = g_log st1 @ new2" "list_all step_free new2"
      unfolding emits_def by blast
    have last_check: "run sys root mode line st = requireReleaseTool sys root (log_event (Printed ''==> all verification passed'' [] []) st1)"
      "run sys root mode line st = ?fin st1"
      using each unfolding run by (simp_all add: g_bind_def g_print_def)
    have "steps_of sys root mode line = Some (steps @ [])" by (simp add: steps)
    moreover have "g_log (snd (run sys root mode line st)) = g_log st @ new1 @ new2"
      using new1(1) new2(1) last_check(2) by simp
    ultimately show ?thesis
      using False pass new1(2,3) steps_quiet [OF new2(2)] last_check(1)
      by (subst if_P) (simp, intro exI [of _ steps] exI [of _ "[]"] exI [of _ st1] exI [of _ "new1 @ new2"], simp)
  next
    fix good s later st1 e st2
    assume split: "steps = good @ s # later" and pass: "all_pass sys good st st1" and err: "st_run s (announced s st1) = (Inl e, st2)"
      and each: "g_each (run_step sys) steps st =
        (Inl (Errorf ''%s (%s): %w'' [AStr (st_name s), AStr (sys_elapsed sys (st_name s))] [e]), st2)"
    obtain new1 where new1: "g_log st1 = g_log st @ new1" "started_steps new1 = map st_name good" "passed_steps new1 = map st_name good"
      using all_pass_log [OF pass] quiet split by auto
    obtain mid where mid: "g_log st2 = g_log (announced s st1) @ mid" "list_all step_free mid"
      using quiet split err unfolding emits_def by (metis in_set_conv_decomp snd_conv)
    have result: "run sys root mode line st =
        (Inl (Errorf ''%s (%s): %w'' [AStr (st_name s), AStr (sys_elapsed sys (st_name s))] [e]), st2)"
      using each unfolding run by (simp add: g_bind_def)
    let ?new = "new1 @ Printed ''==> %s'' [AStr (st_name s)] [] # mid"
    have "g_log (snd (run sys root mode line st)) = g_log st @ ?new"
      using result new1(1) mid(1) by (simp add: announced_def)
    moreover have "passed_steps ?new = map st_name good" "started_steps ?new = map st_name (good @ [s])"
      using new1(2,3) steps_quiet [OF mid(2)] by simp_all
    moreover have "steps_of sys root mode line = Some (good @ s # later)" by (simp add: steps split)
    ultimately show ?thesis
      using False pass err result
      by (subst if_P) (simp, intro exI [of _ good] exI [of _ "s # later"] exI [of _ st1] exI [of _ ?new], simp)
  qed
qed

end
