(* ===== verification/Gate_Cleanup.thy ===== *)
theory Gate_Cleanup
  imports Gate_Laws
begin

text \<open>
  The temporary files of the quality gate: which of the files and directories that a run creates it has, when it
  ends, neither removed nor reported as not removed.
\<close>

section \<open>What is unaccounted for\<close>

text \<open>A successful removal leaves nothing at the path, nor below it.\<close>

lemma map_of_update_entries:
  "map_of (map (\<lambda>e. (fst e, if fst e = c then f (snd e) else snd e)) es) c = map_option f (map_of es c)"
  by (induction es) auto

lemma node_at_removed: "p \<noteq> [] \<Longrightarrow> node_at (p @ q) (remove_node p n) = None"
proof (induction p arbitrary: n)
  case (Cons c p)
  show ?case
  proof (cases n)
    case (Folder es)
    have "map_of (filter (\<lambda>e. fst e \<noteq> c) es) c = None"
      by (auto simp: map_of_eq_None_iff)
    then show ?thesis
      using Folder Cons.IH by (cases "p = []") (auto simp: map_of_update_entries split: option.split)
  qed simp_all
qed simp

lemma os_Remove_gone: "os_Remove p st = (Inr u, st') \<Longrightarrow> p \<noteq> [] \<Longrightarrow> node_at p (g_fs st') = None"
  using node_at_removed [of p "[]"]
  by (auto simp: os_Remove_def Let_def split: if_splits prod.splits option.splits)

lemma os_RemoveAll_gone: "os_RemoveAll p st = (Inr u, st') \<Longrightarrow> p \<noteq> [] \<Longrightarrow> node_at (p @ q) (g_fs st') = None"
  using node_at_removed [of p q]
  by (auto simp: os_RemoveAll_def Let_def split: prod.splits option.splits)

text \<open>
  The two warnings that name a file which could not be removed: the file itself, or a directory tree that it is in.
\<close>

definition reports :: "string \<Rightarrow> err_arg list \<Rightarrow> path \<Rightarrow> bool" where
  "reports msg args q =
     (msg = ''warning: remove compatibility file %q: %v'' \<and> args = [AStr (path_text q)] \<or>
      msg = ''warning: remove temporary tree %q: %v'' \<and> args \<in> (\<lambda>p. [AStr (path_text p)]) ` set (prefixes q))"

text \<open>
  The paths that have been created and not been accounted for since: by a removal that succeeded, or failed because there was
  nothing, or by a warning. A removal that fails otherwise accounts for nothing.
\<close>

fun unaccounted :: "event list \<Rightarrow> path list \<Rightarrow> path list" where
  "unaccounted [] ps = ps"
| "unaccounted (Created p # log) ps = unaccounted log (p # ps)"
| "unaccounted (Removing p r # log) ps =
     (case r of
        None \<Rightarrow> unaccounted log (filter (\<lambda>q. q \<noteq> p) ps)
      | Some e \<Rightarrow> unaccounted log (if errors_is e ErrNotExist then filter (\<lambda>q. q \<noteq> p) ps else ps))"
| "unaccounted (RemovingTree p r # log) ps =
     (case r of
        None \<Rightarrow> unaccounted log (filter (\<lambda>q. \<not> prefix p q) ps)
      | Some e \<Rightarrow> unaccounted log ps)"
| "unaccounted (Ran c # log) ps = unaccounted log ps"
| "unaccounted (Printed m args errs # log) ps = unaccounted log (filter (\<lambda>q. \<not> reports m args q) ps)"

definition file_free :: "event \<Rightarrow> bool" where
  "file_free ev = (case ev of Created p \<Rightarrow> False | _ \<Rightarrow> True)"

interpretation files: gate_policy sys file_free for sys
  by unfold_locales (simp_all add: file_free_def)

interpretation files_network: network_policy sys file_free for sys
  by unfold_locales (simp_all add: file_free_def)

lemma unaccounted_append: "unaccounted (xs @ ys) ps = unaccounted ys (unaccounted xs ps)"
proof (induction xs arbitrary: ps)
  case (Cons ev xs)
  then show ?case by (cases ev) (simp_all split: option.split)
qed simp

lemma unaccounted_file_free: "list_all file_free log \<Longrightarrow> set (unaccounted log ps) \<subseteq> set ps"
proof (induction log arbitrary: ps)
  case (Cons ev log)
  have sub: "set (unaccounted log qs) \<subseteq> set qs" for qs
    using Cons by simp
  then show ?case
    using Cons.prems
    by (cases ev) (auto simp: file_free_def split: option.splits if_splits dest!: subsetD [OF sub])
qed simp

text \<open>How a computation changes what is unaccounted for, depending on its result (\<open>None\<close> for an error).\<close>

definition moves_files :: "'a gate \<Rightarrow> ('a option \<Rightarrow> path set \<Rightarrow> path set) \<Rightarrow> bool" where
  "moves_files m R =
     (\<forall>st. \<exists>new. g_log (snd (m st)) = g_log st @ new \<and>
        (\<forall>ps. set (unaccounted new ps) \<subseteq> R (case fst (m st) of Inl e \<Rightarrow> None | Inr x \<Rightarrow> Some x) (set ps)))"

definition drops_files :: "(gstate \<Rightarrow> gstate) \<Rightarrow> path set \<Rightarrow> bool" where
  "drops_files f D = (\<forall>st. \<exists>new. g_log (f st) = g_log st @ new \<and> (\<forall>ps. set (unaccounted new ps) \<subseteq> set ps - D))"

abbreviation same :: "'a option \<Rightarrow> path set \<Rightarrow> path set" where
  "same \<equiv> \<lambda>r S. S"

lemma moves_quiet: "emits file_free m \<Longrightarrow> moves_files m same"
  unfolding emits_def moves_files_def using unaccounted_file_free by metis

lemma moves_weaken:
  "moves_files m R \<Longrightarrow> (\<And>r S. R r S \<subseteq> R' r S) \<Longrightarrow> moves_files m R'"
  unfolding moves_files_def by (meson subset_trans)

lemma moves_bind:
  assumes m: "moves_files m RM" and f: "\<And>x. moves_files (f x) (RF x)"
    and err: "\<And>S. RM None S \<subseteq> R None S" and ok: "\<And>x r S S'. S' \<subseteq> RM (Some x) S \<Longrightarrow> RF x r S' \<subseteq> R r S"
  shows "moves_files (g_bind m f) R"
  unfolding moves_files_def
proof
  fix st
  obtain r st1 where run: "m st = (r, st1)" by (cases "m st")
  obtain one where one: "g_log st1 = g_log st @ one"
      "\<And>ps. set (unaccounted one ps) \<subseteq> RM (case r of Inl e \<Rightarrow> None | Inr x \<Rightarrow> Some x) (set ps)"
    using m run unfolding moves_files_def by (metis fst_conv snd_conv)
  show "\<exists>new. g_log (snd (g_bind m f st)) = g_log st @ new \<and>
      (\<forall>ps. set (unaccounted new ps) \<subseteq> R (case fst (g_bind m f st) of Inl e \<Rightarrow> None | Inr x \<Rightarrow> Some x) (set ps))"
  proof (cases r)
    case (Inl e)
    have "set (unaccounted one ps) \<subseteq> R None (set ps)" for ps
      using one(2) [of ps] err Inl by auto
    then show ?thesis using run one(1) Inl by (auto simp: g_bind_def)
  next
    case (Inr x)
    obtain two where two: "g_log (snd (f x st1)) = g_log st1 @ two"
        "\<And>ps. set (unaccounted two ps) \<subseteq> RF x (case fst (f x st1) of Inl e \<Rightarrow> None | Inr x \<Rightarrow> Some x) (set ps)"
      using f unfolding moves_files_def by metis
    have "set (unaccounted (one @ two) ps) \<subseteq> R (case fst (f x st1) of Inl e \<Rightarrow> None | Inr x \<Rightarrow> Some x) (set ps)" for ps
      using two(2) [of "unaccounted one ps"] ok [of "set (unaccounted one ps)" x "set ps"] one(2) [of ps] Inr
      by (auto simp: unaccounted_append)
    then show ?thesis using run one(1) two(1) Inr by (auto simp: g_bind_def)
  qed
qed

text \<open>The common case: nothing is added for good but what is in \<open>T\<close>.\<close>

abbreviation adds :: "path set \<Rightarrow> 'a option \<Rightarrow> path set \<Rightarrow> path set" where
  "adds T \<equiv> \<lambda>r S. S \<union> T"

lemma moves_adds_bind:
  "moves_files m (adds T) \<Longrightarrow> (\<And>x. moves_files (f x) (adds T)) \<Longrightarrow> moves_files (g_bind m f) (adds T)"
  by (rule moves_bind [where RF = "\<lambda>x. adds T"]) auto

lemma moves_adds_quiet: "emits file_free m \<Longrightarrow> moves_files m (adds T)"
  by (rule moves_weaken [OF moves_quiet]) auto

lemma moves_after_quiet:
  "emits file_free m \<Longrightarrow> (\<And>x. moves_files (f x) R) \<Longrightarrow> (\<And>r S S'. S' \<subseteq> S \<Longrightarrow> R r S' \<subseteq> R r S) \<Longrightarrow>
   (\<And>S. S \<subseteq> R None S) \<Longrightarrow> moves_files (g_bind m f) R"
  by (rule moves_bind [OF moves_quiet, where RF = "\<lambda>x. R"]) auto

text \<open>Something can be left over, but only by a failure.\<close>

abbreviation fails_with :: "path set \<Rightarrow> 'a option \<Rightarrow> path set \<Rightarrow> path set" where
  "fails_with T \<equiv> \<lambda>r S. case r of None \<Rightarrow> S \<union> T | Some x \<Rightarrow> S"

lemma moves_fails_bind:
  "moves_files m (fails_with T) \<Longrightarrow> (\<And>x. moves_files (f x) (fails_with T)) \<Longrightarrow> moves_files (g_bind m f) (fails_with T)"
  by (rule moves_bind [where RF = "\<lambda>x. fails_with T"]) (auto split: option.split)

lemma moves_fails_quiet: "emits file_free m \<Longrightarrow> moves_files m (fails_with T)"
  by (rule moves_weaken [OF moves_quiet]) (auto split: option.split)

lemma moves_fails_each: "(\<And>x. x \<in> set xs \<Longrightarrow> moves_files (f x) (fails_with T)) \<Longrightarrow> moves_files (g_each f xs) (fails_with T)"
proof (induction xs)
  case Nil
  show ?case using moves_fails_quiet [OF emits_return] by simp
next
  case (Cons x xs)
  then show ?case by (auto intro: moves_fails_bind)
qed

text \<open>Two computations, whatever comes out of the first.\<close>

lemma moves_two:
  assumes "moves_files m (adds T)" "drops_files n D" "\<And>st. snd (h st) = n (snd (m st))"
  shows "moves_files h (\<lambda>r S. (S \<union> T) - D)"
  unfolding moves_files_def
proof
  fix st
  obtain one where one: "g_log (snd (m st)) = g_log st @ one" "\<And>ps. set (unaccounted one ps) \<subseteq> set ps \<union> T"
    using assms(1) unfolding moves_files_def by metis
  obtain two where two: "g_log (n (snd (m st))) = g_log (snd (m st)) @ two" "\<And>ps. set (unaccounted two ps) \<subseteq> set ps - D"
    using assms(2) unfolding drops_files_def by metis
  have "set (unaccounted (one @ two) ps) \<subseteq> (set ps \<union> T) - D" for ps
    using one(2) [of ps] two(2) [of "unaccounted one ps"] by (auto simp: unaccounted_append)
  then show "\<exists>new. g_log (snd (h st)) = g_log st @ new \<and> (\<forall>ps. set (unaccounted new ps) \<subseteq> (set ps \<union> T) - D)"
    using one(1) two(1) assms(3) by auto
qed

lemma drops_quiet: "emits file_free m \<Longrightarrow> drops_files (\<lambda>st. snd (m st)) {}"
  unfolding emits_def drops_files_def using unaccounted_file_free by (metis Diff_empty)

lemma moves_compare_state: "moves_files m same \<Longrightarrow> moves_files (compare_state sys root before m) same"
  using moves_two [OF _ drops_quiet [OF files.emits_compatibilityState [of sys root]], of m "{}" "compare_state sys root before m"]
  by (auto simp: compare_state_def Let_def split_beta)

lemma moves_adds_empty: "moves_files m (adds {}) = moves_files m same"
  by simp

lemma moves_wrap: "moves_files m R \<Longrightarrow> moves_files (g_wrap f m) R"
  unfolding moves_files_def
proof
  fix st
  assume m: "\<forall>st. \<exists>new. g_log (snd (m st)) = g_log st @ new \<and>
    (\<forall>ps. set (unaccounted new ps) \<subseteq> R (case fst (m st) of Inl e \<Rightarrow> None | Inr x \<Rightarrow> Some x) (set ps))"
  show "\<exists>new. g_log (snd (g_wrap f m st)) = g_log st @ new \<and>
      (\<forall>ps. set (unaccounted new ps) \<subseteq> R (case fst (g_wrap f m st) of Inl e \<Rightarrow> None | Inr x \<Rightarrow> Some x) (set ps))"
    using spec [OF m, of st] by (cases "m st"; cases "fst (m st)") (auto simp: g_wrap_def)
qed

text \<open>A computation that can only return one value.\<close>

definition returns_only :: "'a \<Rightarrow> 'a gate \<Rightarrow> bool" where
  "returns_only p m = (\<forall>st x. fst (m st) = Inr x \<longrightarrow> x = p)"

lemma returns_only_rules:
  "returns_only p (g_return p)"
  "(\<And>x. returns_only p (f x)) \<Longrightarrow> returns_only p (g_bind n f)"
  "returns_only p m \<Longrightarrow> returns_only p (g_on_error c m)"
  by (auto simp: returns_only_def g_return_def g_bind_def g_on_error_def split: prod.splits sum.splits)
    (metis fst_conv)+

lemma moves_result:
  assumes "moves_files m R" "returns_only p m"
  shows "moves_files m (\<lambda>r S. case r of None \<Rightarrow> R None S | Some q \<Rightarrow> if q = p then R (Some q) S else {})"
  unfolding moves_files_def
proof
  fix st
  obtain new where new: "g_log (snd (m st)) = g_log st @ new"
      "\<And>ps. set (unaccounted new ps) \<subseteq> R (case fst (m st) of Inl e \<Rightarrow> None | Inr x \<Rightarrow> Some x) (set ps)"
    using assms(1) unfolding moves_files_def by blast
  then show "\<exists>new. g_log (snd (m st)) = g_log st @ new \<and>
      (\<forall>ps. set (unaccounted new ps) \<subseteq>
        (case (case fst (m st) of Inl e \<Rightarrow> None | Inr x \<Rightarrow> Some x) of
           None \<Rightarrow> R None (set ps) | Some q \<Rightarrow> if q = p then R (Some q) (set ps) else {}))"
    using assms(2) by (cases "fst (m st)") (force simp: returns_only_def intro: exI [of _ new])+
qed

lemma moves_each: "(\<And>x. x \<in> set xs \<Longrightarrow> moves_files (f x) (adds T)) \<Longrightarrow> moves_files (g_each f xs) (adds T)"
proof (induction xs)
  case Nil
  show ?case using moves_adds_quiet [OF emits_return] by simp
next
  case (Cons x xs)
  then show ?case by (auto intro: moves_adds_bind)
qed

lemma moves_defer:
  assumes "moves_files m (adds T)" "drops_files f D"
  shows "moves_files (g_defer f m) (\<lambda>r S. (S \<union> T) - D)"
  unfolding moves_files_def
proof
  fix st
  obtain r st1 where run: "m st = (r, st1)" by (cases "m st")
  obtain one where one: "g_log st1 = g_log st @ one" "\<And>ps. set (unaccounted one ps) \<subseteq> set ps \<union> T"
    using assms(1) run unfolding moves_files_def by (metis snd_conv)
  obtain two where two: "g_log (f st1) = g_log st1 @ two" "\<And>ps. set (unaccounted two ps) \<subseteq> set ps - D"
    using assms(2) unfolding drops_files_def by metis
  have "set (unaccounted (one @ two) ps) \<subseteq> (set ps \<union> T) - D" for ps
    using one(2) [of ps] two(2) [of "unaccounted one ps"] by (auto simp: unaccounted_append)
  then show "\<exists>new. g_log (snd (g_defer f m st)) = g_log st @ new \<and>
      (\<forall>ps. set (unaccounted new ps) \<subseteq> (set ps \<union> T) - D)"
    using run one(1) two(1) by (auto simp: g_defer_def)
qed

lemma moves_on_error:
  assumes "moves_files m (adds T)" "drops_files f D"
  shows "moves_files (g_on_error f m) (\<lambda>r S. case r of None \<Rightarrow> (S \<union> T) - D | Some x \<Rightarrow> S \<union> T)"
  unfolding moves_files_def
proof
  fix st
  obtain r st1 where run: "m st = (r, st1)" by (cases "m st")
  obtain one where one: "g_log st1 = g_log st @ one" "\<And>ps. set (unaccounted one ps) \<subseteq> set ps \<union> T"
    using assms(1) run unfolding moves_files_def by (metis snd_conv)
  obtain two where two: "g_log (f st1) = g_log st1 @ two" "\<And>ps. set (unaccounted two ps) \<subseteq> set ps - D"
    using assms(2) unfolding drops_files_def by metis
  have both: "set (unaccounted (one @ two) ps) \<subseteq> (set ps \<union> T) - D" for ps
    using one(2) [of ps] two(2) [of "unaccounted one ps"] by (auto simp: unaccounted_append)
  show "\<exists>new. g_log (snd (g_on_error f m st)) = g_log st @ new \<and>
      (\<forall>ps. set (unaccounted new ps) \<subseteq>
        (case (case fst (g_on_error f m st) of Inl e \<Rightarrow> None | Inr x \<Rightarrow> Some x) of None \<Rightarrow> (set ps \<union> T) - D | Some x \<Rightarrow> set ps \<union> T))"
    using run one two(1) both by (cases r) (auto simp: g_on_error_def)
qed

section \<open>The operations\<close>

definition err_of :: "'a res \<Rightarrow> go_error option" where
  "err_of r = (case r of Inl e \<Rightarrow> Some e | Inr x \<Rightarrow> None)"

lemma os_Remove_log: "os_Remove p st = (r, st1) \<Longrightarrow> g_log st1 = g_log st @ [Removing p (err_of r)]"
  by (auto simp: os_Remove_def Let_def err_of_def split: prod.splits option.splits if_splits dest!: next_fault_keeps)

lemma os_RemoveAll_log: "os_RemoveAll p st = (r, st1) \<Longrightarrow> g_log st1 = g_log st @ [RemovingTree p (err_of r)]"
  by (auto simp: os_RemoveAll_def Let_def err_of_def split: prod.splits option.splits dest!: next_fault_keeps)

lemma drops_cleanup_file: "drops_files (cleanup_file p) {p}"
  unfolding drops_files_def
proof
  fix st
  obtain r st1 where r: "os_Remove p st = (r, st1)" by (cases "os_Remove p st")
  show "\<exists>new. g_log (cleanup_file p st) = g_log st @ new \<and> (\<forall>ps. set (unaccounted new ps) \<subseteq> set ps - {p})"
    using os_Remove_log [OF r] r
    by (cases r) (auto simp: cleanup_file_def err_of_def reports_def)
qed

lemma drops_seq: "drops_files f D \<Longrightarrow> drops_files g E \<Longrightarrow> drops_files (\<lambda>st. g (f st)) (D \<union> E)"
  unfolding drops_files_def
proof
  fix st
  assume f: "\<forall>st. \<exists>new. g_log (f st) = g_log st @ new \<and> (\<forall>ps. set (unaccounted new ps) \<subseteq> set ps - D)"
    and g: "\<forall>st. \<exists>new. g_log (g st) = g_log st @ new \<and> (\<forall>ps. set (unaccounted new ps) \<subseteq> set ps - E)"
  obtain one where one: "g_log (f st) = g_log st @ one" "\<And>ps. set (unaccounted one ps) \<subseteq> set ps - D"
    using f by blast
  obtain two where two: "g_log (g (f st)) = g_log (f st) @ two" "\<And>ps. set (unaccounted two ps) \<subseteq> set ps - E"
    using g by blast
  have "set (unaccounted (one @ two) ps) \<subseteq> set ps - (D \<union> E)" for ps
    using one(2) [of ps] two(2) [of "unaccounted one ps"] by (auto simp: unaccounted_append)
  then show "\<exists>new. g_log (g (f st)) = g_log st @ new \<and> (\<forall>ps. set (unaccounted new ps) \<subseteq> set ps - (D \<union> E))"
    using one(1) two(1) by auto
qed

lemma drops_cleanup_modfile: "drops_files (cleanup_modfile p) {p, sumfile_of p}"
  using drops_seq [OF drops_cleanup_file [of p] drops_cleanup_file [of "sumfile_of p"]]
  by (simp add: cleanup_modfile_def [abs_def] insert_commute)

lemma drops_removeTree: "drops_files (removeTree p) {q. prefix p q}"
  unfolding drops_files_def
proof
  fix st
  obtain r st1 where r: "os_RemoveAll p st = (r, st1)" by (cases "os_RemoveAll p st")
  show "\<exists>new. g_log (removeTree p st) = g_log st @ new \<and> (\<forall>ps. set (unaccounted new ps) \<subseteq> set ps - {q. prefix p q})"
    using os_RemoveAll_log [OF r] r
    by (cases r) (auto simp: removeTree_def err_of_def reports_def)
qed

lemma moves_temp:
  "moves_files (os_temp sys new pattern)
     (\<lambda>r S. case r of None \<Rightarrow> S | Some p \<Rightarrow> S \<union> ({p} \<inter> {q. \<exists>c. last q = pattern c}))"
proof -
  have name: "fresh_name pattern dir fs cs = Some (n, rest) \<Longrightarrow> \<exists>c. n = pattern c" for dir fs cs n rest
    by (induction cs) (auto split: if_splits)
  show ?thesis
    unfolding moves_files_def
    by (auto simp: os_temp_def Let_def split: prod.splits option.splits dest!: next_fault_keeps name)
qed

lemma moves_WriteFile: "moves_files (os_WriteFile p content) (adds {p})"
  unfolding moves_files_def
  by (auto simp: os_WriteFile_def Let_def split: prod.splits option.splits dest!: next_fault_keeps)

lemmas moves_rules = moves_adds_bind moves_wrap moves_each

lemma moves_alternateModfile:
  "moves_files (alternateModfile sys root version)
     (\<lambda>r S. case r of None \<Rightarrow> S | Some p \<Rightarrow> S \<union> {p, sumfile_of p})"
proof -
  have inner: "moves_files
      (g_on_error (cleanup_modfile p)
        (g_bind (write_modfile p productMod) (\<lambda>u.
         g_bind (g_wrap (wrap ''write compatibility sumfile: %w'') (os_WriteFile (sumfile_of p) productSum)) (\<lambda>u.
         g_bind (command sys root [] ''go''
                   [''mod'', ''edit'', ''-modfile='' @ path_text p, ''-require='' @ spiceModulePath @ ''@'' @ version])
           (\<lambda>u. g_return p)))))
      (\<lambda>r S. case r of None \<Rightarrow> (S \<union> {sumfile_of p}) - {p, sumfile_of p}
             | Some q \<Rightarrow> if q = p then S \<union> {sumfile_of p} else {})" (is "moves_files ?m _") for p productMod productSum
  proof -
    have "moves_files ?m (\<lambda>r S. case r of None \<Rightarrow> (S \<union> {sumfile_of p}) - {p, sumfile_of p} | Some q \<Rightarrow> S \<union> {sumfile_of p})"
      by (intro moves_on_error drops_cleanup_modfile moves_rules moves_WriteFile)
        (intro moves_adds_quiet emits_return files.emits_commands files.emits_write_modfile)+
    moreover have "returns_only p ?m" by (intro returns_only_rules)
    ultimately show ?thesis by (rule moves_weaken [OF moves_result]) (auto split: option.split)
  qed
  show ?thesis
    unfolding alternateModfile_def os_CreateTemp_def
    by (rule moves_after_quiet [OF emits_wrap [OF emits_ReadFile]]
        moves_bind [OF moves_wrap [OF moves_temp] inner])+
      (auto split: option.splits if_splits)
qed

lemma moves_verifyCompatibilityBoundary: "moves_files (verifyCompatibilityBoundary sys root boundary) same"
proof -
  have body: "moves_files
      (g_bind (alternateModfile sys root (cb_Version boundary)) (\<lambda>modfile.
        g_defer (cleanup_modfile modfile) (check_boundary sys root boundary modfile))) same"
    by (rule moves_bind [OF moves_alternateModfile
          moves_defer [where T = "{}", OF moves_adds_quiet [OF files.emits_check_boundary] drops_cleanup_modfile]])
      auto
  show ?thesis
    unfolding verifyCompatibilityBoundary_def
    by (rule moves_after_quiet [OF files.emits_compatibilityState]) (auto intro: moves_compare_state body)
qed

lemma moves_coreCompatibility: "moves_files (coreCompatibility sys root line) same"
proof -
  have "moves_files (g_each (verifyCompatibilityBoundary sys root) bs) (adds {})" for bs
    by (intro moves_each) (simp add: moves_verifyCompatibilityBoundary)
  then show ?thesis
    unfolding coreCompatibility_def
    by (intro moves_after_quiet [OF files.emits_readCompatibility] moves_after_quiet [OF emits_lift]) simp_all
qed

lemma moves_prepareCompatibilityDependencies: "moves_files (prepareCompatibilityDependencies sys root line) same"
proof -
  have down: "emits file_free (networkCommand sys root [''mod'', ''download'', ''-modfile='' @ path_text p])" for p
    by (rule files_network.emits_networkCommand) (simp add: module_args_def)
  have resolve: "emits file_free (g_wrap f (resolveExactCoreVersion sys root version))" for f version
    unfolding resolveExactCoreVersion_def
    by (intro emits_rules files_network.emits_networkCapture emits_case_prod) (simp add: module_args_def)
  have "moves_files (prepare_boundary sys root b) same" for b
    unfolding prepare_boundary_def
    by (rule moves_after_quiet [OF resolve] moves_bind [OF moves_alternateModfile
          moves_wrap [OF moves_defer [where T = "{}", OF moves_adds_quiet [OF down] drops_cleanup_modfile]]])+
      auto
  then have "moves_files (g_each (prepare_boundary sys root) bs) (adds {})" for bs
    by (intro moves_each) simp
  then show ?thesis
    unfolding prepareCompatibilityDependencies_def
    by (intro moves_after_quiet [OF files.emits_readCompatibility] moves_after_quiet [OF emits_lift]) simp_all
qed

text \<open>A temporary directory that a deferred function removes, with everything below it.\<close>

lemma moves_in_tree:
  assumes "\<And>p. moves_files (m p) (adds {q. prefix p q})"
  shows "moves_files (g_bind (g_wrap f (os_MkdirTemp sys pre)) (\<lambda>p. g_defer (removeTree p) (m p))) same"
  unfolding os_MkdirTemp_def
  by (rule moves_bind [OF moves_wrap [OF moves_temp] moves_defer [OF assms drops_removeTree]]) auto

lemma moves_checkModule: "moves_files (checkModule sys root) same"
  unfolding checkModule_def Let_def
  by (rule moves_after_quiet [OF files.emits_commands(1)] moves_in_tree moves_adds_quiet)+
    (auto intro!: files.rules files.emits_treeDigests)

lemma moves_releaseRehearsal: "moves_files (releaseRehearsal sys root) same"
proof -
  have plan: "moves_files (os_WriteFile (p @ [''plan.json'']) content) (adds {q. prefix p q})" for p content
    by (rule moves_weaken [OF moves_WriteFile]) auto
  have "moves_files (rehearse_in sys root p) (adds {q. prefix p q})" for p
    unfolding rehearse_in_def render_def Let_def
    by (intro moves_adds_bind moves_wrap moves_each plan)
      (intro moves_adds_quiet emits_check files.rules files.emits_deterministicReleaseArtifacts
        files.emits_validateReleaseRehearsal)+
  then show ?thesis unfolding releaseRehearsal_def by (rule moves_in_tree)
qed

definition coverage_profiles :: "path set" where
  "coverage_profiles = {q. \<exists>c. last q = ''spice-starter-websocket-coverage-'' @ c @ ''.out''}"

lemma moves_removal:
  assumes "emits file_free m"
  shows "moves_files (with_removal p m) (\<lambda>r S. case r of None \<Rightarrow> S | Some x \<Rightarrow> S - {p})"
  unfolding moves_files_def
proof
  fix st
  obtain r1 st1 where m: "m st = (r1, st1)" by (cases "m st")
  obtain r2 st2 where rem: "os_Remove p st1 = (r2, st2)" by (cases "os_Remove p st1")
  obtain one where one: "g_log st1 = g_log st @ one" "list_all file_free one"
    using assms m unfolding emits_def by (metis snd_conv)
  have quiet: "set (unaccounted one ps) \<subseteq> set ps" for ps by (rule unaccounted_file_free [OF one(2)])
  show "\<exists>new. g_log (snd (with_removal p m st)) = g_log st @ new \<and>
      (\<forall>ps. set (unaccounted new ps) \<subseteq>
        (case (case fst (with_removal p m st) of Inl e \<Rightarrow> None | Inr x \<Rightarrow> Some x) of None \<Rightarrow> set ps | Some x \<Rightarrow> set ps - {p}))"
  proof (intro exI conjI allI)
    show "g_log (snd (with_removal p m st)) = g_log st @ one @ [Removing p (err_of r2)]"
      using m rem os_Remove_log [OF rem] one(1) by (simp add: with_removal_def)
    fix ps
    have failed: "\<exists>e. fst (with_removal p m st) = Inl e" if "r1 = Inl e1 \<or> r2 = Inl e1" for e1
      using m rem that by (cases r1; cases r2) (auto simp: with_removal_def errors_join_def List.map_filter_def Let_def)
    have shrink: "set (unaccounted [Removing p (err_of r2)] qs) \<subseteq> set qs" for qs
      by (auto simp: err_of_def split: sum.splits if_splits)
    show "set (unaccounted (one @ [Removing p (err_of r2)]) ps) \<subseteq>
        (case (case fst (with_removal p m st) of Inl e \<Rightarrow> None | Inr x \<Rightarrow> Some x) of None \<Rightarrow> set ps | Some x \<Rightarrow> set ps - {p})"
    proof (cases r2)
      case (Inl e)
      then show ?thesis
        using failed [of e] quiet [of ps] shrink [of "unaccounted one ps"] by (auto simp: unaccounted_append)
    next
      case (Inr u)
      have "set (unaccounted (one @ [Removing p (err_of r2)]) ps) \<subseteq> set ps - {p}"
        using quiet [of ps] Inr by (auto simp: unaccounted_append err_of_def)
      then show ?thesis by (auto split: option.split)
    qed
  qed
qed

lemma moves_coverage: "moves_files (coverage sys root) (fails_with coverage_profiles)"
proof -
  have printed: "file_free (Printed m args errs)" for m args errs by (simp add: file_free_def)
  have rest: "moves_files
      (g_bind (g_wrap (wrap ''close coverage profile: %w'') file_Close) (\<lambda>u. with_removal p (m p)))
      (\<lambda>r S. case r of None \<Rightarrow> S | Some x \<Rightarrow> S - {p})"
    if "\<And>p. emits file_free (m p)" for p and m :: "path \<Rightarrow> unit gate"
    by (rule moves_after_quiet [OF emits_wrap [OF emits_Close] moves_removal [OF that]]) (auto split: option.splits)
  show ?thesis
    unfolding coverage_def os_CreateTemp_def
    by (rule moves_bind [OF moves_wrap [OF moves_temp] rest])
      (auto simp: coverage_profiles_def split: option.splits intro!: files.rules printed)
qed

lemma moves_run_step: "moves_files (st_run s) (fails_with T) \<Longrightarrow> moves_files (run_step sys s) (fails_with T)"
  unfolding run_step_def
  by (intro moves_fails_bind moves_wrap) (auto intro!: moves_fails_quiet emits_print simp: file_free_def)

definition left_over :: "string \<Rightarrow> path set" where
  "left_over mode = (if mode \<in> {''verify'', ''verify-release''} then coverage_profiles else {})"

lemma moves_steps:
  assumes "steps_of sys root mode line = Some steps" "s \<in> set steps"
  shows "moves_files (st_run s) (fails_with (left_over mode))"
proof -
  have add: "moves_files m (fails_with (left_over mode))" if "moves_files m same" for m :: "unit gate"
    by (rule moves_weaken [OF that]) (auto split: option.split)
  note ops = add [OF moves_coreCompatibility] add [OF moves_prepareCompatibilityDependencies] add [OF moves_checkModule]
    add [OF moves_releaseRehearsal]
  have plain: "emits file_free (checkIdentity sys root)" "emits file_free (prepareDependencies sys root)"
    "emits file_free (format_files sys root w)" "emits file_free (lint sys root)" "emits file_free (security sys root)"
    "emits file_free (tests sys root)" "emits file_free (offline sys root)"
    "emits file_free (command sys root [] ''go'' args)" for w args
    by (rule files.emits_checkIdentity files_network.emits_prepareDependencies files.emits_format_files files.emits_lint
        files.emits_security files.emits_tests files.emits_offline files.emits_commands)+
  show ?thesis
  proof (cases "mode \<in> {''verify'', ''verify-release''}")
    case True
    then have "left_over mode = coverage_profiles" by (simp add: left_over_def)
    then have "moves_files (coverage sys root) (fails_with (left_over mode))" using moves_coverage by metis
    then show ?thesis
      using assms ops plain [THEN moves_fails_quiet [where T = "left_over mode"]] True
      by (auto simp: steps_of_def Let_def split: if_splits)
  next
    case False
    then show ?thesis
      using assms ops plain [THEN moves_fails_quiet [where T = "left_over mode"]]
      by (auto simp: steps_of_def Let_def split: if_splits)
  qed
qed

text \<open>
  C31. The gate cleans up after itself. On every path, whatever fails and whatever the processes do, every temporary file and
  directory that a run has created (the alternate module files and their checksums, the vendor tree, the rehearsal tree) has,
  when the run ends, been removed after its creation, or \<open>os.Remove\<close> found nothing there, or
  the removal has failed and a warning was printed that names the file or the tree it is in. Only a
  coverage profile can be left without a warning, in the modes that measure coverage, and then the run fails.
\<close>

theorem temporary_files_accounted:
  "\<exists>new. g_log (snd (run sys root mode line st)) = g_log st @ new \<and>
     set (unaccounted new []) \<subseteq>
       (case fst (run sys root mode line st) of
          Inr u \<Rightarrow> {}
        | Inl e \<Rightarrow> if mode \<in> {''verify'', ''verify-release''} then coverage_profiles else {})"
proof -
  let ?T = "left_over mode"
  have "moves_files (run sys root mode line) (fails_with ?T)"
  proof (cases "steps_of sys root mode line")
    case None
    show ?thesis unfolding run_def None option.case by (intro moves_fails_quiet emits_bind emits_check emits_fail)
  next
    case (Some steps)
    have "moves_files (g_each (run_step sys) steps) (fails_with ?T)"
      by (intro moves_fails_each moves_run_step moves_steps [OF Some])
    moreover have "moves_files (g_bind (g_print ''==> all verification passed'' []) (\<lambda>u. requireReleaseTool sys root)) (fails_with ?T)"
      by (intro moves_fails_quiet emits_bind emits_print files.emits_requireReleaseTool) (simp add: file_free_def)
    ultimately show ?thesis
      unfolding run_def Some option.case by (rule moves_fails_bind [OF moves_fails_quiet [OF emits_check] moves_fails_bind])
  qed
  then obtain new where new: "g_log (snd (run sys root mode line st)) = g_log st @ new"
      "\<And>ps. set (unaccounted new ps) \<subseteq>
         fails_with ?T (case fst (run sys root mode line st) of Inl e \<Rightarrow> None | Inr x \<Rightarrow> Some x) (set ps)"
    unfolding moves_files_def by metis
  show ?thesis
    using new(1) new(2) [of "[]"]
    by (intro exI [of _ new]) (auto simp: left_over_def split: sum.splits)
qed

end
