(* ===== verification/Gate_Checks.thy ===== *)
theory Gate_Checks
  imports Gate_Steps
begin

text \<open>
  What the individual checks of the quality gate accept, and what they let through.
\<close>

section \<open>Release checks\<close>

lemma check_lines_None: "length lines = length wants \<Longrightarrow> check_lines i lines wants = None \<longleftrightarrow> lines = wants"
proof (induction lines arbitrary: i wants)
  case (Cons line lines)
  then show ?case by (cases wants) auto
qed simp

lemma split_on_line: "c \<notin> set p \<Longrightarrow> split_on c (p @ c # s) = p # split_on c s"
  by (induction p) auto

lemma split_on_last: "c \<notin> set p \<Longrightarrow> split_on c p = [p]"
  by (induction p) auto

lemma hex_text_printable: "CHR 0x0A \<notin> set (hex_text s)"
proof -
  have "list_all (\<lambda>n. hex_char n \<noteq> CHR 0x0A) [0..<16]" by code_simp
  then have "hex_char n \<noteq> CHR 0x0A" if "n < 16" for n
    using that by (simp add: list_all_iff)
  note digit = this
  have "CHR 0x0A \<noteq> hex_char (of_char c div 16)" "CHR 0x0A \<noteq> hex_char (of_char c mod 16)" for c :: char
    using digit [of "of_char c div 16"] digit [of "of_char c mod 16"] nat_of_char_less_256 [of c]
    by (simp_all add: less_mult_imp_div_less eq_commute)
  then show ?thesis by (auto simp: hex_text_def)
qed

lemma sbom_before_archive: "release_sbom \<le> release_archive"
  by (simp add: release_sbom_def release_archive_def release_base_def rehearsalVersion_def trim_prefix_def
      has_prefix_def less_eq_list_code less_list_code less_char_def)

lemma names_printable: "CHR 0x0A \<notin> set release_sbom" "CHR 0x0A \<notin> set release_archive"
  by (simp_all add: release_sbom_def release_archive_def release_base_def rehearsalVersion_def trim_prefix_def has_prefix_def)

text \<open>
  C32. The checksums of a release are canonical: \<open>validateReleaseChecksums\<close> accepts exactly one content of
  \<open>checksums.txt\<close>, the two lines for the SBOM and the archive in this order, each with the lower-case
  hexadecimal digest, two spaces and the name, and each ended by one newline.
\<close>

theorem checksums_canonical:
  "check_checksums content artifacts [release_sbom, release_archive] = None \<longleftrightarrow>
     content = checksum_line artifacts release_sbom @ newline @ checksum_line artifacts release_archive @ newline"
proof -
  let ?one = "checksum_line artifacts release_sbom" and ?two = "checksum_line artifacts release_archive"
  have printable: "CHR 0x0A \<notin> set ?one" "CHR 0x0A \<notin> set ?two"
    using hex_text_printable names_printable by (auto simp: checksum_line_def)
  have "split_on (CHR 0x0A) s = [?one, ?two] \<longleftrightarrow> s = ?one @ newline @ ?two" for s
  proof
    assume "split_on (CHR 0x0A) s = [?one, ?two]"
    then show "s = ?one @ newline @ ?two"
      using join_split_on [of "CHR 0x0A" s] by (simp add: newline_def)
  next
    assume "s = ?one @ newline @ ?two"
    then show "split_on (CHR 0x0A) s = [?one, ?two]"
      using printable by (simp add: newline_def split_on_line split_on_last)
  qed
  note lines = this
  show ?thesis
  proof (cases "content \<noteq> [] \<and> last content = CHR 0x0A")
    case True
    then obtain s where s: "content = s @ newline"
      by (metis append_butlast_last_id newline_def)
    have trim: "trim_suffix content newline = s"
      by (simp add: s trim_suffix_def has_suffix_def newline_def)
    have "check_checksums content artifacts [release_sbom, release_archive] = None \<longleftrightarrow>
        split_on (CHR 0x0A) s = [?one, ?two]"
      using True trim check_lines_None [of "split_on (CHR 0x0A) s" "[?one, ?two]" 0]
      by (auto simp: check_checksums_def sbom_before_archive Let_def split: if_splits)
    then show ?thesis using lines [of s] s by (simp add: newline_def)
  next
    case False
    then show ?thesis by (auto simp: check_checksums_def newline_def)
  qed
qed

section \<open>Tool authorization\<close>

lemma check_requirements_None:
  "check_requirements au found rs = None \<longleftrightarrow>
     (found \<or> (\<exists>r \<in> set rs. rq_Path r = au_module au)) \<and>
     (\<forall>r \<in> set rs. rq_Path r = au_module au \<longrightarrow> rq_Version r = au_version au)"
  by (induction rs arbitrary: found) auto

text \<open>
  C33. The release tools are authorized exactly if the module file declares each of the two tools exactly once
  and the versions that it requires of the tool's module are, in all requirements together, the one authorized version.
\<close>

theorem release_tools_authorized:
  "validateReleaseToolAuthorization sys content = None \<longleftrightarrow>
     (\<exists>require tools. sys_Unmarshal_tools sys content = Inr (require, tools) \<and>
        list_all (\<lambda>au. length (filter (\<lambda>t. t = au_tool au) tools) = 1 \<and>
            rq_Version ` {r \<in> set require. rq_Path r = au_module au} = {au_version au}) authorizations)"
proof -
  have "check_authorizations require tools aus = None \<longleftrightarrow>
      list_all (\<lambda>au. length (filter (\<lambda>t. t = au_tool au) tools) = 1 \<and>
            rq_Version ` {r \<in> set require. rq_Path r = au_module au} = {au_version au}) aus" for require tools aus
  proof (induction aus)
    case (Cons au aus)
    have "check_requirements au False require = None \<longleftrightarrow>
        rq_Version ` {r \<in> set require. rq_Path r = au_module au} = {au_version au}"
      unfolding check_requirements_None by auto
    then show ?case using Cons by (auto simp: Let_def split: option.split)
  qed simp
  then show ?thesis
    by (auto simp: validateReleaseToolAuthorization_def split: sum.splits prod.splits)
qed

section \<open>The repository root\<close>

text \<open>
  The test of the search: a \<open>go.mod\<close> that can be read and contains the text \<open>module\<close> and the module path, anywhere and with
  anything after it.
\<close>

definition mentions_module :: "node \<Rightarrow> path \<Rightarrow> bool" where
  "mentions_module fs p =
     (\<exists>content. (node_at (p @ [''go.mod'']) fs = Some (RegularFile (Inr content)) \<or>
                 node_at (p @ [''go.mod'']) fs = Some (SpecialFile (Inr content))) \<and>
        contains content (''module '' @ modulePath))"

definition roots_above :: "node \<Rightarrow> path \<Rightarrow> path set" where
  "roots_above fs current = {p. prefix p current \<and> mentions_module fs p}"

lemma prefix_butlast: "current \<noteq> [] \<Longrightarrow> prefix p current \<longleftrightarrow> p = current \<or> prefix p (butlast current)"
  by (metis append_butlast_last_id prefix_snoc)

lemma ReadFile_mentions:
  "(case os_ReadFile (p @ [''go.mod'']) st of (Inr content, st1) \<Rightarrow> contains content (''module '' @ modulePath) | (Inl e, st1) \<Rightarrow> False)
     = mentions_module (g_fs st) p"
  by (auto simp: os_ReadFile_def mentions_module_def split: option.splits node.splits sum.splits)

lemma ReadFile_state: "os_ReadFile p st = (r, st') \<Longrightarrow> st' = st"
  by (auto simp: os_ReadFile_def split: option.splits node.splits)

lemma find_root_step:
  "find_root current st =
     (if mentions_module (g_fs st) current then (Inr current, st)
      else if current = [] then (Inl (errors_new ''find starter-websocket repository root: go.mod not found''), st)
      else find_root (butlast current) st)"
  using ReadFile_mentions [of current st]
  by (subst find_root.simps) (auto split: sum.splits prod.splits dest: ReadFile_state)

lemma find_root_nearest:
  "case fst (find_root current st) of
     Inr p \<Rightarrow> p \<in> roots_above (g_fs st) current \<and> {q \<in> roots_above (g_fs st) current. length p < length q} = {}
   | Inl e \<Rightarrow> roots_above (g_fs st) current = {}"
proof (induction "length current" arbitrary: current)
  case 0
  then show ?case by (auto simp: find_root_step [of "[]"] roots_above_def)
next
  case (Suc n)
  show ?case
  proof (cases "mentions_module (g_fs st) current")
    case True
    then show ?thesis
      by (auto simp: find_root_step [of current] roots_above_def dest: prefix_length_le)
  next
    case False
    have "current \<noteq> []" "n = length (butlast current)" using Suc.hyps(2) by auto
    note IH = Suc.hyps(1) [OF this(2)]
    from False \<open>current \<noteq> []\<close> have "roots_above (g_fs st) current = roots_above (g_fs st) (butlast current)"
      using prefix_butlast [of current] by (auto simp: roots_above_def)
    then show ?thesis
      using IH False \<open>current \<noteq> []\<close> by (auto simp: find_root_step [of current] split: sum.splits)
  qed
qed

lemma contains_prefix: "contains (p @ s) p"
proof (cases p)
  case (Cons c q)
  then have "p @ s = c # (q @ s)" "has_prefix (c # (q @ s)) p" by (simp_all add: has_prefix_def)
  then show ?thesis by (metis contains.simps(2))
qed (cases s; simp add: has_prefix_def)

text \<open>
  C34. The search for the repository root returns the nearest directory, from the working directory up, with a
  \<open>go.mod\<close> that contains the text \<open>module github.com/spice-framework/starter-websocket\<close>, and fails exactly if there
  is none up to the root directory. The text is not the declaration: a directory whose \<open>go.mod\<close> declares a module
  with any longer path is taken for the root as well, so a search from \<open>tools\<close>, whose module is
  \<open>.../starter-websocket/tools\<close>, ends there.
\<close>

theorem repository_root_nearest:
  "(case fst (find_root current st) of
      Inr p \<Rightarrow> p \<in> roots_above (g_fs st) current \<and> {q \<in> roots_above (g_fs st) current. length p < length q} = {}
    | Inl e \<Rightarrow> roots_above (g_fs st) current = {}) \<and>
   (node_at (current @ [''go.mod'']) (g_fs st) = Some (RegularFile (Inr (''module '' @ modulePath @ rest))) \<longrightarrow>
      fst (find_root current st) = Inr current)"
proof -
  have "contains (''module '' @ modulePath @ rest) (''module '' @ modulePath)"
    using contains_prefix [of "''module '' @ modulePath" rest] by simp
  then have "mentions_module (g_fs st) current"
    if "node_at (current @ [''go.mod'']) (g_fs st) = Some (RegularFile (Inr (''module '' @ modulePath @ rest)))"
    using that by (simp add: mentions_module_def)
  then show ?thesis
    using find_root_nearest [where current = current and st = st] find_root_step [where current = current and st = st] by simp
qed

text \<open>The repository's own layout.\<close>

definition nested_state :: gstate where
  "nested_state =
     \<lparr>g_fs = Folder
        [(''repo'', Folder
           [(''go.mod'', RegularFile (Inr (''module '' @ modulePath @ [CHR 0x0A]))),
            (''tools'', Folder [(''go.mod'', RegularFile (Inr (''module '' @ modulePath @ ''/tools'' @ [CHR 0x0A])))])])],
      g_names = [], g_faults = [], g_log = []\<rparr>"

theorem repository_root_nearest_witness:
  "fst (find_root [''repo'', ''tools''] nested_state) = Inr [''repo'', ''tools'']"
proof -
  have "node_at ([''repo'', ''tools''] @ [''go.mod'']) (g_fs nested_state) =
      Some (RegularFile (Inr (''module '' @ modulePath @ ''/tools'' @ [CHR 0x0A])))"
    by (simp add: nested_state_def)
  then show ?thesis using repository_root_nearest [where current = "[''repo'', ''tools'']" and st = nested_state] by blast
qed

section \<open>A repository and its tools\<close>

text \<open>
  A concrete world: the repository lies in \<open>/repo\<close>, every command succeeds and changes nothing, and the module
  listings name the version \<open>v1\<close> and the starter's package.
\<close>

definition example_exec :: "event list \<Rightarrow> call \<Rightarrow> node \<Rightarrow> process_end \<times> node" where
  "example_exec log c fs =
     (\<lparr>pr_stdout =
         (if ''-f={{.Version}}'' \<in> set (call_args c) then ''v1''
          else if ''-f={{.ImportPath}}'' \<in> set (call_args c) then modulePath else []),
       pr_stderr = [], pr_err = None\<rparr>, fs)"

definition example_sys :: sys where
  "example_sys =
     \<lparr>sys_Version = requiredGoVersion, sys_Environ = [''PATH=/bin'', ''goproxy=direct''], sys_Getwd = Inr [''repo''],
      sys_TempDir = [''tmp''], sys_exec = example_exec, sys_Sum256 = (\<lambda>s. s),
      sys_ParseFloat = (\<lambda>s. if s = ''NaN'' then Inr NaN else Inr (Finite 90 0)), sys_Format1 = (\<lambda>x. []),
      sys_elapsed = (\<lambda>s. ''0s''),
      sys_Decode_compatibility = (\<lambda>s. Inr (\<lparr>cv_Schema = 1, cv_Minimum = ''v1'', cv_Current = ''v1''\<rparr>, [])),
      sys_Decode_raw = (\<lambda>s. Inl ErrEOF),
      sys_Unmarshal_require = (\<lambda>s. Inr [\<lparr>rq_Path = spiceModulePath, rq_Version = ''v1'', rq_Indirect = False\<rparr>]),
      sys_Unmarshal_module = (\<lambda>s. Inr (spiceModulePath, ''v1'')), sys_Unmarshal_tools = (\<lambda>s. Inr ([], [])),
      sys_Decode_SBOM = (\<lambda>s. Inl ErrEOF)\<rparr>"

definition example_state :: "string \<Rightarrow> go_error option list \<Rightarrow> gstate" where
  "example_state gomod faults =
     \<lparr>g_fs = Folder
        [(''repo'', Folder
           [(''.git'', Folder [(''HEAD'', RegularFile (Inr ''ref''))]),
            (''go.mod'', RegularFile (Inr gomod)), (''go.sum'', RegularFile (Inr ''sums'')),
            (''spice-compatibility.json'', RegularFile (Inr ''{}''))]),
         (''tmp'', Folder [])],
      g_names = [''1'', ''2''], g_faults = faults, g_log = []\<rparr>"

definition example_gomod :: string where
  "example_gomod = ''module '' @ modulePath @ newline"

section \<open>Identity\<close>

text \<open>
  The identity check lets a replace directive through. It forbids the directive by looking for a line that
  starts with the word and a blank; the grammar of \<open>go.mod\<close> also allows a tab there, and a committed
  \<open>go.mod\<close> that replaces the Spice core in this way passes, while the same line with a blank is refused.
\<close>

theorem identity_misses_replace:
  "fst (checkIdentity example_sys [''repo''] (example_state (example_gomod @ ''replace'' @ [CHR 0x09] @ spiceModulePath @ '' => ../spice'' @ newline) [])) = Inr () \<and>
   fst (checkIdentity example_sys [''repo''] (example_state (example_gomod @ ''replace '' @ spiceModulePath @ '' => ../spice'' @ newline) [])) =
     Inl (errors_new ''committed go.mod must not contain replace directives'')"
  by code_simp

section \<open>Coverage\<close>

text \<open>
  The one file that can be left behind: if the coverage profile has been created and closing it fails, the
  step ends with that error before it has registered the removal, and the profile stays.
\<close>

theorem coverage_leaves_profile:
  assumes "os_CreateTemp sys ''spice-starter-websocket-coverage-'' ''.out'' st = (Inr p, st1)"
    and "g_faults st1 = Some e # faults"
  shows "fst (coverage sys root st) = Inl (wrap ''close coverage profile: %w'' e) \<and>
    g_log (snd (coverage sys root st)) = g_log st @ [Created p] \<and> g_fs (snd (coverage sys root st)) = g_fs st1"
proof -
  have "g_log st1 = g_log st @ [Created p]"
    using assms(1)
    by (auto simp: os_CreateTemp_def os_temp_def Let_def split: prod.splits option.splits dest!: next_fault_keeps)
  then show ?thesis
    using assms by (simp add: coverage_def g_bind_def g_wrap_def file_Close_def next_fault_def Let_def)
qed

theorem coverage_leaves_profile_witness:
  "fst (coverage example_sys [''repo''] (example_state example_gomod [None, Some ErrUnexpectedEOF])) =
     Inl (wrap ''close coverage profile: %w'' ErrUnexpectedEOF)"
proof -
  let ?st = "example_state example_gomod [None, Some ErrUnexpectedEOF]"
  obtain p st1 where "os_CreateTemp example_sys ''spice-starter-websocket-coverage-'' ''.out'' ?st = (Inr p, st1)"
      "g_faults st1 = [Some ErrUnexpectedEOF]"
    by (simp add: os_CreateTemp_def os_temp_def example_state_def example_sys_def next_fault_def log_event_def Let_def)
  from coverage_leaves_profile [OF this] show ?thesis by simp
qed

end
