(* ===== verification/Gate_Boundary.thy ===== *)
theory Gate_Boundary
  imports Gate_Checks Go_Unicode
begin

text \<open>
  What the verification of a compatibility boundary guarantees for the repository, in terms of the file system: the walk of
  \<open>compatibilityState\<close> is related to the regular files that are there, and its comparison to their digests.
\<close>

section \<open>Files\<close>

text \<open>
  The digest of the regular file at a path, if there is one (\<open>Inl\<close> for a file that cannot be read).
\<close>

definition file_digest :: "sys \<Rightarrow> node \<Rightarrow> path \<Rightarrow> string res option" where
  "file_digest sys fs p =
     (case node_at p fs of Some (RegularFile r) \<Rightarrow> Some (map_sum id (sys_Sum256 sys) r) | _ \<Rightarrow> None)"

lemma file_digest_Some:
  "file_digest sys fs p = Some (Inr d) \<longleftrightarrow> (\<exists>c. node_at p fs = Some (RegularFile (Inr c)) \<and> d = sys_Sum256 sys c)"
  "file_digest sys fs p = Some (Inl e) \<longleftrightarrow> node_at p fs = Some (RegularFile (Inl e))"
proof -
  have "map_sum id f r = Inr d \<longleftrightarrow> (\<exists>c. r = Inr c \<and> d = f c)" "map_sum id f r = Inl e \<longleftrightarrow> r = Inl e" for f :: "string \<Rightarrow> string" and r :: "string res"
    by (cases r; auto)+
  then show "file_digest sys fs p = Some (Inr d) \<longleftrightarrow> (\<exists>c. node_at p fs = Some (RegularFile (Inr c)) \<and> d = sys_Sum256 sys c)"
    and "file_digest sys fs p = Some (Inl e) \<longleftrightarrow> node_at p fs = Some (RegularFile (Inl e))"
    by (auto simp: file_digest_def split: option.split node.split)
qed

text \<open>A directory has one entry for each of its names, and no name contains a slash.\<close>

fun tree_ok :: "node \<Rightarrow> bool" where
  "tree_ok (Folder es) = (distinct (map fst es) \<and> list_all (\<lambda>e. CHR ''/'' \<notin> set (fst e) \<and> tree_ok (snd e)) es)"
| "tree_ok n = True"

lemma tree_ok_entry: "tree_ok (Folder es) \<Longrightarrow> map_of es c = Some n \<Longrightarrow> CHR ''/'' \<notin> set c \<and> tree_ok n"
  by (auto simp: list_all_iff dest!: map_of_SomeD)

lemma tree_ok_node_at: "tree_ok fs \<Longrightarrow> node_at p fs = Some n \<Longrightarrow> tree_ok n \<and> list_all (\<lambda>c. CHR ''/'' \<notin> set c) p"
  by (induction p fs rule: node_at.induct) (auto split: option.splits dest: tree_ok_entry simp del: tree_ok.simps)

lemma node_at_append: "node_at (p @ q) fs = Option.bind (node_at p fs) (node_at q)"
  by (induction p fs rule: node_at.induct) (auto split: option.splits; cases q; simp)+

section \<open>The walk\<close>

text \<open>The paths below a node that the walk does not skip: no directory on the way is named \<open>.git\<close>.\<close>

definition visible :: "path \<Rightarrow> bool" where
  "visible p = (''.git'' \<notin> set (butlast p))"

definition files_below :: "path \<Rightarrow> node \<Rightarrow> (path \<times> string res) set" where
  "files_below rel n = {(p, r). node_at p n = Some (RegularFile r) \<and> visible (rel @ p)}"

definition listing :: "sys \<Rightarrow> path \<Rightarrow> (path \<times> string) list \<Rightarrow> digests" where
  "listing sys rel fs = map (\<lambda>(p, c). (rel_text (rel @ p), sys_Sum256 sys c)) fs"

definition all_read :: "(path \<times> string) list \<Rightarrow> (path \<times> string res) set" where
  "all_read fs = (\<lambda>(p, c). (p, Inr c)) ` set fs"

lemma files_regular [simp]: "files_below rel (RegularFile r) = (if visible rel then {([], r)} else {})"
proof -
  have "node_at p (RegularFile r) = Some (RegularFile r') \<longleftrightarrow> p = [] \<and> r' = r" for p r'
    by (cases p) auto
  then show ?thesis by (auto simp: files_below_def)
qed

lemma files_none [simp]: "files_below rel (SpecialFile r) = {}" "files_below rel (LockedFolder e) = {}"
proof -
  have "node_at p (SpecialFile r) \<noteq> Some (RegularFile r')" "node_at p (LockedFolder e) \<noteq> Some (RegularFile r')" for p r'
    by (cases p; simp)+
  then show "files_below rel (SpecialFile r) = {}" "files_below rel (LockedFolder e) = {}"
    by (auto simp: files_below_def)
qed

lemma files_hidden: "rel \<noteq> [] \<Longrightarrow> last rel = ''.git'' \<Longrightarrow> files_below rel (Folder es) = {}"
proof -
  assume rel: "rel \<noteq> []" "last rel = ''.git''"
  have "\<not> visible (rel @ p)" if "p \<noteq> []" for p
    using rel that last_in_set [OF rel(1)] by (simp add: visible_def butlast_append)
  moreover have "p \<noteq> []" if "node_at p (Folder es) = Some (RegularFile r)" for p r
    using that by (cases p) auto
  ultimately show ?thesis by (auto simp: files_below_def)
qed

lemma files_entries:
  assumes "distinct (c # map fst es)"
  shows "files_below rel (Folder ((c, n) # es)) =
    (\<lambda>(p, r). (c # p, r)) ` files_below (rel @ [c]) n \<union> files_below rel (Folder es)"
proof -
  have "node_at p (Folder ((c, n) # es)) = Some (RegularFile r) \<longleftrightarrow>
      (\<exists>q. p = c # q \<and> node_at q n = Some (RegularFile r)) \<or> node_at p (Folder es) = Some (RegularFile r)" for p r
  proof (cases p)
    case (Cons d q)
    have "map_of es c = None" using assms by (simp add: map_of_eq_None_iff)
    then show ?thesis using Cons by auto
  qed simp
  then show ?thesis by (auto simp: files_below_def)
qed

lemma files_empty [simp]: "files_below rel (Folder []) = {}"
proof -
  have "node_at p (Folder []) \<noteq> Some (RegularFile r)" for p r by (cases p) auto
  then show ?thesis by (auto simp: files_below_def)
qed

lemma files_heads: "(p, r) \<in> files_below rel (Folder es) \<Longrightarrow> p \<noteq> [] \<and> hd p \<in> set (map fst es)"
  by (cases p) (auto simp: files_below_def split: option.splits dest: map_of_SomeD intro: rev_image_eqI)

text \<open>A walk that succeeds has listed exactly the visible regular files, each once, and has read them all.\<close>

lemma walk_lists:
  shows "walk_state sys rel n = Inr ds \<Longrightarrow> tree_ok n \<Longrightarrow> visible rel \<Longrightarrow>
      \<exists>fs. ds = listing sys rel fs \<and> distinct (map fst fs) \<and> all_read fs = files_below rel n"
    and "walk_state_list sys rel es = Inr ds \<Longrightarrow> tree_ok (Folder es) \<Longrightarrow> ''.git'' \<notin> set rel \<Longrightarrow>
      \<exists>fs. ds = listing sys rel fs \<and> distinct (map fst fs) \<and> all_read fs = files_below rel (Folder es)"
proof (induction sys rel n and sys rel es arbitrary: ds and ds rule: walk_state_walk_state_list.induct)
  case (1 sys rel r)
  then obtain c where c: "r = Inr c" "ds = [(rel_text rel, sys_Sum256 sys c)]" by (auto split: sum.splits)
  then show ?case
    using 1 by (intro exI [of _ "[([], c)]"]) (auto simp: listing_def all_read_def)
next
  case (2 sys rel r)
  then show ?case by (intro exI [of _ "[]"]) (auto simp: listing_def all_read_def)
next
  case (3 sys rel e)
  then show ?case by (intro exI [of _ "[]"]) (auto simp: listing_def all_read_def split: if_splits)
next
  case (4 sys rel es)
  show ?case
  proof (cases "rel \<noteq> [] \<and> last rel = ''.git''")
    case True
    then show ?thesis
      using 4 by (intro exI [of _ "[]"]) (auto simp: listing_def all_read_def files_hidden)
  next
    case False
    then have "''.git'' \<notin> set rel"
      using 4(4) by (cases rel rule: rev_cases) (auto simp: visible_def)
    with False 4 show ?thesis by auto
  qed
next
  case (5 sys rel)
  then show ?case by (intro exI [of _ "[]"]) (auto simp: listing_def all_read_def)
next
  case (6 sys rel c n es)
  obtain ds1 ds2 where ds: "walk_state sys (rel @ [c]) n = Inr ds1" "walk_state_list sys rel es = Inr ds2" "ds = ds1 @ ds2"
    using "6.prems"(1) by (auto simp: res_bind_Inr)
  have ok: "tree_ok n" "tree_ok (Folder es)" "visible (rel @ [c])" "distinct (c # map fst es)"
    using "6.prems"(2,3) by (simp_all add: visible_def butlast_append)
  obtain fs1 where fs1: "ds1 = listing sys (rel @ [c]) fs1" "distinct (map fst fs1)" "all_read fs1 = files_below (rel @ [c]) n"
    using "6.IH"(1) [OF ds(1) ok(1,3)] by blast
  obtain fs2 where fs2: "ds2 = listing sys rel fs2" "distinct (map fst fs2)" "all_read fs2 = files_below rel (Folder es)"
    using "6.IH"(2) [OF ds(2) ok(2) "6.prems"(3)] by blast
  let ?fs = "map (\<lambda>(p, x). (c # p, x)) fs1 @ fs2"
  have apart: "p \<noteq> c # q" if "(p, x) \<in> set fs2" for p q x
  proof -
    have "(p, Inr x) \<in> files_below rel (Folder es)"
      using that unfolding fs2(3) [symmetric] by (auto simp: all_read_def intro: rev_image_eqI)
    then show ?thesis using ok(4) by (auto dest: files_heads)
  qed
  have "ds = listing sys rel ?fs"
    by (simp add: ds(3) fs1(1) fs2(1) listing_def case_prod_beta)
  moreover have "distinct (map fst ?fs)"
  proof -
    have "map fst (map (\<lambda>(p, x). (c # p, x)) fs1) = map ((#) c) (map fst fs1)"
      by (simp add: case_prod_beta)
    then show ?thesis
      using fs1(2) fs2(2) apart by (fastforce simp: distinct_map inj_on_def)
  qed
  moreover have "all_read ?fs = files_below rel (Folder ((c, n) # es))"
    unfolding files_entries [OF ok(4)] fs1(3) [symmetric] fs2(3) [symmetric]
    by (force simp: all_read_def)
  ultimately show ?case by blast
qed

section \<open>The comparison\<close>

lemma rel_text_inject:
  assumes "rel_text p = rel_text q" "p \<noteq> []" "q \<noteq> []"
    and "list_all (\<lambda>c. CHR ''/'' \<notin> set c) p" "list_all (\<lambda>c. CHR ''/'' \<notin> set c) q"
  shows "p = q"
proof -
  have "split_on (CHR ''/'') (rel_text p) = p" "split_on (CHR ''/'') (rel_text q) = q"
    using assms(2-5) by (simp_all add: rel_text_def split_on_join)
  then show ?thesis using assms(1) by metis
qed

text \<open>The entries of a listing of the repository, which is a directory, are the digests of its visible files.\<close>

lemma listing_digests:
  assumes walk: "walk_state sys [] n = Inr ds" and ok: "tree_ok n" and folder: "\<And>r. n \<noteq> RegularFile r"
  shows "distinct (map fst ds)"
    and "\<And>p d. visible p \<Longrightarrow> list_all (\<lambda>c. CHR ''/'' \<notin> set c) p \<Longrightarrow> p \<noteq> [] \<Longrightarrow>
      (rel_text p, d) \<in> set ds \<longleftrightarrow> file_digest sys n p = Some (Inr d)"
    and "\<And>p e. visible p \<Longrightarrow> file_digest sys n p \<noteq> Some (Inl e)"
proof -
  obtain fs where fs: "ds = listing sys [] fs" "distinct (map fst fs)" "all_read fs = files_below [] n"
    using walk_lists(1) [OF walk ok] by (auto simp: visible_def)
  have listed: "(p, c) \<in> set fs \<longleftrightarrow> visible p \<and> node_at p n = Some (RegularFile (Inr c))" for p c
  proof -
    have "(p, c) \<in> set fs \<longleftrightarrow> (p, Inr c) \<in> all_read fs" by (force simp: all_read_def)
    then show ?thesis by (auto simp: fs(3) files_below_def)
  qed
  have proper: "list_all (\<lambda>c. CHR ''/'' \<notin> set c) p \<and> p \<noteq> []" if "node_at p n = Some (RegularFile r)" for p r
    using tree_ok_node_at [OF ok that] that folder by (cases "p = []") auto
  have entry: "(k, d) \<in> set ds \<longleftrightarrow> (\<exists>p c. k = rel_text p \<and> d = sys_Sum256 sys c \<and> visible p \<and> node_at p n = Some (RegularFile (Inr c)))" for k d
    using listed by (force simp: fs(1) listing_def)
  have "distinct (map fst ds)"
  proof -
    have "map fst ds = map rel_text (map fst fs)" by (simp add: fs(1) listing_def case_prod_beta)
    moreover have "inj_on rel_text (set (map fst fs))"
    proof (rule inj_onI)
      fix p q assume "p \<in> set (map fst fs)" "q \<in> set (map fst fs)" and same: "rel_text p = rel_text q"
      then obtain c d where "(p, c) \<in> set fs" "(q, d) \<in> set fs" by auto
      then have "node_at p n = Some (RegularFile (Inr c))" "node_at q n = Some (RegularFile (Inr d))"
        by (simp_all add: listed)
      then show "p = q" using proper same by (intro rel_text_inject) simp_all
    qed
    ultimately show ?thesis using fs(2) by (metis distinct_map)
  qed
  then show "distinct (map fst ds)" .
  show "(rel_text p, d) \<in> set ds \<longleftrightarrow> file_digest sys n p = Some (Inr d)"
    if "visible p" "list_all (\<lambda>c. CHR ''/'' \<notin> set c) p" "p \<noteq> []" for p d
  proof
    assume "(rel_text p, d) \<in> set ds"
    then obtain q c where q: "rel_text p = rel_text q" "d = sys_Sum256 sys c" "node_at q n = Some (RegularFile (Inr c))"
      unfolding entry by blast
    then have "p = q" using that proper [OF q(3)] by (intro rel_text_inject) auto
    then show "file_digest sys n p = Some (Inr d)" using q by (simp add: file_digest_def)
  next
    assume "file_digest sys n p = Some (Inr d)"
    then obtain c where "node_at p n = Some (RegularFile (Inr c))" "d = sys_Sum256 sys c"
      by (auto simp: file_digest_Some)
    then show "(rel_text p, d) \<in> set ds" unfolding entry using that(1) by blast
  qed
  show "file_digest sys n p \<noteq> Some (Inl e)" if "visible p" for p e
  proof
    assume "file_digest sys n p = Some (Inl e)"
    then obtain e' where "node_at p n = Some (RegularFile (Inl e'))"
      by (auto simp: file_digest_Some)
    then have "(p, Inl e') \<in> all_read fs" using that by (simp add: fs(3) files_below_def)
    then show False by (auto simp: all_read_def)
  qed
qed

text \<open>Equal listings, equal files.\<close>

lemma equal_listings:
  assumes before: "walk_state sys [] n = Inr ds" "tree_ok n" "\<And>r. n \<noteq> RegularFile r"
    and after: "walk_state sys [] n' = Inr ds'" "tree_ok n'" "\<And>r. n' \<noteq> RegularFile r"
    and equal: "maps_Equal ds ds'" and p: "visible p"
  shows "file_digest sys n p = file_digest sys n' p"
proof -
  note a = listing_digests [OF before] and b = listing_digests [OF after]
  have "set ds \<subseteq> set ds'"
    using equal by (auto simp: maps_Equal_def list_all_iff dest: map_of_SomeD)
  moreover have "card (set ds) = card (set ds')"
  proof -
    have "distinct ds" "distinct ds'" using a(1) b(1) by (simp_all add: distinct_map)
    then show ?thesis using equal by (simp add: distinct_card maps_Equal_def)
  qed
  ultimately have same: "set ds = set ds'"
    by (intro card_subset_eq) simp_all
  show ?thesis
  proof (cases "p \<noteq> [] \<and> list_all (\<lambda>c. CHR ''/'' \<notin> set c) p")
    case True
    then have "file_digest sys n p = Some (Inr d) \<longleftrightarrow> file_digest sys n' p = Some (Inr d)" for d
      using a(2) b(2) p same by simp
    moreover have "file_digest sys n p \<noteq> Some (Inl e)" "file_digest sys n' p \<noteq> Some (Inl e)" for e
      using a(3) b(3) p by simp_all
    ultimately show ?thesis by (metis option.exhaust sum.exhaust)
  next
    case False
    have "file_digest sys m p = None" if "tree_ok m" "\<And>r. m \<noteq> RegularFile r" for m
      using False tree_ok_node_at [OF that(1), of p] that(2)
      by (cases "p = []") (auto simp: file_digest_def split: option.split node.split)
    then show ?thesis using before after by simp
  qed
qed

lemma close_root_fs: "g_fs (close_root msg root st) = g_fs st"
  by (auto simp: close_root_def file_Close_def Let_def split: prod.splits sum.splits option.splits dest!: next_fault_keeps)

lemma compatibilityState_Inr:
  assumes "compatibilityState sys root st = (Inr ds, st')"
  shows "g_fs st' = g_fs st \<and>
    (\<exists>n. node_at root (g_fs st) = Some n \<and> walk_state sys [] n = Inr ds \<and> (\<forall>r. n \<noteq> RegularFile r))"
proof -
  obtain n where "node_at root (g_fs st) = Some n" "os_OpenRoot root st = (Inr n, st)" "\<forall>r. n \<noteq> RegularFile r"
    using assms
    by (auto simp: compatibilityState_def g_bind_def g_wrap_def os_OpenRoot_def split: option.splits node.splits)
  then show ?thesis
    using assms
    by (auto simp: compatibilityState_def g_bind_def g_wrap_def g_defer_def g_lift_def close_root_fs)
qed

text \<open>
  C35. Verification of a compatibility boundary leaves the repository's files as they were. If it succeeds, then after all of its
  commands, whatever they may have done, and after the removal of its own files, every path below the root that does
  not pass through a directory named \<open>.git\<close> has a regular file exactly if it had one before, and its content then
  has the same SHA-256 digest (\<open>sys_Sum256\<close>) as before. Both file systems are trees in which a
  directory has one entry for a name and no name contains a slash. Directories, symbolic links and other special files are not compared.
\<close>

theorem boundary_leaves_repository:
  assumes "verifyCompatibilityBoundary sys root boundary st = (Inr u, st')"
    and "tree_ok (g_fs st)" and "tree_ok (g_fs st')" and "''.git'' \<notin> set (butlast p)"
  shows "file_digest sys (g_fs st) (root @ p) = file_digest sys (g_fs st') (root @ p)"
proof -
  obtain before st1 where first: "compatibilityState sys root st = (Inr before, st1)"
    using assms(1) by (auto simp: verifyCompatibilityBoundary_def g_bind_def split: prod.splits sum.splits)
  let ?m = "g_bind (alternateModfile sys root (cb_Version boundary)) (\<lambda>modfile.
        g_defer (cleanup_modfile modfile) (check_boundary sys root boundary modfile))"
  have compared: "compare_state sys root before ?m st1 = (Inr u, st')"
    using assms(1) first by (simp add: verifyCompatibilityBoundary_def g_bind_def)
  obtain r st2 where body: "?m st1 = (r, st2)" by (cases "?m st1")
  obtain r3 st3 where second: "compatibilityState sys root st2 = (r3, st3)" by (cases "compatibilityState sys root st2")
  obtain after where after: "r3 = Inr after" "maps_Equal before after" "st' = st3"
    using compared unfolding compare_state_def body Let_def
    by (auto simp: second errors_join_def List.map_filter_def split: sum.splits if_splits option.splits)
  obtain n where n: "node_at root (g_fs st) = Some n" "walk_state sys [] n = Inr before" "\<And>r. n \<noteq> RegularFile r"
    using compatibilityState_Inr [OF first] by blast
  obtain n' where n': "node_at root (g_fs st') = Some n'" "walk_state sys [] n' = Inr after" "\<And>r. n' \<noteq> RegularFile r"
    using compatibilityState_Inr [OF second [unfolded after(1)]] after(3) by auto
  have "file_digest sys n p = file_digest sys n' p"
    using n n' tree_ok_node_at [OF assms(2) n(1)] tree_ok_node_at [OF assms(3) n'(1)] after(2) assms(4)
    by (intro equal_listings [where ds = before and ds' = after]) (auto simp: visible_def)
  then show ?thesis
    using n(1) n'(1) by (simp add: file_digest_def node_at_append)
qed

definition example_boundary :: compatibilityBoundary where
  "example_boundary = \<lparr>cb_Name = ''minimum'', cb_Version = ''v1''\<rparr>"

theorem boundary_leaves_repository_witness:
  "\<exists>st'. verifyCompatibilityBoundary example_sys [''repo''] example_boundary (example_state example_gomod []) = (Inr (), st') \<and>
     file_digest example_sys (g_fs st') [''repo'', ''go.mod''] = Some (Inr example_gomod)"
proof -
  let ?run = "verifyCompatibilityBoundary example_sys [''repo''] example_boundary (example_state example_gomod [])"
  have "\<not> isl (fst ?run)" "tree_ok (g_fs (snd ?run))" "tree_ok (g_fs (example_state example_gomod []))"
    by code_simp+
  then obtain u st' where run: "?run = (Inr u, st')" "tree_ok (g_fs (example_state example_gomod []))" "tree_ok (g_fs st')"
    by (metis (no_types, lifting) isl_def old.sum.exhaust prod.collapse)
  have "file_digest example_sys (g_fs (example_state example_gomod [])) [''repo'', ''go.mod''] = Some (Inr example_gomod)"
    by code_simp
  then show ?thesis
    using boundary_leaves_repository [OF run, of "[''go.mod'']"] run(1) by simp
qed

end
