(* ===== verification/Manifest.thy ===== *)
theory Manifest
  imports Go_Text "HOL-Library.Product_Lexorder"
begin

text \<open>
  The starter's manifest (\<open>manifest.go\<close>) and the validation of manifests by the Spice SDK
  (\<open>annotation/sdk/starter\<close>, vendored), which the package panics on. The validation of contributed annotations
  and application features, which this starter does not have, is a parameter.
\<close>

section \<open>Regular expressions\<close>

text \<open>
  The patterns of the SDK, matched against a whole string by derivatives. \<open>Class p\<close> is one byte that satisfies \<open>p\<close>;
  all classes are ASCII, so bytes and runes agree.
\<close>

datatype rx = Never | Empty | Class "char \<Rightarrow> bool" | Seq rx rx | Alt rx rx | Star rx

fun rx_nullable :: "rx \<Rightarrow> bool" where
  "rx_nullable Never = False"
| "rx_nullable Empty = True"
| "rx_nullable (Class p) = False"
| "rx_nullable (Seq r s) = (rx_nullable r \<and> rx_nullable s)"
| "rx_nullable (Alt r s) = (rx_nullable r \<or> rx_nullable s)"
| "rx_nullable (Star r) = True"

fun rx_deriv :: "char \<Rightarrow> rx \<Rightarrow> rx" where
  "rx_deriv c Never = Never"
| "rx_deriv c Empty = Never"
| "rx_deriv c (Class p) = (if p c then Empty else Never)"
| "rx_deriv c (Seq r s) =
     (if rx_nullable r then Alt (Seq (rx_deriv c r) s) (rx_deriv c s) else Seq (rx_deriv c r) s)"
| "rx_deriv c (Alt r s) = Alt (rx_deriv c r) (rx_deriv c s)"
| "rx_deriv c (Star r) = Seq (rx_deriv c r) (Star r)"

definition rx_matches :: "rx \<Rightarrow> string \<Rightarrow> bool" where
  "rx_matches r s = rx_nullable (fold rx_deriv s r)"

definition rx_char :: "char \<Rightarrow> rx" where
  "rx_char c = Class (\<lambda>d. d = c)"

definition rx_plus :: "rx \<Rightarrow> rx" where
  "rx_plus r = Seq r (Star r)"

definition rx_opt :: "rx \<Rightarrow> rx" where
  "rx_opt r = Alt Empty r"

definition rx_text :: "string \<Rightarrow> rx" where
  "rx_text s = foldr (\<lambda>c r. Seq (rx_char c) r) s Empty"

definition alnum :: "char \<Rightarrow> bool" where
  "alnum c = (is_upper c \<or> is_lower c \<or> is_digit c)"

definition nonzero_number :: rx where
  "nonzero_number = Seq (Class (\<lambda>c. CHR ''1'' \<le> c \<and> c \<le> CHR ''9'')) (Star (Class is_digit))"

definition version_number :: rx where
  "version_number = Alt (rx_char (CHR ''0'')) nonzero_number"

definition version_suffix :: "char \<Rightarrow> rx" where
  "version_suffix mark =
     rx_opt (Seq (rx_char mark)
       (Seq (rx_plus (Class alnum))
          (Star (Seq (Class (\<lambda>c. c = CHR ''.'' \<or> c = CHR ''-'')) (rx_plus (Class alnum))))))"

definition semanticVersionPattern :: rx where
  "semanticVersionPattern =
     Seq version_number (Seq (rx_char (CHR ''.'')) (Seq version_number (Seq (rx_char (CHR ''.''))
       (Seq version_number (Seq (version_suffix (CHR ''-'')) (version_suffix (CHR ''+'')))))))"

definition apiVersionPattern :: rx where
  "apiVersionPattern =
     Seq (rx_char (CHR ''v'')) (Seq nonzero_number (rx_opt (Seq (Alt (rx_text ''alpha'') (rx_text ''beta'')) nonzero_number)))"

definition modulePathPattern :: rx where
  "modulePathPattern = Seq (Class alnum) (Star (Class (\<lambda>c. alnum c \<or> c \<in> {CHR ''.'', CHR ''_'', CHR ''~'', CHR ''/'', CHR ''-''})))"

definition symbolPattern :: rx where
  "symbolPattern = Seq (Class is_upper) (Star (Class (\<lambda>c. alnum c \<or> c = CHR ''_'')))"

definition identityPattern :: rx where
  "identityPattern =
     (let small = Class (\<lambda>c. is_lower c \<or> is_digit c) in
      Seq (Class is_lower) (Seq (Star small) (Star (Seq (Class (\<lambda>c. c = CHR ''.'' \<or> c = CHR ''-'')) (rx_plus small)))))"

definition licensePattern :: rx where
  "licensePattern = Seq (Class alnum) (Star (Class (\<lambda>c. alnum c \<or> c \<in> {CHR ''.'', CHR ''+'', CHR ''-''})))"

section \<open>Specifications\<close>

definition Schema :: string where "Schema = ''spice.starter/v1''"
definition APIVersion :: string where "APIVersion = ''v1alpha1''"
definition ActivationExplicitConstructor :: string where "ActivationExplicitConstructor = ''explicit-constructor''"
definition ActivationExplicitAnnotation :: string where "ActivationExplicitAnnotation = ''explicit-annotation''"

record entryPoint = ep_Package :: string ep_Symbol :: string
record dependency = de_Module :: string de_Version :: string de_License :: string
record activation = av_Mode :: string av_EntryPoints :: "entryPoint list"

text \<open>\<open>'a\<close> and \<open>'b\<close> are the specifications of annotations and of application features.\<close>

record ('a, 'b) starter_spec =
  ss_Schema :: string
  ss_ID :: string
  ss_Version :: string
  ss_Module :: string
  ss_SpiceAPI :: string
  ss_MinimumGo :: string
  ss_License :: string
  ss_Review :: string
  ss_Activation :: activation
  ss_Capabilities :: "string list"
  ss_Dependencies :: "dependency list"
  ss_Annotations :: "'a list"
  ss_ApplicationFeatures :: "'b list"

section \<open>Validation\<close>

definition validModulePath :: "string \<Rightarrow> bool" where
  "validModulePath v =
     (\<not> (v = [] \<or> trim_space v \<noteq> v \<or> contains v [CHR 0x5C] \<or> contains v ''//'' \<or> has_suffix v ''/'' \<or>
         \<not> rx_matches modulePathPattern v) \<and>
      list_all (\<lambda>segment. segment \<noteq> ''.'' \<and> segment \<noteq> ''..'' \<and> segment \<noteq> []) (split_on (CHR ''/'') v))"

definition validateSpecIdentity :: "('a, 'b) starter_spec \<Rightarrow> go_error option" where
  "validateSpecIdentity spec =
     (let bad = (\<lambda>msg. Some (errors_new msg)) in
      if ss_Schema spec \<noteq> Schema then bad ''starter manifest schema must be %q, got %q''
      else if \<not> validModulePath (ss_ID spec) then bad ''starter manifest ID %q is not a valid import-path identity''
      else if \<not> validModulePath (ss_Module spec) then bad ''starter %q module %q is not a valid module path''
      else if ss_ID spec \<noteq> ss_Module spec \<and> \<not> has_prefix (ss_ID spec) (ss_Module spec @ ''/'') then
        bad ''starter %q must belong to module %q''
      else if \<not> rx_matches semanticVersionPattern (ss_Version spec) then
        bad ''starter %q version %q is not semantic version metadata''
      else if \<not> rx_matches apiVersionPattern (ss_SpiceAPI spec) then bad ''starter %q Spice API %q is invalid''
      else if \<not> rx_matches licensePattern (ss_License spec) then bad ''starter %q license %q is not an SPDX-style identity''
      else if trim_space (ss_Review spec) = [] \<or> trim_space (ss_Review spec) \<noteq> ss_Review spec then
        bad ''starter %q requires a trimmed dependency review reference''
      else None)"

text \<open>\<open>strconv.Atoi\<close>: an optional sign and digits, within 64 bits.\<close>

definition atoi :: "string \<Rightarrow> int option" where
  "atoi s =
     (let (negative, ds) = (case s of
              [] \<Rightarrow> (False, []) | c # r \<Rightarrow> if c = CHR ''-'' then (True, r) else if c = CHR ''+'' then (False, r) else (False, s));
          n = (if negative then - int (decimal 0 ds) else int (decimal 0 ds))
      in if ds = [] \<or> \<not> list_all is_digit ds \<or> n < - (2 ^ 63) \<or> 2 ^ 63 \<le> n then None else Some n)"

fun version_numbers :: "string list \<Rightarrow> int list option" where
  "version_numbers [] = Some []"
| "version_numbers (p # ps) =
     (case atoi p of
        None \<Rightarrow> None
      | Some n \<Rightarrow> if n < 0 then None else map_option (Cons n) (version_numbers ps))"

definition parseGoVersion :: "string \<Rightarrow> int list res" where
  "parseGoVersion value =
     (let parts = split_on (CHR ''.'') (trim_prefix value ''go'') in
      if length parts < 2 \<or> length parts > 3 then
        Inl (Errorf ''go version %q must contain major and minor numbers'' [AStr value] [])
      else
        (case version_numbers parts of
           None \<Rightarrow> Inl (Errorf ''go version %q contains invalid number %q'' [AStr value] [])
         | Some ns \<Rightarrow>
             if hd ns < 1 then Inl (Errorf ''go version %q has an invalid major version'' [AStr value] [])
             else Inr (take 3 (ns @ [0]))))"

fun unique_identities :: "string list \<Rightarrow> string list \<Rightarrow> go_error option" where
  "unique_identities seen [] = None"
| "unique_identities seen (v # vs) =
     (if \<not> rx_matches identityPattern v then Some (Errorf ''%s %q is invalid'' [AStr v] [])
      else if v \<in> set seen then Some (Errorf ''%s %q is duplicated'' [AStr v] [])
      else unique_identities (v # seen) vs)"

definition validateCapabilities :: "string list \<Rightarrow> go_error option" where
  "validateCapabilities capabilities =
     (if capabilities = [] then Some (errors_new ''at least one capability is required'')
      else unique_identities [] capabilities)"

fun check_entrypoints :: "string \<Rightarrow> entryPoint list \<Rightarrow> entryPoint list \<Rightarrow> go_error option" where
  "check_entrypoints module seen [] = None"
| "check_entrypoints module seen (e # es) =
     (if \<not> validModulePath (ep_Package e) then
        Some (Errorf ''activation entrypoint package %q is invalid'' [AStr (ep_Package e)] [])
      else if ep_Package e \<noteq> module \<and> \<not> has_prefix (ep_Package e) (module @ ''/'') then
        Some (Errorf ''activation entrypoint package %q must belong to starter module %q'' [AStr (ep_Package e), AStr module] [])
      else if \<not> rx_matches symbolPattern (ep_Symbol e) then
        Some (Errorf ''activation entrypoint symbol %q must be exported'' [AStr (ep_Symbol e)] [])
      else if e \<in> set seen then
        Some (Errorf ''activation entrypoint %s.%s is duplicated'' [AStr (ep_Package e), AStr (ep_Symbol e)] [])
      else check_entrypoints module (e # seen) es)"

definition validateActivation :: "('a, 'b) starter_spec \<Rightarrow> go_error option" where
  "validateActivation spec =
     (let act = ss_Activation spec in
      if av_EntryPoints act = [] then Some (errors_new ''activation requires at least one entrypoint'')
      else
        (case check_entrypoints (ss_Module spec) [] (av_EntryPoints act) of
           Some e \<Rightarrow> Some e
         | None \<Rightarrow>
             if av_Mode act = ActivationExplicitConstructor then
               (if ss_Annotations spec \<noteq> [] \<or> ss_ApplicationFeatures spec \<noteq> [] then
                  Some (errors_new ''explicit-constructor activation cannot declare annotations or application features'')
                else None)
             else if av_Mode act = ActivationExplicitAnnotation then
               (if ss_Annotations spec = [] \<or> ss_ApplicationFeatures spec = [] then
                  Some (errors_new ''explicit-annotation activation requires annotations and application features'')
                else None)
             else Some (Errorf ''activation mode %q is unsupported'' [AStr (av_Mode act)] [])))"

fun check_dependencies :: "string list \<Rightarrow> dependency list \<Rightarrow> go_error option" where
  "check_dependencies seen [] = None"
| "check_dependencies seen (d # ds) =
     (if \<not> validModulePath (de_Module d) then Some (Errorf ''dependency module %q is invalid'' [AStr (de_Module d)] [])
      else if \<not> rx_matches semanticVersionPattern (trim_prefix (de_Version d) ''v'') then
        Some (Errorf ''dependency %q version %q is not semantic version metadata'' [AStr (de_Module d), AStr (de_Version d)] [])
      else if \<not> rx_matches licensePattern (de_License d) then
        Some (Errorf ''dependency %q license %q is not an SPDX-style identity'' [AStr (de_Module d), AStr (de_License d)] [])
      else if de_Module d \<in> set seen then Some (Errorf ''dependency module %q is duplicated'' [AStr (de_Module d)] [])
      else check_dependencies (de_Module d # seen) ds)"

definition validateSpec :: "(('a, 'b) starter_spec \<Rightarrow> go_error option) \<Rightarrow> ('a, 'b) starter_spec \<Rightarrow> go_error option" where
  "validateSpec contributed spec =
     (case validateSpecIdentity spec of Some e \<Rightarrow> Some e | None \<Rightarrow>
     (case parseGoVersion (ss_MinimumGo spec) of Inl e \<Rightarrow> Some (Errorf ''starter %q minimum Go version: %w'' [AStr (ss_ID spec)] [e]) | Inr v \<Rightarrow>
     (case validateCapabilities (ss_Capabilities spec) of Some e \<Rightarrow> Some (Errorf ''starter %q: %w'' [AStr (ss_ID spec)] [e]) | None \<Rightarrow>
     (case validateActivation spec of Some e \<Rightarrow> Some (Errorf ''starter %q: %w'' [AStr (ss_ID spec)] [e]) | None \<Rightarrow>
     (case check_dependencies [] (ss_Dependencies spec) of Some e \<Rightarrow> Some (Errorf ''starter %q: %w'' [AStr (ss_ID spec)] [e]) | None \<Rightarrow>
     (if ss_Annotations spec = [] \<and> ss_ApplicationFeatures spec = [] then None else contributed spec))))))"

text \<open>The three sorts of \<open>normalizeSpec\<close> for a specification without contributions.\<close>

definition normalizeSpec :: "('a, 'b) starter_spec \<Rightarrow> ('a, 'b) starter_spec" where
  "normalizeSpec spec = spec
     \<lparr>ss_Capabilities := sort (ss_Capabilities spec),
      ss_Activation := (ss_Activation spec)
        \<lparr>av_EntryPoints := sort_key (\<lambda>e. (ep_Package e, ep_Symbol e)) (av_EntryPoints (ss_Activation spec))\<rparr>,
      ss_Dependencies := sort_key (\<lambda>d. de_Module d) (ss_Dependencies spec)\<rparr>"

definition New :: "(('a, 'b) starter_spec \<Rightarrow> go_error option) \<Rightarrow> ('a, 'b) starter_spec \<Rightarrow> ('a, 'b) starter_spec res" where
  "New contributed spec = unless (validateSpec contributed spec) (Inr (normalizeSpec spec))"

section \<open>The manifest of the starter\<close>

definition manifest_spec :: "('a, 'b) starter_spec" where
  "manifest_spec =
     \<lparr>ss_Schema = Schema, ss_ID = ''github.com/spice-framework/starter-websocket'', ss_Version = ''0.1.0-dev'',
      ss_Module = ''github.com/spice-framework/starter-websocket'', ss_SpiceAPI = APIVersion, ss_MinimumGo = ''1.26'',
      ss_License = ''Apache-2.0'', ss_Review = ''docs/dependency-review.md'',
      ss_Activation =
        \<lparr>av_Mode = ActivationExplicitConstructor,
         av_EntryPoints =
           [\<lparr>ep_Package = ''github.com/spice-framework/starter-websocket'', ep_Symbol = ''NewHandler''\<rparr>,
            \<lparr>ep_Package = ''github.com/spice-framework/starter-websocket'', ep_Symbol = ''Dial''\<rparr>]\<rparr>,
      ss_Capabilities = [''web.websocket.client'', ''web.websocket.server''],
      ss_Dependencies = [\<lparr>de_Module = ''github.com/coder/websocket'', de_Version = ''v1.8.15'', de_License = ''ISC''\<rparr>],
      ss_Annotations = [], ss_ApplicationFeatures = []\<rparr>"

text \<open>\<open>Must\<close> panics on an error of \<open>New\<close>; the panic is the error.\<close>

definition Manifest :: "(unit, unit) starter_spec res" where
  "Manifest = New (\<lambda>spec. None) manifest_spec"

section \<open>Properties\<close>

text \<open>
  The package's own manifest is valid: \<open>Manifest\<close> does not panic, and what it returns is the specification
  with the capabilities and the entry points in order.
\<close>

theorem manifest_never_panics:
  "Manifest = Inr (manifest_spec
     \<lparr>ss_Activation := (ss_Activation manifest_spec)\<lparr>av_EntryPoints :=
        [\<lparr>ep_Package = ''github.com/spice-framework/starter-websocket'', ep_Symbol = ''Dial''\<rparr>,
         \<lparr>ep_Package = ''github.com/spice-framework/starter-websocket'', ep_Symbol = ''NewHandler''\<rparr>]\<rparr>\<rparr>)"
  unfolding Manifest_def by code_simp

lemma unique_identities_None:
  "unique_identities seen vs = None \<longleftrightarrow>
     (\<forall>v \<in> set vs. rx_matches identityPattern v) \<and> distinct vs \<and> set vs \<inter> set seen = {}"
  by (induction vs arbitrary: seen) auto

definition entrypoint_ok :: "string \<Rightarrow> entryPoint \<Rightarrow> bool" where
  "entrypoint_ok module e =
     (validModulePath (ep_Package e) \<and> (ep_Package e = module \<or> has_prefix (ep_Package e) (module @ ''/'')) \<and>
      rx_matches symbolPattern (ep_Symbol e))"

lemma check_entrypoints_None:
  "check_entrypoints module seen es = None \<longleftrightarrow>
     (\<forall>e \<in> set es. entrypoint_ok module e) \<and> distinct es \<and> set es \<inter> set seen = {}"
  by (induction es arbitrary: seen) (auto simp: entrypoint_ok_def)

definition dependency_ok :: "dependency \<Rightarrow> bool" where
  "dependency_ok d =
     (validModulePath (de_Module d) \<and> rx_matches semanticVersionPattern (trim_prefix (de_Version d) ''v'') \<and>
      rx_matches licensePattern (de_License d))"

lemma check_dependencies_None:
  "check_dependencies seen ds = None \<longleftrightarrow>
     (\<forall>d \<in> set ds. dependency_ok d) \<and> distinct (map de_Module ds) \<and> de_Module ` set ds \<inter> set seen = {}"
  by (induction ds arbitrary: seen) (auto simp: dependency_ok_def)

lemma distinct_map_sort: "distinct (map g (sort_key f xs)) = distinct (map g xs)"
  by (metis distinct_map distinct_sort set_sort)

lemma sort_key_Nil: "sort_key f xs = [] \<longleftrightarrow> xs = []"
  by (metis set_empty set_sort)

lemma validateActivation_None:
  assumes "av_Mode (ss_Activation spec) = ActivationExplicitConstructor"
  shows "validateActivation spec = None \<longleftrightarrow>
    av_EntryPoints (ss_Activation spec) \<noteq> [] \<and>
    check_entrypoints (ss_Module spec) [] (av_EntryPoints (ss_Activation spec)) = None \<and>
    ss_Annotations spec = [] \<and> ss_ApplicationFeatures spec = []"
  using assms by (simp add: validateActivation_def Let_def split: option.split)

lemma validateSpec_None:
  assumes "av_Mode (ss_Activation spec) = ActivationExplicitConstructor"
  shows "validateSpec contributed spec = None \<longleftrightarrow>
    validateSpecIdentity spec = None \<and> (\<exists>v. parseGoVersion (ss_MinimumGo spec) = Inr v) \<and>
    validateCapabilities (ss_Capabilities spec) = None \<and> validateActivation spec = None \<and>
    check_dependencies [] (ss_Dependencies spec) = None"
proof -
  have "validateActivation spec = None \<Longrightarrow> ss_Annotations spec = [] \<and> ss_ApplicationFeatures spec = []"
    using validateActivation_None [OF assms] by blast
  then show ?thesis
    by (cases "validateSpecIdentity spec"; cases "parseGoVersion (ss_MinimumGo spec)";
        cases "validateCapabilities (ss_Capabilities spec)"; cases "validateActivation spec";
        cases "check_dependencies [] (ss_Dependencies spec)")
      (simp_all add: validateSpec_def)
qed

lemma validate_normalized:
  assumes "av_Mode (ss_Activation spec) = ActivationExplicitConstructor" "validateSpec contributed spec = None"
  shows "validateSpec contributed (normalizeSpec spec) = None"
proof -
  have mode: "av_Mode (ss_Activation (normalizeSpec spec)) = ActivationExplicitConstructor"
    using assms(1) by (simp add: normalizeSpec_def)
  note valid = assms(2) [unfolded validateSpec_None [OF assms(1)] validateActivation_None [OF assms(1)]]
  have "validateSpecIdentity (normalizeSpec spec) = validateSpecIdentity spec"
    by (simp add: validateSpecIdentity_def normalizeSpec_def)
  moreover have "validateCapabilities (sort (ss_Capabilities spec)) = None"
    using valid by (simp add: validateCapabilities_def unique_identities_None sort_key_Nil split: if_splits)
  moreover have "check_dependencies [] (sort_key de_Module (ss_Dependencies spec)) = None"
    using valid by (simp add: check_dependencies_None distinct_map_sort)
  ultimately show ?thesis
    unfolding validateSpec_None [OF mode] validateActivation_None [OF mode]
    using valid by (simp add: normalizeSpec_def check_entrypoints_None sort_key_Nil)
qed

lemma normalize_idempotent: "normalizeSpec (normalizeSpec spec) = normalizeSpec spec"
  by (simp add: normalizeSpec_def sort_key_id_if_sorted)

text \<open>
  C37. A validated manifest stays valid. For a starter that is activated by explicit constructors, \<open>New\<close> accepts the
  normalized specification that it has returned and returns it unchanged; so the operations of a manifest that
  validate it again (\<open>JSON\<close>, \<open>MarshalJSON\<close>, \<open>Compatible\<close>) never fail for that reason.
\<close>

theorem New_idempotent:
  assumes "av_Mode (ss_Activation spec) = ActivationExplicitConstructor" "New contributed spec = Inr normalized"
  shows "New contributed normalized = Inr normalized"
  using assms validate_normalized [OF assms(1), of contributed]
  by (auto simp: New_def unless_Inr normalize_idempotent)

theorem New_idempotent_witness:
  "\<exists>n. New (\<lambda>spec. None) (manifest_spec :: (unit, unit) starter_spec) = Inr n \<and> New (\<lambda>spec. None) n = Inr n"
proof -
  have "isl (New (\<lambda>spec. None) (manifest_spec :: (unit, unit) starter_spec)) = False" by code_simp
  then obtain n where n: "New (\<lambda>spec. None) (manifest_spec :: (unit, unit) starter_spec) = Inr n"
    by (metis (no_types, lifting) isl_def old.sum.exhaust)
  moreover have "av_Mode (ss_Activation (manifest_spec :: (unit, unit) starter_spec)) = ActivationExplicitConstructor"
    by (simp add: manifest_spec_def)
  ultimately show ?thesis using New_idempotent by blast
qed

end
