(* ===== verification/Project_Settings.thy ===== *)
theory Project_Settings
  imports Manifest Go_Unicode Go_Net
begin

text \<open>
  The declarations of the project (\<open>settings.spice.go\<close> and \<open>build.spice.go\<close>), which the Spice toolchain decodes,
  and their validation by the vendored package \<open>project\<close> (\<open>configuration.go\<close> and
  \<open>configuration_validation.go\<close>). The tables of \<open>unicode\<close> are arguments. Catalogs and local
  configurations, which this project does not have, are not modelled.
\<close>

section \<open>Patterns and paths\<close>

definition goVersionPattern :: rx where
  "goVersionPattern =
     Seq (rx_text ''1.'') (Seq (rx_plus (Class is_digit)) (Seq (rx_char (CHR ''.'')) (rx_plus (Class is_digit))))"

definition versionPattern :: rx where
  "versionPattern = Seq (rx_char (CHR ''v'')) semanticVersionPattern"

definition portableNamePattern :: rx where
  "portableNamePattern =
     (let small = Class (\<lambda>c. is_lower c \<or> is_digit c) in
      Seq (Class is_lower) (Seq (Star small) (Star (Seq (rx_char (CHR ''-'')) (rx_plus small)))))"

definition project_module_path :: "string \<Rightarrow> bool" where
  "project_module_path v =
     (if v = [] \<or> trim_space v \<noteq> v \<or> contains_any v [CHR 0x5C, CHR 0x00, CHR 0x0D, CHR 0x0A, CHR 0x09] then False
      else if has_prefix v ''/'' \<or> has_suffix v ''/'' \<or> contains v ''//'' then False
      else
        list_all (\<lambda>segment. segment \<noteq> [] \<and> segment \<noteq> ''.'' \<and> segment \<noteq> ''..'' \<and>
            list_all (\<lambda>c. alnum c \<or> c \<in> {CHR ''.'', CHR ''-'', CHR ''_'', CHR ''~''}) segment)
          (split_on (CHR ''/'') v))"

definition validVersionedModule :: "string \<Rightarrow> string \<Rightarrow> bool" where
  "validVersionedModule module version = (project_module_path module \<and> rx_matches versionPattern version)"

text \<open>\<open>path.Clean\<close>: the elements that are kept, last one first, and the path they make.\<close>

fun clean_elements :: "bool \<Rightarrow> string list \<Rightarrow> string list \<Rightarrow> string list" where
  "clean_elements rooted kept [] = kept"
| "clean_elements rooted kept (e # es) =
     (if e = [] \<or> e = ''.'' then clean_elements rooted kept es
      else if e = ''..'' then
        (case kept of
           [] \<Rightarrow> clean_elements rooted (if rooted then [] else [e]) es
         | k # ks \<Rightarrow> if k = ''..'' then clean_elements rooted (e # kept) es else clean_elements rooted ks es)
      else clean_elements rooted (e # kept) es)"

definition path_clean :: "string \<Rightarrow> string" where
  "path_clean p =
     (let rooted = has_prefix p ''/'';
          kept = rev (clean_elements rooted [] (split_on (CHR ''/'') p)) in
      if rooted then ''/'' @ join_with ''/'' kept
      else if kept = [] then ''.'' else join_with ''/'' kept)"

definition is_control :: "nat \<Rightarrow> bool" where
  "is_control c = (c < 0x20 \<or> 0x7F \<le> c \<and> c < 0xA0)"

definition reserved_names :: "string list" where
  "reserved_names =
     [''con'', ''prn'', ''aux'', ''nul'',
      ''com1'', ''com2'', ''com3'', ''com4'', ''com5'', ''com6'', ''com7'', ''com8'', ''com9'',
      ''lpt1'', ''lpt2'', ''lpt3'', ''lpt4'', ''lpt5'', ''lpt6'', ''lpt7'', ''lpt8'', ''lpt9'']"

definition validPortablePathSegment :: "unicode_tables \<Rightarrow> string \<Rightarrow> bool" where
  "validPortablePathSegment tab segment =
     (if segment = [] \<or> has_suffix segment ''.'' \<or> has_suffix segment '' '' then False
      else if str_lower tab (takeWhile (\<lambda>c. c \<noteq> CHR ''.'') segment) \<in> set reserved_names then False
      else \<not> list_ex is_control (runes segment))"

definition validRelativePath :: "unicode_tables \<Rightarrow> string \<Rightarrow> bool" where
  "validRelativePath tab v =
     (if v = [] \<or> trim_space v \<noteq> v then False
      else if contains_any v [CHR 0x5C, CHR '':'', CHR 0x00, CHR 0x0D, CHR 0x0A, CHR 0x09] \<or> has_prefix v ''/'' \<or>
        path_clean v \<noteq> v \<or> v = ''.'' \<or> has_prefix v ''../'' then False
      else list_all (validPortablePathSegment tab) (split_on (CHR ''/'') v))"

text \<open>The classes of \<open>unicode\<close> that identifiers use.\<close>

record rune_classes =
  rc_letter :: "nat \<Rightarrow> bool"
  rc_digit :: "nat \<Rightarrow> bool"
  rc_upper :: "nat \<Rightarrow> bool"

definition go_keywords :: "string list" where
  "go_keywords =
     [''break'', ''case'', ''chan'', ''const'', ''continue'', ''default'', ''defer'', ''else'', ''fallthrough'', ''for'',
      ''func'', ''go'', ''goto'', ''if'', ''import'', ''interface'', ''map'', ''package'', ''range'', ''return'',
      ''select'', ''struct'', ''switch'', ''type'', ''var'']"

definition validGoIdentifier :: "rune_classes \<Rightarrow> string \<Rightarrow> bool" where
  "validGoIdentifier cls v =
     (let start = (\<lambda>c. c = of_char (CHR ''_'') \<or> rc_letter cls c) in
      v \<notin> set go_keywords \<and>
      (case runes v of
         [] \<Rightarrow> False
       | c # cs \<Rightarrow> start c \<and> list_all (\<lambda>c. start c \<or> rc_digit cls c) cs))"

definition validExportedIdentifier :: "rune_classes \<Rightarrow> string \<Rightarrow> bool" where
  "validExportedIdentifier cls v =
     (validGoIdentifier cls v \<and> (case runes v of [] \<Rightarrow> False | c # cs \<Rightarrow> rc_upper cls c))"

definition validCanonicalSymbol :: "rune_classes \<Rightarrow> string \<Rightarrow> bool" where
  "validCanonicalSymbol cls v =
     (case last_index_of (CHR ''.'') v of
        None \<Rightarrow> False
      | Some dot \<Rightarrow>
          (case last_index_of (CHR ''/'') v of None \<Rightarrow> True | Some slash \<Rightarrow> dot > slash) \<and> dot > 0 \<and>
          project_module_path (take dot v) \<and> validExportedIdentifier cls (drop (dot + 1) v))"

section \<open>Settings\<close>

record toolchain =
  tc_Go :: string
  tc_Spice :: string

record dependency_policy =
  dp_Verification :: string
  dp_ApprovedRegistries :: "string list"
  dp_ApprovedProxies :: "string list"
  dp_AllowedModules :: "string list"
  dp_DeniedModules :: "string list"

record included_project =
  ip_Name :: string
  ip_Directory :: string

record settings =
  st_Name :: string
  st_Module :: string
  st_Toolchain :: toolchain
  st_Projects :: "included_project list"
  st_DependencyPolicy :: dependency_policy

text \<open>\<open>slices.IsSorted\<close> and no duplicate next to its copy.\<close>

definition validateCanonicalKeys :: "string \<Rightarrow> string list \<Rightarrow> go_error option" where
  "validateCanonicalKeys label vs =
     (if \<not> sorted vs then Some (Errorf ''%s are not in canonical order'' [AStr label] [])
      else if \<not> distinct_adj vs then Some (Errorf ''%s contains duplicate %q'' [AStr label] [])
      else None)"

definition validateSortedStrings :: "string \<Rightarrow> string list \<Rightarrow> go_error option" where
  "validateSortedStrings label vs =
     (if list_ex (\<lambda>v. trim_space v = [] \<or> trim_space v \<noteq> v) vs then
        Some (Errorf ''%s contains an empty or untrimmed value'' [AStr label] [])
      else validateCanonicalKeys label vs)"

fun first_error :: "go_error option list \<Rightarrow> go_error option" where
  "first_error [] = None"
| "first_error (e # es) = (case e of Some err \<Rightarrow> Some err | None \<Rightarrow> first_error es)"

definition validateDependencyPolicy :: "dependency_policy \<Rightarrow> go_error option" where
  "validateDependencyPolicy policy =
     (if dp_Verification policy \<noteq> [] \<and> dp_Verification policy \<noteq> ''strict'' then
        Some (Errorf ''verification mode %q is unsupported'' [AStr (dp_Verification policy)] [])
      else
        first_error
          [validateSortedStrings ''approved registries'' (dp_ApprovedRegistries policy),
           validateSortedStrings ''approved proxies'' (dp_ApprovedProxies policy),
           validateSortedStrings ''allowed modules'' (dp_AllowedModules policy),
           validateSortedStrings ''denied modules'' (dp_DeniedModules policy),
           (case find (\<lambda>m. \<not> project_module_path m) (dp_AllowedModules policy @ dp_DeniedModules policy) of
              Some m \<Rightarrow> Some (Errorf ''policy module %q is invalid'' [AStr m] []) | None \<Rightarrow> None),
           (case find (\<lambda>m. m \<in> set (dp_AllowedModules policy)) (dp_DeniedModules policy) of
              Some m \<Rightarrow> Some (Errorf ''module %q is both allowed and denied'' [AStr m] []) | None \<Rightarrow> None)])"

fun validateIncludedProjects :: "unicode_tables \<Rightarrow> string list \<Rightarrow> string list \<Rightarrow> included_project list \<Rightarrow> go_error option" where
  "validateIncludedProjects tab seenNames seenDirectories [] = None"
| "validateIncludedProjects tab seenNames seenDirectories (included # ps) =
     (if \<not> rx_matches portableNamePattern (ip_Name included) then
        Some (Errorf ''name %q is invalid'' [AStr (ip_Name included)] [])
      else if \<not> validRelativePath tab (ip_Directory included) then
        Some (Errorf ''project %q directory %q is not a canonical relative path''
                [AStr (ip_Name included), AStr (ip_Directory included)] [])
      else if ip_Name included \<in> set seenNames then Some (Errorf ''name %q is duplicated'' [AStr (ip_Name included)] [])
      else if str_lower tab (ip_Directory included) \<in> set seenDirectories then
        Some (Errorf ''directory %q is duplicated after case folding'' [AStr (ip_Directory included)] [])
      else
        validateIncludedProjects tab (ip_Name included # seenNames) (str_lower tab (ip_Directory included) # seenDirectories) ps)"

definition ValidateSettings :: "unicode_tables \<Rightarrow> settings \<Rightarrow> go_error option" where
  "ValidateSettings tab settings =
     (if \<not> rx_matches portableNamePattern (st_Name settings) then
        Some (Errorf ''project name %q is not a portable lowercase identity'' [AStr (st_Name settings)] [])
      else if \<not> project_module_path (st_Module settings) then
        Some (Errorf ''project %q module %q is not a valid Go module path'' [AStr (st_Name settings), AStr (st_Module settings)] [])
      else if \<not> rx_matches goVersionPattern (tc_Go (st_Toolchain settings)) then
        Some (Errorf ''project %q Go version %q must use major.minor.patch form''
                [AStr (st_Name settings), AStr (tc_Go (st_Toolchain settings))] [])
      else if \<not> rx_matches versionPattern (tc_Spice (st_Toolchain settings)) then
        Some (Errorf ''project %q Spice version %q is not a v-prefixed semantic version''
                [AStr (st_Name settings), AStr (tc_Spice (st_Toolchain settings))] [])
      else
        (case validateIncludedProjects tab [] [] (st_Projects settings) of
           Some err \<Rightarrow> Some (Errorf ''project %q included projects: %w'' [AStr (st_Name settings)] [err])
         | None \<Rightarrow>
             (case validateDependencyPolicy (st_DependencyPolicy settings) of
                Some err \<Rightarrow> Some (Errorf ''project %q dependency policy: %w'' [AStr (st_Name settings)] [err])
              | None \<Rightarrow> None)))"

section \<open>Builds\<close>

datatype build_kind = Application | LibraryKind | StarterKind | ToolKind | OtherKind string
datatype dependency_kind = DependencyStarter | DependencyLibrary | DependencyTool | OtherDependency string
datatype dependency_scope = ScopeMain | ScopeTest | ScopeBuild | OtherScope string
datatype plugin_kind = PluginApplication | PluginCompiler | OtherPlugin string

record project_dependency =
  pd_Kind :: dependency_kind
  pd_Scope :: dependency_scope
  pd_Name :: string
  pd_Module :: string
  pd_Version :: string

definition Library :: "string \<Rightarrow> string \<Rightarrow> project_dependency" where
  "Library module version =
     \<lparr>pd_Kind = DependencyLibrary, pd_Scope = ScopeMain, pd_Name = [], pd_Module = module, pd_Version = version\<rparr>"

definition BuildTool :: "string \<Rightarrow> string \<Rightarrow> project_dependency" where
  "BuildTool module version =
     \<lparr>pd_Kind = DependencyTool, pd_Scope = ScopeBuild, pd_Name = [], pd_Module = module, pd_Version = version\<rparr>"

record project_plugin =
  pl_Kind :: plugin_kind
  pl_Module :: string
  pl_Version :: string

record target =
  tg_Name :: string
  tg_Package :: string
  tg_Generated :: string

record generator =
  gn_Module :: string
  gn_Version :: string

datatype style_kind = StylePackageFunction | StylePackageVariable | StylePublicRoute | OtherStyle string

record style_exception =
  se_Kind :: style_kind
  se_Package :: string
  se_Symbol :: string
  se_Receiver :: string
  se_Method :: string
  se_Type :: string
  se_Reason :: string
  se_Issue :: string

datatype view_kind = ViewPlaceType | OtherView string

record view_override =
  vo_Kind :: view_kind
  vo_GoSymbol :: string
  vo_ViewGroup :: string

datatype package_format = PackageBinary | PackageArchive | PackageModule | OtherFormat string

record build =
  bu_Kind :: build_kind
  bu_Dependencies :: "project_dependency list"
  bu_Plugins :: "project_plugin list"
  bu_Targets :: "target list"
  bu_Generators :: "generator list"
  bu_StyleExceptions :: "style_exception list"
  bu_Views :: "view_override list"
  bu_Packaging :: "package_format list"

definition validKind :: "build_kind \<Rightarrow> bool" where
  "validKind kind = (case kind of OtherKind s \<Rightarrow> False | _ \<Rightarrow> True)"

definition validateDependency :: "project_dependency \<Rightarrow> go_error option" where
  "validateDependency d =
     (case pd_Kind d of
        DependencyStarter \<Rightarrow>
          if pd_Scope d \<noteq> ScopeMain \<and> pd_Scope d \<noteq> ScopeTest then
            Some (Errorf ''starter %q has unsupported scope %q'' [AStr (pd_Name d)] [])
          else if \<not> rx_matches portableNamePattern (pd_Name d) \<or> pd_Module d \<noteq> [] then
            Some (errors_new ''starter dependency requires a portable name and no module path'')
          else if pd_Version d \<noteq> [] \<and> \<not> rx_matches versionPattern (pd_Version d) then
            Some (Errorf ''starter %q version %q is invalid'' [AStr (pd_Name d), AStr (pd_Version d)] [])
          else None
      | DependencyLibrary \<Rightarrow>
          if pd_Scope d \<noteq> ScopeMain \<and> pd_Scope d \<noteq> ScopeTest then
            Some (Errorf ''library %q has unsupported scope %q'' [AStr (pd_Module d)] [])
          else if pd_Name d \<noteq> [] \<or> \<not> validVersionedModule (pd_Module d) (pd_Version d) then
            Some (errors_new ''library dependency requires a valid module and v-prefixed semantic version'')
          else None
      | DependencyTool \<Rightarrow>
          if pd_Scope d \<noteq> ScopeBuild \<or> pd_Name d \<noteq> [] \<or> \<not> validVersionedModule (pd_Module d) (pd_Version d) then
            Some (errors_new ''tool dependency requires build scope, a valid module, and a v-prefixed semantic version'')
          else None
      | OtherDependency s \<Rightarrow> Some (Errorf ''dependency kind %q is unsupported'' [AStr s] []))"

text \<open>The key of a dependency is its scope, kind, name and module, whose separator no valid one contains.\<close>

fun validateDependencies :: "(dependency_scope \<times> dependency_kind \<times> string \<times> string) list \<Rightarrow> project_dependency list \<Rightarrow> go_error option" where
  "validateDependencies seen [] = None"
| "validateDependencies seen (d # ds) =
     (case validateDependency d of
        Some err \<Rightarrow> Some err
      | None \<Rightarrow>
          let key = (pd_Scope d, pd_Kind d, pd_Name d, pd_Module d) in
          if key \<in> set seen then
            Some (Errorf ''dependency %q is duplicated in %s scope''
                    [AStr (if pd_Name d \<noteq> [] then pd_Name d else pd_Module d)] [])
          else validateDependencies (key # seen) ds)"

fun check_plugins :: "nat \<Rightarrow> (plugin_kind \<times> string) list \<Rightarrow> project_plugin list \<Rightarrow> nat res" where
  "check_plugins applications seen [] = Inr applications"
| "check_plugins applications seen (p # ps) =
     (let key = (pl_Kind p, pl_Module p) in
      if key \<in> set seen then Inl (Errorf ''plugin %q is duplicated'' [] [])
      else
        (case pl_Kind p of
           PluginApplication \<Rightarrow>
             if pl_Module p \<noteq> [] \<or> pl_Version p \<noteq> [] then
               Inl (errors_new ''application plugin cannot declare a module or version'')
             else check_plugins (applications + 1) (key # seen) ps
         | PluginCompiler \<Rightarrow>
             if \<not> validVersionedModule (pl_Module p) (pl_Version p) then
               Inl (errors_new ''compiler plugin requires a valid module and v-prefixed semantic version'')
             else check_plugins applications (key # seen) ps
         | OtherPlugin s \<Rightarrow> Inl (Errorf ''plugin kind %q is unsupported'' [AStr s] [])))"

definition validatePlugins :: "build_kind \<Rightarrow> project_plugin list \<Rightarrow> go_error option" where
  "validatePlugins kind plugins =
     (case check_plugins 0 [] plugins of
        Inl err \<Rightarrow> Some err
      | Inr applications \<Rightarrow>
          if kind = Application \<and> applications \<noteq> 1 then
            Some (Errorf ''application build requires exactly one application plugin, got %d'' [AInt (int applications)] [])
          else if kind \<noteq> Application \<and> applications \<noteq> 0 then
            Some (Errorf ''%s build cannot select the application plugin'' [] [])
          else None)"

fun validateTargets :: "string list \<Rightarrow> target list \<Rightarrow> go_error option" where
  "validateTargets seen [] = None"
| "validateTargets seen (t # ts) =
     (if \<not> rx_matches portableNamePattern (tg_Name t) then Some (Errorf ''target name %q is invalid'' [AStr (tg_Name t)] [])
      else if \<not> project_module_path (tg_Package t) \<or> \<not> project_module_path (tg_Generated t) then
        Some (Errorf ''target %q requires valid canonical and generated Go package paths'' [AStr (tg_Name t)] [])
      else if tg_Name t \<in> set seen then Some (Errorf ''target %q is duplicated'' [AStr (tg_Name t)] [])
      else validateTargets (tg_Name t # seen) ts)"

fun validateGenerators :: "string list \<Rightarrow> generator list \<Rightarrow> go_error option" where
  "validateGenerators seen [] = None"
| "validateGenerators seen (g # gs) =
     (if \<not> validVersionedModule (gn_Module g) (gn_Version g) then
        Some (errors_new ''generator requires a valid module and v-prefixed semantic version'')
      else if gn_Module g \<in> set seen then Some (Errorf ''generator module %q is duplicated'' [AStr (gn_Module g)] [])
      else validateGenerators (gn_Module g # seen) gs)"

definition style_kind_string :: "style_kind \<Rightarrow> string" where
  "style_kind_string k =
     (case k of StylePackageFunction \<Rightarrow> ''package-function'' | StylePackageVariable \<Rightarrow> ''package-variable''
      | StylePublicRoute \<Rightarrow> ''public-route'' | OtherStyle s \<Rightarrow> s)"

definition styleExceptionKey :: "style_exception \<Rightarrow> string" where
  "styleExceptionKey e =
     join_with [CHR 0x00] [style_kind_string (se_Kind e), se_Package e, se_Symbol e, se_Receiver e, se_Method e]"

definition validateStyleExceptionFields :: "rune_classes \<Rightarrow> style_exception \<Rightarrow> nat \<Rightarrow> go_error option" where
  "validateStyleExceptionFields cls e index =
     (case se_Kind e of
        StylePackageFunction \<Rightarrow>
          if \<not> validGoIdentifier cls (se_Symbol e) \<or> se_Receiver e \<noteq> [] \<or> se_Method e \<noteq> [] \<or> se_Type e \<noteq> [] then
            Some (Errorf ''package-function exception %d has invalid fields'' [AInt (int index)] [])
          else None
      | StylePackageVariable \<Rightarrow>
          if \<not> validGoIdentifier cls (se_Symbol e) \<or> trim_space (se_Type e) = [] \<or> se_Receiver e \<noteq> [] \<or> se_Method e \<noteq> [] then
            Some (Errorf ''package-variable exception %d has invalid fields'' [AInt (int index)] [])
          else None
      | StylePublicRoute \<Rightarrow>
          if \<not> validExportedIdentifier cls (se_Receiver e) \<or> \<not> validExportedIdentifier cls (se_Method e) \<or>
            se_Symbol e \<noteq> [] \<or> se_Type e \<noteq> [] then
            Some (Errorf ''public-route exception %d has invalid fields'' [AInt (int index)] [])
          else None
      | OtherStyle s \<Rightarrow> Some (Errorf ''style exception kind %q is unsupported'' [AStr s] []))"

fun check_exceptions :: "rune_classes \<Rightarrow> nat \<Rightarrow> style_exception list \<Rightarrow> go_error option" where
  "check_exceptions cls index [] = None"
| "check_exceptions cls index (e # es) =
     (if \<not> project_module_path (se_Package e) \<or> trim_space (se_Reason e) = [] \<or> trim_space (se_Issue e) = [] then
        Some (Errorf ''style exception %d requires a Go package, reason, and issue'' [AInt (int index)] [])
      else
        (case validateStyleExceptionFields cls e index of
           Some err \<Rightarrow> Some err
         | None \<Rightarrow> check_exceptions cls (index + 1) es))"

definition validateStyleExceptions :: "rune_classes \<Rightarrow> style_exception list \<Rightarrow> go_error option" where
  "validateStyleExceptions cls es =
     first_error [check_exceptions cls 0 es, validateCanonicalKeys ''style exceptions'' (map styleExceptionKey es)]"

fun check_views :: "unicode_tables \<Rightarrow> rune_classes \<Rightarrow> view_override list \<Rightarrow> go_error option" where
  "check_views tab cls [] = None"
| "check_views tab cls (v # vs) =
     (case vo_Kind v of
        OtherView s \<Rightarrow> Some (Errorf ''view override kind %q is unsupported'' [AStr s] [])
      | ViewPlaceType \<Rightarrow>
          if \<not> validCanonicalSymbol cls (vo_GoSymbol v) then
            Some (Errorf ''view override symbol %q is not a canonical exported Go type'' [AStr (vo_GoSymbol v)] [])
          else if \<not> validRelativePath tab (vo_ViewGroup v) then
            Some (Errorf ''view override group %q is not a canonical relative path'' [AStr (vo_ViewGroup v)] [])
          else check_views tab cls vs)"

definition validateViewOverrides :: "unicode_tables \<Rightarrow> rune_classes \<Rightarrow> view_override list \<Rightarrow> go_error option" where
  "validateViewOverrides tab cls vs =
     first_error [check_views tab cls vs, validateCanonicalKeys ''View overrides'' (map vo_GoSymbol vs)]"

definition format_string :: "package_format \<Rightarrow> string" where
  "format_string f =
     (case f of PackageBinary \<Rightarrow> ''binary'' | PackageArchive \<Rightarrow> ''archive'' | PackageModule \<Rightarrow> ''module'' | OtherFormat s \<Rightarrow> s)"

definition validatePackaging :: "package_format list \<Rightarrow> go_error option" where
  "validatePackaging formats =
     (case find (\<lambda>f. case f of OtherFormat s \<Rightarrow> True | _ \<Rightarrow> False) formats of
        Some f \<Rightarrow> Some (Errorf ''package format %q is unsupported'' [AStr (format_string f)] [])
      | None \<Rightarrow> validateCanonicalKeys ''package formats'' (map format_string formats))"

definition ValidateBuild :: "unicode_tables \<Rightarrow> rune_classes \<Rightarrow> build \<Rightarrow> go_error option" where
  "ValidateBuild tab cls build =
     (if \<not> validKind (bu_Kind build) then Some (Errorf ''build kind %q is unsupported'' [] [])
      else
        first_error
          [validateDependencies [] (bu_Dependencies build),
           validatePlugins (bu_Kind build) (bu_Plugins build),
           validateTargets [] (bu_Targets build),
           validateGenerators [] (bu_Generators build),
           validateStyleExceptions cls (bu_StyleExceptions build),
           validateViewOverrides tab cls (bu_Views build),
           validatePackaging (bu_Packaging build)])"

section \<open>The declarations of the project\<close>

definition Settings :: settings where
  "Settings =
     \<lparr>st_Name = ''websocket'',
      st_Module = ''github.com/spice-framework/starter-websocket'',
      st_Toolchain = \<lparr>tc_Go = ''1.26.6'', tc_Spice = ''v0.1.0-preview.4.0.20260814014712-5f535e696300''\<rparr>,
      st_Projects = [],
      st_DependencyPolicy =
        \<lparr>dp_Verification = ''strict'', dp_ApprovedRegistries = [], dp_ApprovedProxies = [],
         dp_AllowedModules = [], dp_DeniedModules = []\<rparr>\<rparr>"

definition Build :: build where
  "Build =
     \<lparr>bu_Kind = StarterKind,
      bu_Dependencies =
        [Library ''github.com/coder/websocket'' ''v1.8.15'',
         BuildTool ''github.com/spice-framework/toolchain'' ''v0.0.0-20260806133530-71211498297c''],
      bu_Plugins = [],
      bu_Targets = [], bu_Generators = [], bu_StyleExceptions = [], bu_Views = [], bu_Packaging = []\<rparr>"

section \<open>Agreement\<close>

text \<open>
  The three declarations of the package are valid and agree. The SDK accepts the manifest (so \<open>Manifest\<close> does
  not panic), the toolchain accepts the settings and the build; the manifest and the settings name the same module,
  the libraries of the build are the dependencies of the manifest at the same versions, and the Go version of the
  toolchain is not older than the manifest's minimum.
\<close>

theorem declarations_agree:
  "(case Manifest of
      Inl e \<Rightarrow> False
    | Inr spec \<Rightarrow>
        ValidateSettings tab Settings = None \<and>
        ValidateBuild tab cls Build = None \<and>
        ss_Module spec = st_Module Settings \<and>
        map (\<lambda>d. (pd_Module d, pd_Version d)) (filter (\<lambda>d. pd_Kind d = DependencyLibrary) (bu_Dependencies Build)) =
          map (\<lambda>d. (de_Module d, de_Version d)) (ss_Dependencies spec) \<and>
        (case (map_option (map (take 2)) (map_option (\<lambda>v. [v]) (version_numbers (split_on (CHR ''.'') (tc_Go (st_Toolchain Settings)))))) of
           Some [v] \<Rightarrow> version_numbers (split_on (CHR ''.'') (ss_MinimumGo spec)) = Some v
         | _ \<Rightarrow> False))"
  by code_simp

end
