(* ===== verification/Spec2Isabelle.thy ===== *)
theory Spec2Isabelle
  imports Close_Refinement Server_Sessions Client Native_Sessions Close_Status Origin_Policy End_To_End Compressed_Edges Gate_Cleanup
    Gate_Boundary Project_Settings
begin

text \<open>
  Verification of the WebSocket starter: a Go library that wraps the native WebSocket library
  \<open>github.com/coder/websocket\<close> (vendored) into a server handler and a client with bounded, fail-closed
  configuration, and a quality gate that verifies the repository.

  \<^bold>\<open>The parts of the program and how they interact.\<close>
  \<open>config.go\<close> turns the configuration of an application into a normalized one or an error.
  \<open>NewHandler\<close> (\<open>server.go\<close>) and \<open>Dial\<close> (\<open>client.go\<close>) start from that. A handler admits a request
  (transport, authentication, a slot), lets the native library upgrade it, wraps the native connection
  into a \<open>Connection\<close> (\<open>connection.go\<close>), runs the session handler of the application, closes, and tells the
  observers (\<open>observer.go\<close>). A client does the same with one outbound connection and a cleanup
  function. A \<open>Connection\<close> checks arguments, redacts the errors of the native library and makes sure that one
  close handshake takes place, in a goroutine that several callers may wait for. The native library
  makes the handshakes, frames, masks, compresses, reads and writes. \<open>manifest.go\<close>, \<open>settings.spice.go\<close> and \<open>build.spice.go\<close>
  declare the starter, the project and its build to the Spice toolchain. The commands
  under \<open>internal/qualitygate\<close> check the repository by running go commands and tools.

  \<^bold>\<open>Theories and the code they model.\<close>
  \<^item> \<open>Go_Prelude\<close>: errors as values with the tree that \<open>errors.Is\<close> and \<open>errors.As\<close> walk, results as sums, contexts, bytes.
    \<open>Go_Text\<close>, \<open>Go_Net\<close>, \<open>Go_Path\<close>, \<open>Go_Binary\<close>, \<open>Go_Unicode\<close>, \<open>Go_Encoding\<close>: the functions of \<open>strings\<close>,
    \<open>strconv\<close>, \<open>net\<close>, \<open>path\<close>, \<open>encoding/binary\<close>, \<open>encoding/base64\<close> and \<open>crypto/sha1\<close> that the code calls.
  \<^item> \<open>Config\<close>: \<open>config.go\<close>; \<open>Config_Policy\<close>: its contract. \<open>server_config\<close>, \<open>client_config\<close> and the normalized records
    are the structs of the same names.
  \<^item> \<open>Observer\<close>: \<open>observer.go\<close>.
  \<^item> \<open>Connection\<close>: \<open>connection.go\<close> over a record of native operations; \<open>Connection_Laws\<close>: redaction, and the
    locale \<open>native_connection\<close> with the contract the connection relies on and what follows from it, its extension
    \<open>bounded_connection\<close> by the message bound, and \<open>native_property\<close>, what every operation keeps, which other contracts contain;
    \<open>Close_Concurrency\<close>: concurrent calls of \<open>Close\<close> as a step relation over the shared once, channel and error. The effect
    of a native call is one step, its return; \<open>runs_with\<close> are the runs in which a given set of native calls never returns;
    \<open>Close_Refinement\<close>: that relation refines the sequential function \<open>Close\<close>.
  \<^item> \<open>Server\<close>: \<open>server.go\<close>, one request as a function to the handler, the connection and a log of what happened;
    \<open>Server_Laws\<close>: its properties; \<open>Server_Sessions\<close>: many requests as a step relation over the shared counters.
  \<^item> \<open>Client\<close>: \<open>client.go\<close>.
  \<^item> \<open>Ws_Frame\<close>, \<open>Ws_Mask\<close>, \<open>Ws_Close\<close>, \<open>Ws_Compress\<close>, \<open>Ws_Conn\<close>, \<open>Ws_Reader\<close>, \<open>Ws_Native\<close>: \<open>frame.go\<close>, \<open>mask.go\<close>,
    \<open>close.go\<close>, \<open>compress.go\<close>, \<open>conn.go\<close>, \<open>read.go\<close> and \<open>write.go\<close> of the native library. The record \<open>wsconn\<close> is \<open>Conn\<close> with its
    readers and writers, its field \<open>c_fl\<close> (a \<open>flate_state\<close>) what only compression uses: the window and the buffer of the
    reader, the messages that the flate writer has seen. The interpretations \<open>ws\<close> and \<open>ws_bounded\<close> prove the contracts.
    \<open>Ws_Transfer\<close>: what a write puts on the wire and how an uncompressed message is read; \<open>Message_Transfer\<close>: how a
    compressed one is read, and one end against the other; \<open>Compressed_Edges\<close>: messages that end early or late;
    \<open>Native_Sessions\<close>: the starter on top of it. \<open>Close_Status\<close>: the locale \<open>status_connection\<close>,
    an extension of the contract by a type of close statuses, its interpretation \<open>ws_status\<close>, and that reasons stay inside.
  \<^item> \<open>Ws_Handshake\<close>, \<open>Ws_Dial\<close>: \<open>accept.go\<close>, \<open>dial.go\<close>, \<open>newConn\<close> of \<open>conn.go\<close> and the negotiation of \<open>compress.go\<close>. A
    response writer is a header, a new connection its configuration \<open>conn_config\<close>. \<open>Handshake_Laws\<close>: the two sides against
    each other under accepted configurations; \<open>Origin_Policy\<close>: which origins get in, with what \<open>path.Match\<close> does to patterns in lower case.
    \<open>End_To_End\<close>: \<open>ServeHTTP\<close> and \<open>Dial\<close> on these handshakes and on the native connection, one application to the other.
  \<^item> \<open>Manifest\<close>: \<open>manifest.go\<close> and the validation of the Spice SDK that it has to pass. \<open>Project_Settings\<close>:
    \<open>settings.spice.go\<close>, \<open>build.spice.go\<close> and the validation by the vendored package \<open>project\<close>.
  \<^item> \<open>Gate_World\<close>, \<open>Gate_Exec\<close>, \<open>Gate_Compat\<close>, \<open>Gate_Release\<close>, \<open>Gate_Steps\<close>: \<open>internal/qualitygate\<close> as computations over a
    file system and an event log; \<open>Gate_Env\<close>, \<open>Gate_Trace\<close>, \<open>Gate_Laws\<close>, \<open>Gate_Cleanup\<close>, \<open>Gate_Checks\<close>, \<open>Gate_Boundary\<close>: its properties.
    An event is a process, a line of output, a file created, or a removal with its result; \<open>Gate_Boundary\<close> relates the walk over
    the repository to the regular files that are there.
    The locales of \<open>Gate_Trace\<close> (\<open>module_policy\<close> and its extensions) are policies on events; every operation is shown
    once to keep to a policy, and the interpretations are the policies of the properties.

  \<^bold>\<open>What the properties show.\<close>
  \<^item> Configuration: \<open>normalizeServerConfig\<close> accepts exactly a declarative contract; an accepted client
    configuration dials verified TLS or explicit loopback, follows no redirect, uses no proxy, and carries the caller's
    credentials and headers within the bounds; the order of a map does not matter for what is accepted and stored.
  \<^item> Connection: one native handshake and one channel close for any number of concurrent \<open>Close\<close> calls, which wait for
    nothing but native closes that do not return, and
    every schedule has the result of the sequential function; reads, writes and pings do not show close reasons of the peer; a message
    crosses from one end to the other unchanged, compressed or not, with the window of the reader in step with that of the
    writer; no message above the bound gets through, with compression none above the bound and one byte.
  \<^item> End to end: a handler and a client with accepted configurations connect, and any sequence of messages crosses in
    either direction.
  \<^item> Handshake: accepted configurations on both ends always complete it and agree on subprotocol and compression; the
    server upgrades exactly the origins of its policy; the close statuses that applications see are those of the protocol.
  \<^item> Server and client: admission is exactly the policy; slots and counters are given back on every path and bounded
    under every interleaving; finishers run once, in reverse order.
  \<^item> Codec: round trips of frame headers and close payloads; the unrolled masking is RFC 6455 masking; the buffers of
    compression keep what they are for.
  \<^item> Quality gate: go commands can fetch modules only while the gate prepares; the result and the reports of a run are what its
    checks have returned; temporary files are removed or reported; a verified boundary leaves the digests of the regular files of the
    repository (but for \<open>.git\<close>) unchanged; the acceptance of checksums and tool authorizations, and what is taken for the repository root.
  \<^item> Declarations: manifest, settings and build are valid and agree; validation keeps what it has accepted.
  \<^item> Where the code does less than it says: \<open>Read_accepts_truncated_message\<close>, \<open>Read_accepts_cut_message\<close>,
    \<open>compressed_message_exceeds_bound\<close>, \<open>Close_outlives_its_context\<close>,
    \<open>failed_close_fails_session\<close>, \<open>handler_panic_skips_close\<close>, \<open>identity_misses_replace\<close>,
    \<open>double_star_admits_any_origin\<close>, the second part of \<open>repository_root_nearest\<close>, and the lemmas \<open>onlineEnvironment_inherits\<close>, \<open>coverage_leaves_profile\<close> and two at the end of \<open>Config_Policy\<close>.

  \<^bold>\<open>Parameters.\<close> Code that is not in the repository, or that belongs to the runtime, is an argument: the session handler,
  authentication and observers of the application; \<open>url.Parse\<close> and \<open>URL.String\<close>; the tables of \<open>unicode\<close>; for the
  native handshakes the HTTP exchange, hijacking and the random source, and for \<open>ServeHTTP\<close> and \<open>Dial\<close>, in their own
  theories, the whole native handshake; \<open>compress/flate\<close>, of which the transfer of compressed messages needs what \<open>Flush\<close>
  documents (\<open>flate_ok\<close>, which \<open>stored_lib\<close> shows to be possible); the clock; for the gate, what a process does (anything, to the whole file system),
  SHA-256, \<open>encoding/json\<close> into the gate's structs and \<open>strconv.ParseFloat\<close>.

  \<^bold>\<open>Time, termination and fuel.\<close> No definition has fuel. A context is a timeline of its own ends; in \<open>Close\<close> it moves once, to the
  moment of the \<open>select\<close>. In the native connection time is counted in milliseconds, every blocking operation
  takes the next of a list of delays, and timeouts are contexts. The reading loops end because each turn consumes
  input (the measure is what is left of the stream, for a compressed message with what has been buffered, \<open>pending\<close>); \<open>io.ReadAll\<close>
  ends because every read consumes input, ends the flate reader or delivers what it had decoded (\<open>read_rank\<close>). A silent peer is a stream that ends.

  \<^bold>\<open>What is not modelled.\<close> In the native library: what a failed dial leaves of the response body, \<open>cloneWithDefaults\<close> of the dial
  options (the starter sets all it could default), and what the starter does not use: \<open>CloseRead\<close>, the \<open>net.Conn\<close> adapter, writers for
  fragmented messages, the JavaScript and assembly variants; the pools of buffers and flate writers, which are reset before use; one native operation runs at a time, an operation whose context has ended by its completion
  counts as interrupted, and a forced close that overlaps a handshake is placed before or after it (so that
  its own limit of 15 seconds does not show). In the SDK: contributed annotations and features, catalogs and local configurations. In the gate: the output of
  processes to the terminal, flag parsing and \<open>os.Exit\<close>.
\<close>

end
